(* ===== verification/Prelude.thy ===== *)
theory Prelude
  imports Main "HOL-Library.Monad_Syntax" "HOL-Library.State_Monad"
    "HOL-Library.AList" "HOL-Library.Char_ord" "HOL-Library.List_Lexorder"
begin

text \<open>
  Shared foundations of the development.

  Stateful Go code is modelled in the state monad of the library: a handler is a value of
  type \<open>('s, 'a) state\<close>, and a Go pair \<open>(value, error)\<close> is a sum whose left summand is the
  error. This theory holds the proof rules for such programs that every component uses:
  Hoare triples (\<open>hoare\<close>), programs that keep a state invariant and establish a
  property of their result (\<open>keeps\<close>), and programs whose start and end state are always
  related (\<open>steps\<close>), together with the generic facts on ordered association lists that
  model the keyed storage.
\<close>

named_theorems keeps_rules \<open>introduction rules for \<open>keeps\<close>\<close>
named_theorems steps_rules \<open>introduction rules for \<open>steps\<close>\<close>
named_theorems run_simps \<open>evaluation of the primitive stateful operations\<close>

section \<open>Stateful programs\<close>

abbreviation ret :: "'a \<Rightarrow> ('s, 'a) state" where
  "ret \<equiv> State_Monad.return"

subsection \<open>Hoare triples\<close>

definition hoare :: "('s \<Rightarrow> bool) \<Rightarrow> ('s, 'a) state \<Rightarrow> ('a \<Rightarrow> 's \<Rightarrow> bool) \<Rightarrow> bool" where
  "hoare P m Q \<longleftrightarrow> (\<forall>s. P s \<longrightarrow> (case run_state m s of (a, s') \<Rightarrow> Q a s'))"

lemma hoareI: "(\<And>s a s'. P s \<Longrightarrow> run_state m s = (a, s') \<Longrightarrow> Q a s') \<Longrightarrow> hoare P m Q"
  by (auto simp: hoare_def)

lemma hoareD: "hoare P m Q \<Longrightarrow> P s \<Longrightarrow> run_state m s = (a, s') \<Longrightarrow> Q a s'"
  by (auto simp: hoare_def)

lemma hoare_return: "(\<And>s. P s \<Longrightarrow> Q x s) \<Longrightarrow> hoare P (ret x) Q"
  by (simp add: hoare_def)

lemma hoare_bind:
  "hoare P m R \<Longrightarrow> (\<And>a. hoare (R a) (f a) Q) \<Longrightarrow> hoare P (State_Monad.bind m f) Q"
  by (fastforce simp: hoare_def split: prod.splits)

lemma hoare_conseq:
  "hoare P m Q \<Longrightarrow> (\<And>s. P' s \<Longrightarrow> P s) \<Longrightarrow> (\<And>a s. Q a s \<Longrightarrow> Q' a s) \<Longrightarrow> hoare P' m Q'"
  by (fastforce simp: hoare_def split: prod.splits)

subsection \<open>Programs that keep an invariant\<close>

text \<open>
  \<open>keeps I m Q\<close>: started in a state with \<open>I\<close>, the program ends in a state with \<open>I\<close> and
  returns a value with \<open>Q\<close>. The bind rule hands what the first program guarantees of its
  result to the second one, which is how a record read from storage carries the storage
  invariant into the code that writes it back.
\<close>

definition keeps :: "('s \<Rightarrow> bool) \<Rightarrow> ('s, 'a) state \<Rightarrow> ('a \<Rightarrow> bool) \<Rightarrow> bool" where
  "keeps I m Q \<longleftrightarrow> (\<forall>s. I s \<longrightarrow> I (snd (run_state m s)) \<and> Q (fst (run_state m s)))"

lemma keepsD: "keeps I m Q \<Longrightarrow> I s \<Longrightarrow> run_state m s = (a, s') \<Longrightarrow> I s' \<and> Q a"
  by (metis fst_conv keeps_def snd_conv)

lemma keepsI: "(\<And>s a s'. I s \<Longrightarrow> run_state m s = (a, s') \<Longrightarrow> I s' \<and> Q a) \<Longrightarrow> keeps I m Q"
  by (metis keeps_def prod.collapse)

lemma keeps_state: "keeps I m Q \<Longrightarrow> I s \<Longrightarrow> I (snd (run_state m s))"
  by (simp add: keeps_def)

lemma keeps_return [keeps_rules]: "Q x \<Longrightarrow> keeps I (ret x) Q"
  by (simp add: keeps_def)

lemma keeps_bind:
  "keeps I m R \<Longrightarrow> (\<And>a. R a \<Longrightarrow> keeps I (f a) Q) \<Longrightarrow> keeps I (State_Monad.bind m f) Q"
  by (fastforce simp: keeps_def split: prod.splits)

lemma keeps_weaken: "keeps I m R \<Longrightarrow> (\<And>a. R a \<Longrightarrow> Q a) \<Longrightarrow> keeps I m Q"
  by (auto simp: keeps_def)

lemma keeps_true: "keeps I m Q \<Longrightarrow> keeps I m (\<lambda>_. True)"
  by (erule keeps_weaken) simp

lemma keeps_if [keeps_rules]:
  "(b \<Longrightarrow> keeps I m Q) \<Longrightarrow> (\<not> b \<Longrightarrow> keeps I n Q) \<Longrightarrow> keeps I (if b then m else n) Q"
  by simp

lemma keeps_let [keeps_rules]: "keeps I (f x) Q \<Longrightarrow> keeps I (Let x f) Q"
  by simp

lemma keeps_case_option [keeps_rules]:
  "(x = None \<Longrightarrow> keeps I m Q) \<Longrightarrow> (\<And>y. x = Some y \<Longrightarrow> keeps I (f y) Q) \<Longrightarrow>
   keeps I (case x of None \<Rightarrow> m | Some y \<Rightarrow> f y) Q"
  by (cases x) auto

lemma keeps_case_sum [keeps_rules]:
  "(\<And>y. x = Inl y \<Longrightarrow> keeps I (f y) Q) \<Longrightarrow> (\<And>y. x = Inr y \<Longrightarrow> keeps I (g y) Q) \<Longrightarrow>
   keeps I (case x of Inl y \<Rightarrow> f y | Inr y \<Rightarrow> g y) Q"
  by (cases x) auto

lemma keeps_case_prod [keeps_rules]:
  "(\<And>a b. x = (a, b) \<Longrightarrow> keeps I (f a b) Q) \<Longrightarrow> keeps I (case x of (a, b) \<Rightarrow> f a b) Q"
  by (cases x) auto

lemma keeps_case_list [keeps_rules]:
  "(x = [] \<Longrightarrow> keeps I m Q) \<Longrightarrow> (\<And>y ys. x = y # ys \<Longrightarrow> keeps I (f y ys) Q) \<Longrightarrow>
   keeps I (case x of [] \<Rightarrow> m | y # ys \<Rightarrow> f y ys) Q"
  by (cases x) auto

subsection \<open>Programs with related start and end states\<close>

text \<open>
  \<open>steps R m\<close>: every run of \<open>m\<close> goes from a state to an \<open>R\<close>-related one. For a reflexive and
  transitive \<open>R\<close> it is closed under sequencing, so frame properties of a handler (what it
  never writes, what only grows) follow from those of its primitive operations.
\<close>

definition steps :: "('s \<Rightarrow> 's \<Rightarrow> bool) \<Rightarrow> ('s, 'a) state \<Rightarrow> bool" where
  "steps R m \<longleftrightarrow> (\<forall>s. R s (snd (run_state m s)))"

definition frame_rel :: "('s \<Rightarrow> 's \<Rightarrow> bool) \<Rightarrow> bool" where
  "frame_rel R \<longleftrightarrow> (\<forall>s. R s s) \<and> (\<forall>s t u. R s t \<longrightarrow> R t u \<longrightarrow> R s u)"

lemma stepsD: "steps R m \<Longrightarrow> run_state m s = (a, s') \<Longrightarrow> R s s'"
  by (metis snd_conv steps_def)

lemma stepsI: "(\<And>s a s'. run_state m s = (a, s') \<Longrightarrow> R s s') \<Longrightarrow> steps R m"
  by (metis prod.collapse steps_def)

lemma frame_rel_eq [intro]: "frame_rel (\<lambda>s s'. f s' = f s)"
  by (simp add: frame_rel_def)

lemma steps_return: "frame_rel R \<Longrightarrow> steps R (ret x)"
  by (simp add: steps_def frame_rel_def)

lemma steps_bind:
  "frame_rel R \<Longrightarrow> steps R m \<Longrightarrow> (\<And>a. steps R (f a)) \<Longrightarrow> steps R (State_Monad.bind m f)"
  by (simp add: steps_def frame_rel_def split: prod.splits) (metis snd_conv)

lemma steps_if [steps_rules]: "steps R m \<Longrightarrow> steps R n \<Longrightarrow> steps R (if b then m else n)"
  by simp

lemma steps_let [steps_rules]: "steps R (f x) \<Longrightarrow> steps R (Let x f)"
  by simp

lemma steps_case_option [steps_rules]:
  "steps R m \<Longrightarrow> (\<And>y. steps R (f y)) \<Longrightarrow> steps R (case x of None \<Rightarrow> m | Some y \<Rightarrow> f y)"
  by (cases x) auto

lemma steps_case_sum [steps_rules]:
  "(\<And>y. steps R (f y)) \<Longrightarrow> (\<And>y. steps R (g y)) \<Longrightarrow>
   steps R (case x of Inl y \<Rightarrow> f y | Inr y \<Rightarrow> g y)"
  by (cases x) auto

lemma steps_case_prod [steps_rules]:
  "(\<And>a b. steps R (f a b)) \<Longrightarrow> steps R (case x of (a, b) \<Rightarrow> f a b)"
  by (cases x) auto

section \<open>Ordered association lists\<close>

text \<open>
  The ordered tree that holds the storage is modelled by its contents in key order: a list
  of pairs with strictly increasing keys. Insertion replaces or inserts in place.
\<close>

fun olist_insert :: "'k::linorder \<Rightarrow> 'v \<Rightarrow> ('k \<times> 'v) list \<Rightarrow> ('k \<times> 'v) list" where
  "olist_insert k v [] = [(k, v)]"
| "olist_insert k v ((k', v') # xs) =
     (if k < k' then (k, v) # (k', v') # xs
      else if k = k' then (k, v) # xs
      else (k', v') # olist_insert k v xs)"

definition olist_delete :: "'k \<Rightarrow> ('k \<times> 'v) list \<Rightarrow> ('k \<times> 'v) list" where
  "olist_delete k xs = filter (\<lambda>(k', _). k' \<noteq> k) xs"

definition olist_ok :: "('k::linorder \<times> 'v) list \<Rightarrow> bool" where
  "olist_ok xs \<longleftrightarrow> sorted_wrt (<) (map fst xs)"

lemma olist_ok_simps [simp]:
  "olist_ok []"
  "olist_ok (p # xs) \<longleftrightarrow> (\<forall>q \<in> set xs. fst p < fst q) \<and> olist_ok xs"
  by (auto simp: olist_ok_def)

lemma olist_ok_distinct: "olist_ok xs \<Longrightarrow> distinct (map fst xs)"
  by (induction xs) (auto simp: image_iff)

lemma fst_set_olist_insert: "fst ` set (olist_insert k v xs) = insert k (fst ` set xs)"
  by (induction k v xs rule: olist_insert.induct) auto

lemma olist_ok_insert [simp]: "olist_ok xs \<Longrightarrow> olist_ok (olist_insert k v xs)"
proof (induction k v xs rule: olist_insert.induct)
  case (2 k v k' v' xs)
  have "\<forall>q \<in> set (olist_insert k v xs). k' < fst q" if "k' < k"
  proof
    fix q assume "q \<in> set (olist_insert k v xs)"
    then have "fst q \<in> insert k (fst ` set xs)" by (metis fst_set_olist_insert imageI)
    with "2.prems" that show "k' < fst q" by auto
  qed
  with 2 show ?case by (auto intro: less_trans)
qed simp

lemma olist_ok_delete [simp]: "olist_ok xs \<Longrightarrow> olist_ok (olist_delete k xs)"
  by (induction xs) (auto simp: olist_delete_def)

lemma map_of_olist_insert [simp]:
  "olist_ok xs \<Longrightarrow> map_of (olist_insert k v xs) = (map_of xs)(k \<mapsto> v)"
proof (induction k v xs rule: olist_insert.induct)
  case (2 k v k' v' xs)
  have "map_of xs k = None" if "k < k'"
    using "2.prems" that by (force simp: map_of_eq_None_iff)
  with 2 show ?case by (auto simp: fun_eq_iff)
qed simp

lemma map_of_olist_delete [simp]:
  "map_of (olist_delete k xs) = (map_of xs)(k := None)"
  by (induction xs) (auto simp: olist_delete_def fun_eq_iff)

lemma set_olist_iff: "olist_ok xs \<Longrightarrow> (k, v) \<in> set xs \<longleftrightarrow> map_of xs k = Some v"
  by (meson map_of_SomeD map_of_is_SomeI olist_ok_distinct)

section \<open>Lists and maps\<close>

lemma find_eq_None_iff: "find P xs = None \<longleftrightarrow> (\<forall>x \<in> set xs. \<not> P x)"
  by (induction xs) auto

lemma find_SomeD: "find P xs = Some x \<Longrightarrow> P x \<and> x \<in> set xs"
  by (induction xs) (auto split: if_splits)

lemma map_of_filter_keys:
  "map_of (filter (\<lambda>(k, _). P k) xs) k = (if P k then map_of xs k else None)"
  by (induction xs) auto

end
