(* ===== verification/GoLib.thy ===== *)
theory GoLib
  imports Prelude
begin

text \<open>
  The parts of the Go standard library that the modelled code calls: byte strings
  (\<open>strings\<close>), UTF-8 (\<open>unicode/utf8\<close>, ranging over a string), header canonicalisation
  (\<open>net/textproto\<close>), the scheme of a URL (\<open>net/url\<close>), 64-bit durations and the formatting of
  times (\<open>time\<close>). A Go string is a list of bytes, so \<open>length\<close> is Go's \<open>len\<close>; a time is
  the number of nanoseconds since the first of January of year 1 in UTC, so Go's zero time
  is \<open>0\<close>; a duration is a number of nanoseconds.
\<close>

section \<open>Byte strings\<close>

definition has_prefix :: "string \<Rightarrow> string \<Rightarrow> bool" where
  "has_prefix s p \<longleftrightarrow> take (length p) s = p"

definition has_suffix :: "string \<Rightarrow> string \<Rightarrow> bool" where
  "has_suffix s p \<longleftrightarrow> length p \<le> length s \<and> drop (length s - length p) s = p"

definition trim_prefix :: "string \<Rightarrow> string \<Rightarrow> string" where
  "trim_prefix s p = (if has_prefix s p then drop (length p) s else s)"

definition trim_suffix :: "string \<Rightarrow> string \<Rightarrow> string" where
  "trim_suffix s p = (if has_suffix s p then take (length s - length p) s else s)"

fun contains_sub :: "string \<Rightarrow> string \<Rightarrow> bool" where
  "contains_sub [] p \<longleftrightarrow> p = []"
| "contains_sub (c # s) p \<longleftrightarrow> has_prefix (c # s) p \<or> contains_sub s p"

fun index_byte :: "string \<Rightarrow> char \<Rightarrow> nat option" where
  "index_byte [] c = None"
| "index_byte (x # s) c = (if x = c then Some 0 else map_option Suc (index_byte s c))"

fun split_on :: "char \<Rightarrow> string \<Rightarrow> string list" where
  "split_on c [] = [[]]"
| "split_on c (x # s) =
     (case split_on c s of
        [] \<Rightarrow> [[x]]
      | w # ws \<Rightarrow> if x = c then [] # w # ws else (x # w) # ws)"

fun join_with :: "string \<Rightarrow> string list \<Rightarrow> string" where
  "join_with sep [] = []"
| "join_with sep [w] = w"
| "join_with sep (w # ws) = w @ sep @ join_with sep ws"

definition ascii_lower :: "char \<Rightarrow> char" where
  "ascii_lower c = (let n = of_char c :: nat in if 65 \<le> n \<and> n \<le> 90 then char_of (n + 32) else c)"

definition ascii_upper :: "char \<Rightarrow> char" where
  "ascii_upper c = (let n = of_char c :: nat in if 97 \<le> n \<and> n \<le> 122 then char_of (n - 32) else c)"

lemma has_prefix_iff: "has_prefix s p \<longleftrightarrow> (\<exists>t. s = p @ t)"
  unfolding has_prefix_def by (metis append_eq_conv_conj append_take_drop_id)

lemma has_prefix_append [simp]: "has_prefix (p @ s) p"
  by (simp add: has_prefix_def)

lemma has_suffix_iff: "has_suffix s p \<longleftrightarrow> (\<exists>t. s = t @ p)"
  unfolding has_suffix_def
  by (metis append_eq_conv_conj append_take_drop_id diff_add_inverse2 le_add2 length_append)

lemma trim_prefix_append [simp]: "trim_prefix (p @ s) p = s"
  by (simp add: trim_prefix_def)

lemma trim_suffix_append [simp]: "trim_suffix (s @ p) p = s"
  by (auto simp: trim_suffix_def has_suffix_iff)

lemma contains_sub_iff: "contains_sub s p \<longleftrightarrow> (\<exists>u v. s = u @ p @ v)"
proof (induction s)
  case (Cons c s)
  show ?case
  proof
    assume "contains_sub (c # s) p"
    then consider "has_prefix (c # s) p" | "contains_sub s p" by auto
    then show "\<exists>u v. c # s = u @ p @ v"
    proof cases
      case 1
      then show ?thesis by (metis append_Nil has_prefix_iff)
    next
      case 2
      then show ?thesis using Cons.IH by (metis append_Cons)
    qed
  next
    assume "\<exists>u v. c # s = u @ p @ v"
    then obtain u v where uv: "c # s = u @ p @ v" by blast
    then have "has_prefix (c # s) p \<or> (\<exists>u v. s = u @ p @ v)"
      by (cases u) (auto simp: has_prefix_iff)
    then show "contains_sub (c # s) p" using Cons.IH by auto
  qed
qed auto

lemma split_on_nonempty [simp]: "split_on c s \<noteq> []"
  by (induction s) (auto split: list.splits)

lemma join_split_on: "join_with [c] (split_on c s) = s"
proof (induction s)
  case (Cons x s)
  then show ?case
    by (cases "split_on c s"; cases "tl (split_on c s)") (auto split: list.splits)
qed simp

section \<open>UTF-8\<close>

text \<open>
  Decoding follows the accept ranges of \<open>utf8.DecodeRune\<close>: an invalid byte yields the
  replacement rune U+FFFD and consumes one byte.
\<close>

definition rune_error :: nat where
  "rune_error = 0xFFFD"

definition utf8_cont :: "nat \<Rightarrow> bool" where
  "utf8_cont b \<longleftrightarrow> 0x80 \<le> b \<and> b \<le> 0xBF"

definition utf8_second :: "nat \<Rightarrow> nat \<Rightarrow> bool" where
  "utf8_second b c \<longleftrightarrow>
     (if b = 0xE0 then 0xA0 \<le> c \<and> c \<le> 0xBF
      else if b = 0xED then 0x80 \<le> c \<and> c \<le> 0x9F
      else if b = 0xF0 then 0x90 \<le> c \<and> c \<le> 0xBF
      else if b = 0xF4 then 0x80 \<le> c \<and> c \<le> 0x8F
      else utf8_cont c)"

definition utf8_multi :: "nat \<Rightarrow> nat list \<Rightarrow> (nat \<times> nat) option" where
  "utf8_multi b bs =
     (case bs of
        [] \<Rightarrow> None
      | c1 # t1 \<Rightarrow>
          if 0xC2 \<le> b \<and> b \<le> 0xDF then
            (if utf8_cont c1 then Some ((b - 0xC0) * 64 + (c1 - 0x80), 1) else None)
          else (case t1 of
             [] \<Rightarrow> None
           | c2 # t2 \<Rightarrow>
               if 0xE0 \<le> b \<and> b \<le> 0xEF then
                 (if utf8_second b c1 \<and> utf8_cont c2
                  then Some ((b - 0xE0) * 4096 + (c1 - 0x80) * 64 + (c2 - 0x80), 2) else None)
               else (case t2 of
                  [] \<Rightarrow> None
                | c3 # _ \<Rightarrow>
                    if 0xF0 \<le> b \<and> b \<le> 0xF4 \<and> utf8_second b c1 \<and> utf8_cont c2 \<and> utf8_cont c3
                    then Some ((b - 0xF0) * 262144 + (c1 - 0x80) * 4096 + (c2 - 0x80) * 64
                               + (c3 - 0x80), 3)
                    else None)))"

fun utf8_decode :: "nat list \<Rightarrow> nat list" where
  "utf8_decode [] = []"
| "utf8_decode (b # bs) =
     (if b < 0x80 then b # utf8_decode bs
      else (case utf8_multi b bs of
              None \<Rightarrow> rune_error # utf8_decode bs
            | Some (r, n) \<Rightarrow> r # utf8_decode (drop n bs)))"

definition valid_rune :: "nat \<Rightarrow> bool" where
  "valid_rune r \<longleftrightarrow> r \<le> 0x10FFFF \<and> \<not> (0xD800 \<le> r \<and> r \<le> 0xDFFF)"

definition utf8_encode_rune :: "nat \<Rightarrow> nat list" where
  "utf8_encode_rune r0 =
     (let r = (if valid_rune r0 then r0 else rune_error) in
      if r < 0x80 then [r]
      else if r < 0x800 then [0xC0 + r div 64, 0x80 + r mod 64]
      else if r < 0x10000 then
        [0xE0 + r div 4096, 0x80 + r div 64 mod 64, 0x80 + r mod 64]
      else
        [0xF0 + r div 262144, 0x80 + r div 4096 mod 64, 0x80 + r div 64 mod 64, 0x80 + r mod 64])"

definition runes :: "string \<Rightarrow> nat list" where
  "runes s = utf8_decode (map of_char s)"

definition string_of_runes :: "nat list \<Rightarrow> string" where
  "string_of_runes rs = map char_of (concat (map utf8_encode_rune rs))"

definition to_valid_utf8 :: "string \<Rightarrow> string" where
  "to_valid_utf8 s = string_of_runes (runes s)"

text \<open>Encoding a rune and decoding the bytes gives the rune back.\<close>

lemma utf8_multi_2:
  "2 \<le> q \<Longrightarrow> q \<le> 31 \<Longrightarrow> m < 64 \<Longrightarrow>
   utf8_multi (0xC0 + q) ((0x80 + m) # bs) = Some (q * 64 + m, 1)"
  by (simp add: utf8_multi_def utf8_cont_def)

lemma utf8_multi_3:
  "q \<le> 15 \<Longrightarrow> m < 64 \<Longrightarrow> l < 64 \<Longrightarrow> (q = 0 \<longrightarrow> 32 \<le> m) \<Longrightarrow> (q = 13 \<longrightarrow> m < 32) \<Longrightarrow>
   utf8_multi (0xE0 + q) ((0x80 + m) # (0x80 + l) # bs) = Some (q * 4096 + m * 64 + l, 2)"
  by (auto simp: utf8_multi_def utf8_cont_def utf8_second_def)

lemma utf8_multi_4:
  "q \<le> 4 \<Longrightarrow> m < 64 \<Longrightarrow> l < 64 \<Longrightarrow> k < 64 \<Longrightarrow> (q = 0 \<longrightarrow> 16 \<le> m) \<Longrightarrow> (q = 4 \<longrightarrow> m < 16) \<Longrightarrow>
   utf8_multi (0xF0 + q) ((0x80 + m) # (0x80 + l) # (0x80 + k) # bs)
     = Some (q * 262144 + m * 4096 + l * 64 + k, 3)"
  by (auto simp: utf8_multi_def utf8_cont_def utf8_second_def)

lemma digits64:
  fixes r :: nat
  shows "r div 4096 * 4096 + r div 64 mod 64 * 64 + r mod 64 = r"
    and "r div 262144 * 262144 + r div 4096 mod 64 * 4096 + r div 64 mod 64 * 64 + r mod 64 = r"
proof -
  have d: "r div 4096 = r div 64 div 64" "r div 262144 = r div 4096 div 64"
    by (simp_all add: div_mult2_eq [symmetric])
  have a: "r div 64 div 64 * 64 + r div 64 mod 64 = r div 64" by (rule div_mult_mod_eq)
  have b: "r div 64 * 64 + r mod 64 = r" by (rule div_mult_mod_eq)
  have c: "r div 4096 div 64 * 64 + r div 4096 mod 64 = r div 4096" by (rule div_mult_mod_eq)
  show "r div 4096 * 4096 + r div 64 mod 64 * 64 + r mod 64 = r"
    using a b unfolding d by linarith
  then show "r div 262144 * 262144 + r div 4096 mod 64 * 4096 + r div 64 mod 64 * 64 + r mod 64 = r"
    using c unfolding d(2) by linarith
qed

lemma utf8_decode_encode_rune:
  assumes "valid_rune r"
  shows "utf8_decode (utf8_encode_rune r @ bs) = r # utf8_decode bs"
proof -
  consider "r < 0x80" | "0x80 \<le> r" "r < 0x800" | "0x800 \<le> r" "r < 0x10000"
    | "0x10000 \<le> r" "r \<le> 0x10FFFF"
    using assms by (fastforce simp: valid_rune_def)
  then show ?thesis
  proof cases
    case 1
    with assms show ?thesis by (simp add: utf8_encode_rune_def)
  next
    case 2
    then have "utf8_multi (0xC0 + r div 64) ((0x80 + r mod 64) # bs)
        = Some (r div 64 * 64 + r mod 64, 1)"
      by (intro utf8_multi_2) auto
    with assms 2 show ?thesis by (simp add: utf8_encode_rune_def)
  next
    case 3
    have "r div 4096 = 0 \<longrightarrow> 32 \<le> r div 64 mod 64" "r div 4096 = 13 \<longrightarrow> r div 64 mod 64 < 32"
      using 3 assms digits64(1) [of r] unfolding valid_rune_def by auto
    moreover have "r div 4096 \<le> 15" using 3 by auto
    ultimately have "utf8_multi (0xE0 + r div 4096) ((0x80 + r div 64 mod 64) # (0x80 + r mod 64) # bs)
        = Some (r div 4096 * 4096 + r div 64 mod 64 * 64 + r mod 64, 2)"
      by (intro utf8_multi_3) auto
    with assms 3 show ?thesis by (simp add: utf8_encode_rune_def digits64)
  next
    case 4
    have "r div 262144 = 0 \<longrightarrow> 16 \<le> r div 4096 mod 64" "r div 262144 = 4 \<longrightarrow> r div 4096 mod 64 < 16"
      using 4 assms digits64(2) [of r] unfolding valid_rune_def by auto
    moreover have "r div 262144 \<le> 4" using 4 by auto
    ultimately have "utf8_multi (0xF0 + r div 262144)
          ((0x80 + r div 4096 mod 64) # (0x80 + r div 64 mod 64) # (0x80 + r mod 64) # bs)
        = Some (r div 262144 * 262144 + r div 4096 mod 64 * 4096 + r div 64 mod 64 * 64 + r mod 64, 3)"
      by (intro utf8_multi_4) auto
    with assms 4 show ?thesis by (simp add: utf8_encode_rune_def digits64)
  qed
qed

lemma utf8_multi_valid: "utf8_multi b bs = Some (x, n) \<Longrightarrow> valid_rune x"
  by (auto simp: utf8_multi_def utf8_second_def utf8_cont_def valid_rune_def
      split: list.splits if_splits)

lemma utf8_decode_valid: "r \<in> set (utf8_decode bs) \<Longrightarrow> valid_rune r"
proof (induction bs rule: utf8_decode.induct)
  case (2 b bs)
  show ?case
  proof (cases "b < 0x80")
    case True
    with 2 show ?thesis by (auto simp: valid_rune_def)
  next
    case False
    show ?thesis
    proof (cases "utf8_multi b bs")
      case None
      with 2 False show ?thesis by (auto simp: rune_error_def valid_rune_def)
    next
      case (Some p)
      with 2 False show ?thesis by (cases p) (auto dest: utf8_multi_valid)
    qed
  qed
qed simp

lemma utf8_encode_rune_bytes: "b \<in> set (utf8_encode_rune r) \<Longrightarrow> b < 256"
  by (auto simp: utf8_encode_rune_def Let_def valid_rune_def rune_error_def split: if_splits)

lemma utf8_decode_encode:
  "\<forall>r \<in> set rs. valid_rune r \<Longrightarrow> utf8_decode (concat (map utf8_encode_rune rs)) = rs"
  by (induction rs) (auto simp: utf8_decode_encode_rune)

lemma runes_string_of_runes:
  assumes "\<forall>r \<in> set rs. valid_rune r"
  shows "runes (string_of_runes rs) = rs"
proof -
  have "map (of_char \<circ> char_of) bs = bs" if "\<forall>b \<in> set bs. b < 256" for bs :: "nat list"
    using that by (induction bs) auto
  then show ?thesis
    using assms utf8_decode_encode utf8_encode_rune_bytes
    by (auto simp: runes_def string_of_runes_def)
qed

lemma to_valid_utf8_idem [simp]: "to_valid_utf8 (to_valid_utf8 s) = to_valid_utf8 s"
  unfolding to_valid_utf8_def
  by (subst runes_string_of_runes) (auto simp: runes_def intro: utf8_decode_valid)

subsection \<open>ASCII in UTF-8\<close>

lemma utf8_decode_ascii: "\<forall>b \<in> set bs. b < 128 \<Longrightarrow> utf8_decode bs = bs"
  by (induction bs) simp_all

lemma utf8_encode_ascii: "r < 128 \<Longrightarrow> utf8_encode_rune r = [r]"
  by (simp add: utf8_encode_rune_def valid_rune_def)

lemma utf8_encodes_ascii: "\<forall>r \<in> set rs. r < 128 \<Longrightarrow> concat (map utf8_encode_rune rs) = rs"
  by (induction rs) (simp_all add: utf8_encode_ascii)

lemma utf8_encode_rune_low: "b \<in> set (utf8_encode_rune r) \<Longrightarrow> b < 128 \<Longrightarrow> b = r"
  by (auto simp: utf8_encode_rune_def Let_def valid_rune_def rune_error_def split: if_splits)

lemma utf8_encode_rune_high: "\<not> r < 128 \<Longrightarrow> \<exists>b \<in> set (utf8_encode_rune r). \<not> b < 128"
  by (rule bexI [of _ "hd (utf8_encode_rune r)"])
     (simp_all add: utf8_encode_rune_def Let_def valid_rune_def rune_error_def)

lemma utf8_encode_rune_nonempty [simp]: "utf8_encode_rune r \<noteq> []"
  by (simp add: utf8_encode_rune_def Let_def)

lemma utf8_multi_high: "utf8_multi b bs = Some (x, n) \<Longrightarrow> 128 \<le> x"
  by (auto simp: utf8_multi_def utf8_second_def utf8_cont_def split: list.splits if_splits)

lemma utf8_decode_low: "r \<in> set (utf8_decode bs) \<Longrightarrow> r < 128 \<Longrightarrow> r \<in> set bs"
proof (induction bs rule: utf8_decode.induct)
  case (2 b bs)
  show ?case
  proof (cases "b < 128")
    case False
    show ?thesis
    proof (cases "utf8_multi b bs")
      case None
      with 2 False show ?thesis by (auto simp: rune_error_def)
    next
      case (Some xn)
      obtain x n where xn: "xn = (x, n)" by fastforce
      have "r \<noteq> x" using utf8_multi_high [of b bs x n] Some xn "2.prems"(2) by auto
      with 2 False Some xn have "r \<in> set (drop n bs)" by auto
      then show ?thesis using in_set_dropD by fastforce
    qed
  qed (use 2 in auto)
qed simp

lemma utf8_decode_all_low: "\<forall>r \<in> set (utf8_decode bs). r < 128 \<Longrightarrow> utf8_decode bs = bs"
proof (induction bs rule: utf8_decode.induct)
  case (2 b bs)
  show ?case
  proof (cases "b < 128")
    case False
    have "\<not> hd (utf8_decode (b # bs)) < 128"
    proof (cases "utf8_multi b bs")
      case (Some xn)
      then show ?thesis using False utf8_multi_high [of b bs "fst xn" "snd xn"]
        by (simp add: split_beta)
    qed (use False in \<open>simp add: rune_error_def\<close>)
    moreover have "utf8_decode (b # bs) \<noteq> []" by (simp split: option.splits)
    ultimately show ?thesis using "2.prems" hd_in_set by blast
  next
    case True
    with "2.prems" have "\<forall>r \<in> set (utf8_decode bs). r < 128" by simp
    then have "utf8_decode bs = bs" using "2.IH"(1) True by simp
    with True show ?thesis by simp
  qed
qed simp

lemma char_of_of_chars [simp]: "map char_of (map of_char s :: nat list) = s"
  by (induction s) auto

lemma utf8_valid_bytes:
  "map of_char (to_valid_utf8 s) = concat (map utf8_encode_rune (utf8_decode (map of_char s)))"
proof -
  have "map (\<lambda>b. of_char (char_of b :: char)) bs = bs" if "\<forall>b \<in> set bs. b < 256" for bs :: "nat list"
    using that by (induction bs) (auto simp: of_char_of)
  then show ?thesis
    using utf8_encode_rune_bytes
    by (simp add: to_valid_utf8_def string_of_runes_def runes_def comp_def)
qed

lemma ascii_valid_utf8:
  assumes "\<forall>ch \<in> set s. of_char ch < (128::nat)"
  shows "to_valid_utf8 s = s"
proof -
  have a: "\<forall>b \<in> set (map of_char s :: nat list). b < 128" using assms by auto
  show ?thesis
    by (simp only: to_valid_utf8_def runes_def string_of_runes_def utf8_decode_ascii [OF a]
        utf8_encodes_ascii [OF a] char_of_of_chars)
qed

lemma to_valid_utf8_Nil [simp]: "to_valid_utf8 s = [] \<longleftrightarrow> s = []"
  by (cases s) (auto simp: to_valid_utf8_def runes_def string_of_runes_def split: option.splits)

text \<open>The replacement of invalid bytes neither adds nor moves ASCII characters.\<close>

lemma to_valid_utf8_low:
  assumes "ch \<in> set (to_valid_utf8 s)" "of_char ch < (128::nat)"
  shows "ch \<in> set s"
proof -
  have "(of_char ch :: nat) \<in> set (map of_char (to_valid_utf8 s))" using assms(1) by simp
  then have "(of_char ch :: nat) \<in> set (utf8_decode (map of_char s))"
    unfolding utf8_valid_bytes using utf8_encode_rune_low assms(2) by fastforce
  then have "(of_char ch :: nat) \<in> set (map of_char s)" using utf8_decode_low assms(2) by blast
  then show ?thesis by auto
qed

lemma to_valid_utf8_all_low:
  assumes "\<forall>ch \<in> set (to_valid_utf8 s). of_char ch < (128::nat)"
  shows "to_valid_utf8 s = s"
proof -
  have "\<forall>b \<in> set (map of_char (to_valid_utf8 s)). b < (128::nat)" using assms by auto
  then have low: "\<forall>r \<in> set (utf8_decode (map of_char s)). r < 128"
    unfolding utf8_valid_bytes using utf8_encode_rune_high by fastforce
  from utf8_decode_all_low [OF low] low show ?thesis
    by (simp only: to_valid_utf8_def runes_def string_of_runes_def utf8_encodes_ascii char_of_of_chars)
qed

lemma to_valid_utf8_prefix:
  "\<forall>ch \<in> set p. of_char ch < (128::nat) \<Longrightarrow> to_valid_utf8 (p @ s) = p @ to_valid_utf8 s"
  by (induction p) (simp_all add: to_valid_utf8_def runes_def string_of_runes_def utf8_encode_ascii)

section \<open>White space and case folding\<close>

definition is_space_rune :: "nat \<Rightarrow> bool" where
  "is_space_rune r \<longleftrightarrow>
     r \<in> set [0x09, 0x0A, 0x0B, 0x0C, 0x0D, 0x20, 0x85, 0xA0, 0x1680, 0x2028, 0x2029, 0x202F,
              0x205F, 0x3000]
     \<or> 0x2000 \<le> r \<and> r \<le> 0x200A"

definition trim_space :: "nat list \<Rightarrow> nat list" where
  "trim_space rs = rev (dropWhile is_space_rune (rev (dropWhile is_space_rune rs)))"

text \<open>
  \<open>strings.EqualFold\<close> compares runes up to simple case folding. The two runes outside
  ASCII that fold to an ASCII letter are the Kelvin sign (k) and the long s (s); foldings
  between two runes outside ASCII are not modelled, so the comparison is exact whenever one
  of the strings is ASCII, as the entity identifiers it is applied to are.
\<close>

definition fold_rune :: "nat \<Rightarrow> nat" where
  "fold_rune r =
     (if 65 \<le> r \<and> r \<le> 90 then r + 32 else if r = 0x212A then 107 else if r = 0x17F then 115 else r)"

definition equal_fold :: "string \<Rightarrow> string \<Rightarrow> bool" where
  "equal_fold s t \<longleftrightarrow> map fold_rune (runes s) = map fold_rune (runes t)"

lemma equal_fold_refl [simp]: "equal_fold s s"
  by (simp add: equal_fold_def)

lemma set_trim_space: "set (trim_space rs) \<subseteq> set rs"
  unfolding trim_space_def by (auto dest!: set_dropWhileD)

section \<open>Header names\<close>

definition valid_header_byte :: "char \<Rightarrow> bool" where
  "valid_header_byte c \<longleftrightarrow>
     (let n = of_char c :: nat in
      48 \<le> n \<and> n \<le> 57 \<or> 65 \<le> n \<and> n \<le> 90 \<or> 97 \<le> n \<and> n \<le> 122
      \<or> c \<in> set ''!#$%&*+-.^_`|~'' \<or> n = 39)"

fun canon_bytes :: "bool \<Rightarrow> string \<Rightarrow> string" where
  "canon_bytes up [] = []"
| "canon_bytes up (c # s) =
     (let c' = (if up then ascii_upper c else ascii_lower c) in c' # canon_bytes (c' = CHR ''-'') s)"

definition CanonicalHeaderKey :: "string \<Rightarrow> string" where
  "CanonicalHeaderKey s = (if list_all valid_header_byte s then canon_bytes True s else s)"

section \<open>URL schemes\<close>

text \<open>
  \<open>url.Parse\<close> as far as its callers look: the fragment is cut off, a control byte is an
  error, the scheme is the text before the first colon when it starts with a letter and
  holds only scheme characters, in lower case. Whether the remainder (authority, path,
  fragment escapes) is well formed is the argument \<open>rest_ok\<close>. The result is \<open>None\<close> for a
  parse error, else the scheme (empty when there is none).
\<close>

definition is_letter :: "char \<Rightarrow> bool" where
  "is_letter c \<longleftrightarrow> (let n = of_char c :: nat in 65 \<le> n \<and> n \<le> 90 \<or> 97 \<le> n \<and> n \<le> 122)"

definition is_scheme_tail :: "char \<Rightarrow> bool" where
  "is_scheme_tail c \<longleftrightarrow>
     (let n = of_char c :: nat in 48 \<le> n \<and> n \<le> 57 \<or> c \<in> set ''+-.'')"

fun get_scheme :: "string \<Rightarrow> string \<Rightarrow> (string \<times> string) option" where
  "get_scheme acc [] = Some ([], acc)"
| "get_scheme acc (c # s) =
     (if is_letter c then get_scheme (acc @ [c]) s
      else if is_scheme_tail c then
        (if acc = [] then Some ([], acc @ c # s) else get_scheme (acc @ [c]) s)
      else if c = CHR '':'' then (if acc = [] then None else Some (acc, s))
      else Some ([], acc @ c # s))"

definition url_scheme :: "(string \<Rightarrow> bool) \<Rightarrow> string \<Rightarrow> string option" where
  "url_scheme rest_ok raw =
     (let u = takeWhile (\<lambda>c. c \<noteq> CHR ''#'') raw in
      if list_ex (\<lambda>c. let n = of_char c :: nat in n < 0x20 \<or> n = 0x7F) u then None
      else if u = ''*'' then Some []
      else (case get_scheme [] u of
              None \<Rightarrow> None
            | Some (scheme, rest) \<Rightarrow>
                if rest_ok raw then Some (map ascii_lower scheme) else None))"

lemma get_scheme_Some:
  "get_scheme acc s = Some (sch, rest) \<Longrightarrow> sch \<noteq> [] \<Longrightarrow> acc @ s = sch @ '':'' @ rest"
  by (induction acc s rule: get_scheme.induct) (auto split: if_splits)

lemma url_scheme_https:
  assumes "url_scheme ok raw = Some ''https''"
  obtains sch rest where "raw = sch @ '':'' @ rest" "map ascii_lower sch = ''https''"
proof -
  let ?u = "takeWhile (\<lambda>c. c \<noteq> CHR ''#'') raw"
  from assms obtain sch rest where g: "get_scheme [] ?u = Some (sch, rest)"
    and l: "map ascii_lower sch = ''https''"
    by (auto simp: url_scheme_def Let_def split: if_splits option.splits)
  from l have "sch \<noteq> []" by auto
  with g have "?u = sch @ '':'' @ rest" using get_scheme_Some by fastforce
  then have "raw = sch @ '':'' @ rest @ dropWhile (\<lambda>c. c \<noteq> CHR ''#'') raw"
    by (metis append.assoc takeWhile_dropWhile_id)
  with l show ?thesis using that by metis
qed

section \<open>Durations and times\<close>

type_synonym duration = int
type_synonym time = int

definition nanosecond :: duration where "nanosecond = 1"
definition second :: duration where "second = 1000000000"
definition minute :: duration where "minute = 60 * second"
definition hour :: duration where "hour = 60 * minute"

lemmas duration_defs = nanosecond_def second_def minute_def hour_def

text \<open>\<open>Time.Sub\<close> saturates at the ends of the 64-bit range.\<close>

definition time_sub :: "time \<Rightarrow> time \<Rightarrow> duration" where
  "time_sub t u = max (- (2 ^ 63)) (min (2 ^ 63 - 1) (t - u))"

definition is_zero :: "time \<Rightarrow> bool" where
  "is_zero t \<longleftrightarrow> t = 0"

lemma time_sub_less: "0 < d \<Longrightarrow> d < 2 ^ 62 \<Longrightarrow> time_sub t u < d \<longleftrightarrow> t - u < d"
  by (auto simp: time_sub_def min_def max_def)

lemma time_sub_greater: "0 < d \<Longrightarrow> d < 2 ^ 62 \<Longrightarrow> d < time_sub t u \<longleftrightarrow> d < t - u"
  by (auto simp: time_sub_def min_def max_def)

text \<open>Go's integer conversion of \<open>Duration.Minutes\<close> truncates towards zero.\<close>

definition whole_units :: "duration \<Rightarrow> duration \<Rightarrow> int" where
  "whole_units unit d = sgn d * (\<bar>d\<bar> div unit)"

fun show_nat :: "nat \<Rightarrow> string" where
  "show_nat n = (if n < 10 then [char_of (48 + n)] else show_nat (n div 10) @ [char_of (48 + n mod 10)])"

declare show_nat.simps [simp del]

definition show_int :: "int \<Rightarrow> string" where
  "show_int i = (if i < 0 then ''-'' @ show_nat (nat (- i)) else show_nat (nat i))"

definition pad_zero :: "nat \<Rightarrow> string \<Rightarrow> string" where
  "pad_zero n s = replicate (n - length s) (CHR ''0'') @ s"

text \<open>The proleptic Gregorian date of a day number (0 is the first of January of year 1).\<close>

definition civil_date :: "int \<Rightarrow> int \<times> int \<times> int" where
  "civil_date days =
     (let z = days + 306;
          era = z div 146097;
          doe = z mod 146097;
          yoe = (doe - doe div 1460 + doe div 36524 - doe div 146096) div 365;
          doy = doe - (365 * yoe + yoe div 4 - yoe div 100);
          mp = (5 * doy + 2) div 153;
          d = doy - (153 * mp + 2) div 5 + 1;
          m = (if mp < 10 then mp + 3 else mp - 9);
          y = yoe + era * 400
      in ((if m \<le> 2 then y + 1 else y), m, d))"

definition date_clock :: "time \<Rightarrow> string \<times> string" where
  "date_clock t =
     (let secs = t div second; (y, m, d) = civil_date (secs div 86400); s = secs mod 86400;
          two = (\<lambda>n. pad_zero 2 (show_int n))
      in (pad_zero 4 (show_int y) @ ''-'' @ two m @ ''-'' @ two d,
          two (s div 3600) @ '':'' @ two (s mod 3600 div 60) @ '':'' @ two (s mod 60)))"

definition format_utc :: "time \<Rightarrow> string" where
  "format_utc t = (case date_clock t of (d, c) \<Rightarrow> d @ '' '' @ c @ '' UTC'')"

definition rfc3339nano :: "time \<Rightarrow> string" where
  "rfc3339nano t =
     (case date_clock t of (d, c) \<Rightarrow>
        let frac = rev (dropWhile (\<lambda>x. x = CHR ''0'') (rev (pad_zero 9 (show_int (t mod second)))))
        in d @ ''T'' @ c @ (if frac = [] then [] else ''.'' @ frac) @ ''Z'')"

end
