(* ===== verification/Logical.thy ===== *)
theory Logical
  imports GoLib
begin

text \<open>
  Types and helpers of the package \<open>sdk/logical\<close> that requests, responses and storage are made
  of: operations (\<open>request.go\<close>), requests, responses and their constructors
  (\<open>response.go\<close>, \<open>translate_response.go\<close>), lease options (\<open>lease.go\<close>), the errors of
  \<open>error.go\<close> and of the storage layers, and Go's dynamically typed values
  (\<open>interface{}\<close>) with the effect of encoding them as JSON and decoding them again.
\<close>

section \<open>Errors\<close>

text \<open>
  One constructor per error value of the modelled code. \<open>ErrWrap\<close> is \<open>fmt.Errorf\<close> with a
  \<open>%w\<close> verb, \<open>ErrBackend\<close> an error returned by a secrets plugin.
\<close>

datatype err =
    PutDisabledError | GetDisabledError | DeleteDisabledError | ListDisabledError
  | CtxErr | ErrValueTooLarge
  | ErrRelativePath | ErrNilEntry | ErrReadOnly
  | ErrJSON | ErrUUID
  | ErrPermissionDenied | ErrUnsupportedOperation | ErrUnsupportedPath
  | ErrBackend string
  | ErrWrap string err

section \<open>Dynamically typed values\<close>

text \<open>
  \<open>GNum\<close> is a \<open>json.Number\<close>, \<open>GText\<close> a string built by \<open>fmt.Sprintf\<close> from a format and
  its arguments, \<open>GJSON\<close> the JSON text of a value. A Go map is an association list with
  distinct keys.
\<close>

datatype gval =
    GNil
  | GBool bool
  | GInt int
  | GNum string
  | GStr string
  | GTime int
  | GText string "gval list"
  | GJSON gval
  | GList "gval list"
  | GMap "(string \<times> gval) list"

type_synonym gmap = "(string \<times> gval) list"

definition gget :: "gmap \<Rightarrow> string \<Rightarrow> gval" where
  "gget m k = (case map_of m k of None \<Rightarrow> GNil | Some v \<Rightarrow> v)"

definition gset :: "string \<Rightarrow> gval \<Rightarrow> gmap \<Rightarrow> gmap" where
  "gset k v m = AList.update k v m"

lemma map_of_gset [simp]: "map_of (gset k v m) = (map_of m)(k \<mapsto> v)"
  by (simp add: gset_def update_conv')

lemma gget_gset [simp]: "gget (gset k v m) k' = (if k' = k then v else gget m k')"
  by (simp add: gget_def)

text \<open>
  Encoding with \<open>jsonutil.EncodeJSON\<close> and decoding with \<open>jsonutil.DecodeJSON\<close>, which uses
  \<open>json.Number\<close>: integers come back as number literals, times as RFC 3339 strings, and
  bytes that are not UTF-8 are replaced, in keys as in values. The data of a request or response
  comes from JSON or from a backend's literals, so encoding does not fail and keys stay distinct.
\<close>

primrec json_rt :: "gval \<Rightarrow> gval" where
  "json_rt GNil = GNil"
| "json_rt (GBool b) = GBool b"
| "json_rt (GInt n) = GNum (show_int n)"
| "json_rt (GNum s) = GNum s"
| "json_rt (GStr s) = GStr (to_valid_utf8 s)"
| "json_rt (GTime t) = GStr (to_valid_utf8 (rfc3339nano t))"
| "json_rt (GText f as) = GText f as"
| "json_rt (GJSON g) = GJSON g"
| "json_rt (GList gs) = GList (map json_rt gs)"
| "json_rt (GMap m) = GMap (map (map_prod to_valid_utf8 json_rt) m)"

definition json_rt_map :: "gmap \<Rightarrow> gmap" where
  "json_rt_map m = map (map_prod to_valid_utf8 json_rt) m"

lemma json_rt_idem [simp]: "json_rt (json_rt g) = json_rt g"
  by (induction g) (auto simp: prod.map_comp comp_def)

lemma json_rt_map_idem [simp]: "json_rt_map (json_rt_map m) = json_rt_map m"
  by (auto simp: json_rt_map_def)

lemma json_rt_map_Nil_iff [simp]: "json_rt_map m = [] \<longleftrightarrow> m = []"
  by (simp add: json_rt_map_def)

section \<open>Requests\<close>

datatype operation =
    CreateOperation | ReadOperation | UpdateOperation | PatchOperation | DeleteOperation
  | ListOperation | HelpOperation | AliasLookaheadOperation | ResolveRoleOperation
  | HeaderOperation | RecoverOperation
  | RevokeOperation | RenewOperation | RollbackOperation | RotationOperation

fun operation_string :: "operation \<Rightarrow> string" where
  "operation_string CreateOperation = ''create''"
| "operation_string ReadOperation = ''read''"
| "operation_string UpdateOperation = ''update''"
| "operation_string PatchOperation = ''patch''"
| "operation_string DeleteOperation = ''delete''"
| "operation_string ListOperation = ''list''"
| "operation_string HelpOperation = ''help''"
| "operation_string AliasLookaheadOperation = ''alias-lookahead''"
| "operation_string ResolveRoleOperation = ''resolve-role''"
| "operation_string HeaderOperation = ''header''"
| "operation_string RecoverOperation = ''recover''"
| "operation_string RevokeOperation = ''revoke''"
| "operation_string RenewOperation = ''renew''"
| "operation_string RollbackOperation = ''rollback''"
| "operation_string RotationOperation = ''rotate''"

type_synonym headers = "(string \<times> string list) list"

record RequestWrapInfo =
  wi_TTL :: duration
  wi_Format :: string
  wi_SealWrap :: bool

record Request =
  rq_ID :: string
  rq_Operation :: operation
  rq_Path :: string
  rq_Data :: gmap
  rq_Headers :: headers
  rq_ClientToken :: string
  rq_DisplayName :: string
  rq_MountPoint :: string
  rq_WrapInfo :: "RequestWrapInfo option"
  rq_EntityID :: string

section \<open>Responses\<close>

record LeaseOptions =
  lo_TTL :: duration
  lo_MaxTTL :: duration
  lo_Renewable :: bool

record Secret = LeaseOptions +
  se_LeaseID :: string

definition LeaseEnabled :: "'a LeaseOptions_scheme \<Rightarrow> bool" where
  "LeaseEnabled l \<longleftrightarrow> lo_TTL l > 0"

definition LeaseTotal :: "'a LeaseOptions_scheme \<Rightarrow> duration" where
  "LeaseTotal l = (if lo_TTL l \<le> 0 then 0 else lo_TTL l)"

definition ExpirationTime :: "time \<Rightarrow> 'a LeaseOptions_scheme \<Rightarrow> time" where
  "ExpirationTime now l = (if LeaseEnabled l then now + LeaseTotal l else 0)"

record Response =
  rs_Secret :: "Secret option"
  rs_Data :: gmap
  rs_Warnings :: "string list"
  rs_MountType :: string

definition emptyResponse :: Response where
  "emptyResponse = \<lparr>rs_Secret = None, rs_Data = [], rs_Warnings = [], rs_MountType = []\<rparr>"

definition dataResponse :: "gmap \<Rightarrow> Response" where
  "dataResponse d = emptyResponse\<lparr>rs_Data := d\<rparr>"

definition AddWarning :: "string \<Rightarrow> Response \<Rightarrow> Response" where
  "AddWarning w r = r\<lparr>rs_Warnings := rs_Warnings r @ [w]\<rparr>"

definition IsError :: "Response option \<Rightarrow> bool" where
  "IsError ro =
     (case ro of
        None \<Rightarrow> False
      | Some r \<Rightarrow> gget (rs_Data r) ''error'' \<noteq> GNil \<and>
          (length (rs_Data r) = 1
           \<or> gget (rs_Data r) ''data'' \<noteq> GNil \<and> length (rs_Data r) = 2))"

definition ErrorResponse :: "string \<Rightarrow> gval list \<Rightarrow> Response" where
  "ErrorResponse text vargs = dataResponse [(''error'', GText text vargs)]"

definition ErrorResponseWithData :: "gval \<Rightarrow> string \<Rightarrow> gval list \<Rightarrow> Response" where
  "ErrorResponseWithData d text vargs =
     (let resp = ErrorResponse text vargs in resp\<lparr>rs_Data := gset ''data'' d (rs_Data resp)\<rparr>)"

definition ListResponse :: "string list \<Rightarrow> Response" where
  "ListResponse keys =
     (if keys \<noteq> [] then dataResponse [(''keys'', GList (map GStr keys))] else dataResponse [])"

definition ListResponseWithInfo :: "string list \<Rightarrow> gmap \<Rightarrow> Response" where
  "ListResponseWithInfo keys keyInfo =
     (let resp = ListResponse keys;
          keyInfoData =
            fold (\<lambda>key m. case map_of keyInfo key of None \<Rightarrow> m | Some v \<Rightarrow> gset key v m) keys []
      in if keyInfoData \<noteq> [] then resp\<lparr>rs_Data := gset ''key_info'' (GMap keyInfoData) (rs_Data resp)\<rparr>
         else resp)"

text \<open>The JSON object of a logical response, as \<open>LogicalResponseToHTTPResponse\<close> lays it out.\<close>

definition LogicalResponseToHTTPResponse :: "Response \<Rightarrow> gmap" where
  "LogicalResponseToHTTPResponse r =
     [(''request_id'', GStr []),
      (''lease_id'', GStr (case rs_Secret r of None \<Rightarrow> [] | Some s \<Rightarrow> se_LeaseID s)),
      (''renewable'', GBool (case rs_Secret r of None \<Rightarrow> False | Some s \<Rightarrow> lo_Renewable s)),
      (''lease_duration'',
        GInt (case rs_Secret r of None \<Rightarrow> 0 | Some s \<Rightarrow> whole_units second (lo_TTL s))),
      (''data'', GMap (rs_Data r)),
      (''wrap_info'', GNil),
      (''warnings'', GList (map GStr (rs_Warnings r))),
      (''auth'', GNil),
      (''mount_type'', GStr (rs_MountType r))]"

definition RespondWithStatusCode :: "Response option \<Rightarrow> Request option \<Rightarrow> int \<Rightarrow> Response" where
  "RespondWithStatusCode resp req code =
     (let base = [(''http_content_type'', GStr ''application/json''),
                  (''http_status_code'', GInt code)]
      in dataResponse
           (case resp of
              None \<Rightarrow> base
            | Some r \<Rightarrow>
                (let httpResp = LogicalResponseToHTTPResponse r;
                     httpResp' = (case req of None \<Rightarrow> httpResp
                                  | Some q \<Rightarrow> gset ''request_id'' (GStr (rq_ID q)) httpResp)
                 in gset ''http_raw_body'' (GJSON (GMap httpResp')) base)))"

text \<open>What the statements observe of a response: the raw status code and the data it carries.\<close>

definition resp_code :: "Response \<Rightarrow> int option" where
  "resp_code r = (case gget (rs_Data r) ''http_status_code'' of GInt c \<Rightarrow> Some c | _ \<Rightarrow> None)"

definition resp_body :: "Response \<Rightarrow> gmap" where
  "resp_body r =
     (case gget (rs_Data r) ''http_raw_body'' of
        GJSON (GMap m) \<Rightarrow> (case gget m ''data'' of GMap d \<Rightarrow> d | _ \<Rightarrow> [])
      | _ \<Rightarrow> rs_Data r)"

lemma IsError_ErrorResponse [simp]: "IsError (Some (ErrorResponse t as))"
  by (simp add: IsError_def ErrorResponse_def dataResponse_def gget_def)

lemma resp_code_RespondWithStatusCode [simp]:
  "resp_code (RespondWithStatusCode r q c) = Some c"
  by (simp add: resp_code_def RespondWithStatusCode_def dataResponse_def gget_def Let_def gset_def
      split: option.splits)

lemma resp_body_RespondWithStatusCode [simp]:
  "resp_body (RespondWithStatusCode (Some r) q c) = rs_Data r"
  by (simp add: resp_body_def RespondWithStatusCode_def dataResponse_def gget_def Let_def gset_def
      LogicalResponseToHTTPResponse_def split: option.splits)

end
