(* ===== verification/Storage.thy ===== *)
theory Storage
  imports Logical
begin

text \<open>
  The storage stack below the approval engine: the in-memory physical backend
  (\<open>sdk/physical/inmem/inmem.go\<close>), prefix views of a storage (\<open>sdk/logical/storage_view.go\<close>),
  barrier views (\<open>vault/barrier_view.go\<close>) and the scanning helpers of
  \<open>sdk/logical/storage.go\<close>. The radix tree of the backend (a third-party package) is its
  contents in key order. Values are a type parameter; \<open>vsize\<close> is the byte length of a value
  and \<open>ctx\<close> says whether the context is cancelled.

  The locale \<open>kv_store\<close> is the contract of \<open>logical.Storage\<close>; it is interpreted for the
  backend and for every barrier view, and the scanning helpers are proved correct from it.
\<close>

section \<open>The in-memory backend\<close>

record 'v InmemBackend =
  root :: "(string \<times> 'v) list"
  failGet :: bool
  failPut :: bool
  failDelete :: bool
  failList :: bool
  maxValueSize :: nat

definition NewInmem :: "nat \<Rightarrow> 'v InmemBackend" where
  "NewInmem mvs =
     \<lparr>root = [], failGet = False, failPut = False, failDelete = False, failList = False,
      maxValueSize = mvs\<rparr>"

definition PutInternal ::
  "('v \<Rightarrow> nat) \<Rightarrow> bool \<Rightarrow> string \<Rightarrow> 'v \<Rightarrow> 'v InmemBackend \<Rightarrow> (err + unit) \<times> 'v InmemBackend" where
  "PutInternal vsize ctx key v i =
     (if failPut i then (Inl PutDisabledError, i)
      else if ctx then (Inl CtxErr, i)
      else if maxValueSize i > 0 \<and> vsize v > maxValueSize i then (Inl ErrValueTooLarge, i)
      else (Inr (), i\<lparr>root := olist_insert key v (root i)\<rparr>))"

definition GetInternal :: "bool \<Rightarrow> string \<Rightarrow> 'v InmemBackend \<Rightarrow> err + 'v option" where
  "GetInternal ctx key i =
     (if failGet i then Inl GetDisabledError
      else if ctx then Inl CtxErr
      else Inr (map_of (root i) key))"

definition DeleteInternal ::
  "bool \<Rightarrow> string \<Rightarrow> 'v InmemBackend \<Rightarrow> (err + unit) \<times> 'v InmemBackend" where
  "DeleteInternal ctx key i =
     (if failDelete i then (Inl DeleteDisabledError, i)
      else if ctx then (Inl CtxErr, i)
      else (Inr (), i\<lparr>root := olist_delete key (root i)\<rparr>))"

fun list_walk :: "string \<Rightarrow> string list \<Rightarrow> string list \<Rightarrow> string list" where
  "list_walk pfx seen [] = []"
| "list_walk pfx seen (s # ss) =
     (let trimmed = trim_prefix s pfx in
      case index_byte trimmed (CHR ''/'') of
        None \<Rightarrow> trimmed # list_walk pfx seen ss
      | Some sep \<Rightarrow>
          let d = take (Suc sep) trimmed in
          if d \<in> set seen then list_walk pfx seen ss
          else d # list_walk pfx (d # seen) ss)"

definition ListInternal :: "bool \<Rightarrow> string \<Rightarrow> 'v InmemBackend \<Rightarrow> err + string list" where
  "ListInternal ctx pfx i =
     (if failList i then Inl ListDisabledError
      else let out = list_walk pfx [] (filter (\<lambda>k. has_prefix k pfx) (map fst (root i))) in
        if ctx then Inl CtxErr else Inr out)"

section \<open>Prefix views\<close>

record StorageView =
  sv_prefix :: string

definition SanityCheck :: "string \<Rightarrow> bool" where
  "SanityCheck key \<longleftrightarrow> \<not> contains_sub key ''..''"

definition ExpandKey :: "StorageView \<Rightarrow> string \<Rightarrow> string" where
  "ExpandKey s sfx = sv_prefix s @ sfx"

definition TruncateKey :: "StorageView \<Rightarrow> string \<Rightarrow> string" where
  "TruncateKey s full = trim_prefix full (sv_prefix s)"

definition sv_List :: "StorageView \<Rightarrow> bool \<Rightarrow> string \<Rightarrow> 'v InmemBackend \<Rightarrow> err + string list" where
  "sv_List s ctx pfx i =
     (if \<not> SanityCheck pfx then Inl ErrRelativePath else ListInternal ctx (ExpandKey s pfx) i)"

definition sv_Get ::
  "StorageView \<Rightarrow> bool \<Rightarrow> string \<Rightarrow> 'v InmemBackend \<Rightarrow> err + (string \<times> 'v) option" where
  "sv_Get s ctx key i =
     (if \<not> SanityCheck key then Inl ErrRelativePath
      else (case GetInternal ctx (ExpandKey s key) i of
              Inl e \<Rightarrow> Inl e
            | Inr None \<Rightarrow> Inr None
            | Inr (Some v) \<Rightarrow> Inr (Some (TruncateKey s (ExpandKey s key), v))))"

definition sv_Put ::
  "StorageView \<Rightarrow> ('v \<Rightarrow> nat) \<Rightarrow> bool \<Rightarrow> (string \<times> 'v) option \<Rightarrow> 'v InmemBackend
   \<Rightarrow> (err + unit) \<times> 'v InmemBackend" where
  "sv_Put s vsize ctx entry i =
     (case entry of
        None \<Rightarrow> (Inl ErrNilEntry, i)
      | Some (key, v) \<Rightarrow>
          if \<not> SanityCheck key then (Inl ErrRelativePath, i)
          else PutInternal vsize ctx (ExpandKey s key) v i)"

definition sv_Delete ::
  "StorageView \<Rightarrow> bool \<Rightarrow> string \<Rightarrow> 'v InmemBackend \<Rightarrow> (err + unit) \<times> 'v InmemBackend" where
  "sv_Delete s ctx key i =
     (if \<not> SanityCheck key then (Inl ErrRelativePath, i)
      else DeleteInternal ctx (ExpandKey s key) i)"

definition sv_SubView :: "StorageView \<Rightarrow> string \<Rightarrow> StorageView" where
  "sv_SubView s pfx = \<lparr>sv_prefix = ExpandKey s pfx\<rparr>"

section \<open>Barrier views\<close>

record BarrierView =
  bv_storage :: StorageView
  bv_readOnlyErr :: "err option"

definition NewBarrierView :: "string \<Rightarrow> BarrierView" where
  "NewBarrierView pfx = \<lparr>bv_storage = \<lparr>sv_prefix = pfx\<rparr>, bv_readOnlyErr = None\<rparr>"

definition runICheck :: "BarrierView \<Rightarrow> string \<Rightarrow> err \<Rightarrow> bool" where
  "runICheck v expandedKey roErr = True"

definition bv_List :: "BarrierView \<Rightarrow> bool \<Rightarrow> string \<Rightarrow> 'v InmemBackend \<Rightarrow> err + string list" where
  "bv_List v ctx pfx i = sv_List (bv_storage v) ctx pfx i"

definition bv_Get ::
  "BarrierView \<Rightarrow> bool \<Rightarrow> string \<Rightarrow> 'v InmemBackend \<Rightarrow> err + (string \<times> 'v) option" where
  "bv_Get v ctx key i = sv_Get (bv_storage v) ctx key i"

definition bv_Put ::
  "BarrierView \<Rightarrow> ('v \<Rightarrow> nat) \<Rightarrow> bool \<Rightarrow> (string \<times> 'v) option \<Rightarrow> 'v InmemBackend
   \<Rightarrow> (err + unit) \<times> 'v InmemBackend" where
  "bv_Put v vsize ctx entry i =
     (case entry of
        None \<Rightarrow> (Inl ErrNilEntry, i)
      | Some (key, _) \<Rightarrow>
          (case bv_readOnlyErr v of
             Some roErr \<Rightarrow>
               if runICheck v (ExpandKey (bv_storage v) key) roErr then (Inl roErr, i)
               else sv_Put (bv_storage v) vsize ctx entry i
           | None \<Rightarrow> sv_Put (bv_storage v) vsize ctx entry i))"

definition bv_Delete ::
  "BarrierView \<Rightarrow> bool \<Rightarrow> string \<Rightarrow> 'v InmemBackend \<Rightarrow> (err + unit) \<times> 'v InmemBackend" where
  "bv_Delete v ctx key i =
     (case bv_readOnlyErr v of
        Some roErr \<Rightarrow>
          if runICheck v (ExpandKey (bv_storage v) key) roErr then (Inl roErr, i)
          else sv_Delete (bv_storage v) ctx key i
      | None \<Rightarrow> sv_Delete (bv_storage v) ctx key i)"

definition bv_SubView :: "BarrierView \<Rightarrow> string \<Rightarrow> BarrierView" where
  "bv_SubView v pfx = \<lparr>bv_storage = sv_SubView (bv_storage v) pfx, bv_readOnlyErr = bv_readOnlyErr v\<rparr>"

section \<open>Scanning a view\<close>

text \<open>
  \<open>ScanView\<close> walks the directories of a view with a stack of prefixes. It has no bound of its
  own, so the loop is a partial function: \<open>None\<close> means that it does not return. The
  callback's effect is the list of paths it is called with.
\<close>

partial_function (option) scan_loop ::
  "(string \<Rightarrow> err + string list) \<Rightarrow> string list \<Rightarrow> string list \<Rightarrow> (err + string list) option" where
  "scan_loop lst frontier visited =
     (case frontier of
        [] \<Rightarrow> Some (Inr visited)
      | current # rest \<Rightarrow>
          (case lst current of
             Inl e \<Rightarrow> Some (Inl (ErrWrap ''list failed at path'' e))
           | Inr contents \<Rightarrow>
               scan_loop lst
                 (rev (map ((@) current) (filter (\<lambda>c. has_suffix c ''/'') contents)) @ rest)
                 (visited @ map ((@) current) (filter (\<lambda>c. \<not> has_suffix c ''/'') contents))))"

declare scan_loop.simps [code]

definition ScanView :: "(string \<Rightarrow> err + string list) \<Rightarrow> (err + string list) option" where
  "ScanView lst = scan_loop lst [''''] []"

definition CollectKeysWithPrefix ::
  "(string \<Rightarrow> err + string list) \<Rightarrow> string \<Rightarrow> (err + string list) option" where
  "CollectKeysWithPrefix lst pfx =
     map_option (map_sum id (filter (\<lambda>p. has_prefix p pfx))) (ScanView lst)"

definition CollectKeys :: "(string \<Rightarrow> err + string list) \<Rightarrow> (err + string list) option" where
  "CollectKeys lst = CollectKeysWithPrefix lst []"

fun delete_keys ::
  "(string \<Rightarrow> 's \<Rightarrow> (err + unit) \<times> 's) \<Rightarrow> string list \<Rightarrow> 's \<Rightarrow> (err + unit) \<times> 's" where
  "delete_keys del [] s = (Inr (), s)"
| "delete_keys del (k # ks) s =
     (case del k s of (Inl e, s') \<Rightarrow> (Inl e, s') | (Inr _, s') \<Rightarrow> delete_keys del ks s')"

definition ClearView ::
  "(string \<Rightarrow> 's \<Rightarrow> err + string list) \<Rightarrow> (string \<Rightarrow> 's \<Rightarrow> (err + unit) \<times> 's) \<Rightarrow> 's
   \<Rightarrow> ((err + unit) \<times> 's) option" where
  "ClearView lst del s =
     (case CollectKeys (\<lambda>p. lst p s) of
        None \<Rightarrow> None
      | Some (Inl e) \<Rightarrow> Some (Inl e, s)
      | Some (Inr keys) \<Rightarrow> Some (delete_keys del keys s))"

section \<open>What a listing returns\<close>

text \<open>
  The children of a directory \<open>p\<close> in a set of keys: the keys directly below it, and the names
  (with a trailing slash) of the directories below it.
\<close>

definition child :: "string \<Rightarrow> string \<Rightarrow> string" where
  "child p s =
     (let t = trim_prefix s p in
      case index_byte t (CHR ''/'') of None \<Rightarrow> t | Some i \<Rightarrow> take (Suc i) t)"

definition children :: "string set \<Rightarrow> string \<Rightarrow> string set" where
  "children D p = child p ` {s \<in> D. has_prefix s p}"

lemma index_byte_None: "index_byte s c = None \<longleftrightarrow> c \<notin> set s"
  by (induction s) auto

lemma index_byte_Some:
  "index_byte s c = Some i \<Longrightarrow> take (Suc i) s = take i s @ [c] \<and> c \<notin> set (take i s) \<and> i < length s"
proof (induction s arbitrary: i)
  case (Cons x s)
  then show ?case by (cases i) (auto split: if_splits)
qed simp

lemma child_cases:
  obtains (leaf) "child p (p @ t) = t" "CHR ''/'' \<notin> set t"
  | (dir) d u where "t = d @ ''/'' @ u" "child p (p @ t) = d @ ''/''" "CHR ''/'' \<notin> set d"
proof (cases "index_byte t (CHR ''/'')")
  case None
  then have "child p (p @ t) = t" by (simp add: child_def)
  moreover have "CHR ''/'' \<notin> set t" using None by (simp add: index_byte_None)
  ultimately show ?thesis by (rule leaf)
next
  case (Some i)
  from index_byte_Some [OF this] have "take (Suc i) t = take i t @ ''/''" "CHR ''/'' \<notin> set (take i t)"
    by auto
  moreover from this have "t = take i t @ ''/'' @ drop (Suc i) t"
    by (metis append.assoc append_take_drop_id)
  ultimately show ?thesis using dir Some by (simp add: child_def)
qed

lemma set_list_walk:
  "\<forall>d \<in> set seen. has_suffix d ''/'' \<Longrightarrow> \<forall>s \<in> set ks. has_prefix s p \<Longrightarrow>
   set (list_walk p seen ks) = child p ` set ks - set seen"
proof (induction p seen ks rule: list_walk.induct)
  case (2 p seen s ss)
  from "2.prems" obtain t where s: "s = p @ t" by (auto simp: has_prefix_iff)
  show ?case
  proof (cases "index_byte t (CHR ''/'')")
    case None
    then have "t \<notin> set seen"
      using "2.prems"(1) by (fastforce simp: index_byte_None has_suffix_iff)
    with None s 2 show ?thesis by (auto simp: child_def)
  next
    case (Some i)
    then have "has_suffix (take (Suc i) t) ''/''"
      using index_byte_Some by (auto simp: has_suffix_iff)
    with Some s 2 show ?thesis by (auto simp: child_def Let_def)
  qed
qed simp

lemma set_ListInternal:
  "\<not> failList i \<Longrightarrow>
   \<exists>ks. ListInternal False p i = Inr ks \<and> set ks = children (dom (map_of (root i))) p"
  by (auto simp: ListInternal_def Let_def set_list_walk children_def dom_map_of_conv_image_fst)

lemma children_dir:
  "c \<in> children D f \<Longrightarrow> has_suffix c ''/'' \<Longrightarrow> \<exists>u. f @ c @ u \<in> D"
proof -
  assume c: "c \<in> children D f" and s: "has_suffix c ''/''"
  then obtain t where t: "f @ t \<in> D" "c = child f (f @ t)"
    by (auto simp: children_def has_prefix_iff)
  show ?thesis
  proof (cases rule: child_cases [of f t])
    case leaf
    then show ?thesis using t s by (auto simp: has_suffix_iff)
  next
    case (dir d u)
    then show ?thesis using t by auto
  qed
qed

lemma children_leaf: "c \<in> children D f \<Longrightarrow> \<not> has_suffix c ''/'' \<Longrightarrow> f @ c \<in> D"
proof -
  assume c: "c \<in> children D f" and s: "\<not> has_suffix c ''/''"
  then obtain t where t: "f @ t \<in> D" "c = child f (f @ t)"
    by (auto simp: children_def has_prefix_iff)
  show ?thesis using t s by (cases rule: child_cases [of f t]) (auto simp: has_suffix_iff)
qed

lemma children_cover:
  assumes "k \<in> D" "has_prefix k f"
  shows "\<exists>c \<in> children D f. if has_suffix c ''/'' then has_prefix k (f @ c) else k = f @ c"
proof -
  from assms obtain t where t: "k = f @ t" by (auto simp: has_prefix_iff)
  have "child f k \<in> children D f" using assms by (auto simp: children_def)
  moreover have "if has_suffix (child f k) ''/'' then has_prefix k (f @ child f k) else k = f @ child f k"
    using t by (cases rule: child_cases [of f t]) (auto simp: has_suffix_iff has_prefix_iff)
  ultimately show ?thesis by blast
qed

lemma below_children:
  "{k \<in> D. has_prefix k f} =
     (@) f ` {c \<in> children D f. \<not> has_suffix c ''/''}
     \<union> {k \<in> D. \<exists>g \<in> (@) f ` {c \<in> children D f. has_suffix c ''/''}. has_prefix k g}"
  (is "?L = ?R")
proof
  show "?L \<subseteq> ?R" using children_cover by (fastforce split: if_splits)
  show "?R \<subseteq> ?L" using children_leaf by (fastforce simp: has_prefix_iff)
qed

section \<open>The storage contract\<close>

text \<open>
  The laws of \<open>logical.Storage\<close> that its clients rely on, for states \<open>ok\<close> in which the store
  is healthy: reads return the contents \<open>abs\<close>, writes update them at one key, a listing
  returns the children of a directory. Keys are limited to \<open>key_ok\<close>.
\<close>

locale kv_store =
  fixes get :: "string \<Rightarrow> 's \<Rightarrow> err + (string \<times> 'v) option"
    and put :: "(string \<times> 'v) option \<Rightarrow> 's \<Rightarrow> (err + unit) \<times> 's"
    and delete :: "string \<Rightarrow> 's \<Rightarrow> (err + unit) \<times> 's"
    and list :: "string \<Rightarrow> 's \<Rightarrow> err + string list"
    and ok :: "'s \<Rightarrow> bool"
    and key_ok :: "string \<Rightarrow> bool"
    and abs :: "'s \<Rightarrow> string \<rightharpoonup> 'v"
  assumes get_abs: "ok s \<Longrightarrow> key_ok k \<Longrightarrow> get k s = Inr (map_option (Pair k) (abs s k))"
    and put_ok: "ok s \<Longrightarrow> key_ok k \<Longrightarrow> fst (put (Some (k, v)) s) = Inr ()"
    and put_abs: "ok s \<Longrightarrow> key_ok k \<Longrightarrow> abs (snd (put (Some (k, v)) s)) = (abs s)(k \<mapsto> v)"
    and put_invar: "ok s \<Longrightarrow> ok (snd (put e s))"
    and delete_ok: "ok s \<Longrightarrow> key_ok k \<Longrightarrow> fst (delete k s) = Inr ()"
    and delete_abs: "ok s \<Longrightarrow> key_ok k \<Longrightarrow> abs (snd (delete k s)) = (abs s)(k := None)"
    and delete_invar: "ok s \<Longrightarrow> ok (snd (delete k s))"
    and list_abs: "ok s \<Longrightarrow> key_ok p \<Longrightarrow> \<exists>ks. list p s = Inr ks \<and> set ks = children (dom (abs s)) p"
    and finite_abs: "ok s \<Longrightarrow> finite (dom (abs s))"
    and key_ok_prefix: "key_ok (p @ q) \<Longrightarrow> key_ok p"
begin

lemma get_put: "ok s \<Longrightarrow> key_ok k \<Longrightarrow> get k (snd (put (Some (k, v)) s)) = Inr (Some (k, v))"
  by (simp add: get_abs put_abs put_invar)

lemma get_put_other:
  "ok s \<Longrightarrow> key_ok k \<Longrightarrow> key_ok k' \<Longrightarrow> k' \<noteq> k \<Longrightarrow> get k' (snd (put (Some (k, v)) s)) = get k' s"
  by (simp add: get_abs put_abs put_invar)

lemma get_delete: "ok s \<Longrightarrow> key_ok k \<Longrightarrow> get k (snd (delete k s)) = Inr None"
  by (simp add: get_abs delete_abs delete_invar)

lemma delete_keys_ok:
  "ok s \<Longrightarrow> \<forall>k \<in> set ks. key_ok k \<Longrightarrow>
   \<exists>s'. delete_keys delete ks s = (Inr (), s') \<and> ok s' \<and> abs s' = (abs s) |` (- set ks)"
proof (induction ks arbitrary: s)
  case Nil
  then show ?case by (simp add: restrict_map_def)
next
  case (Cons k ks)
  obtain s1 where d: "delete k s = (Inr (), s1)" "ok s1" "abs s1 = (abs s)(k := None)"
    using Cons.prems delete_ok delete_abs delete_invar
    by (metis list.set_intros(1) prod.collapse)
  from Cons.IH [OF d(2)] Cons.prems obtain s2 where
    "delete_keys delete ks s1 = (Inr (), s2)" "ok s2" "abs s2 = (abs s1) |` (- set ks)"
    by auto
  then show ?case using d by (auto simp: restrict_map_def fun_eq_iff)
qed

text \<open>
  Scanning a stack of directories visits the keys below them. The number of levels left is
  bounded by the length of the longest key, which is the termination argument of the loop.
\<close>

lemma scan_dirs:
  assumes s: "ok s" "\<forall>k \<in> dom (abs s). key_ok k" "\<forall>k \<in> dom (abs s). length k < N"
    and "\<forall>f \<in> set fs. key_ok f \<and> N - length f \<le> n"
  shows "\<exists>ks. scan_loop (\<lambda>p. list p s) (fs @ rest) acc = scan_loop (\<lambda>p. list p s) rest (acc @ ks) \<and>
    set ks = {k \<in> dom (abs s). \<exists>f \<in> set fs. has_prefix k f}"
  using assms(4)
proof (induction n arbitrary: fs rest acc)
  case 0
  then show ?case
  proof (induction fs arbitrary: acc)
    case (Cons f fs)
    have none: "\<not> has_prefix k f" if "k \<in> dom (abs s)" for k
    proof
      assume "has_prefix k f"
      then have "length f \<le> length k" by (auto simp: has_prefix_iff)
      moreover have "length k < N" "N \<le> length f" using that s(3) Cons.prems by auto
      ultimately show False by simp
    qed
    then have "children (dom (abs s)) f = {}" by (auto simp: children_def)
    then have "list f s = Inr []" using list_abs [OF s(1), of f] Cons.prems by auto
    then have "scan_loop (\<lambda>p. list p s) ((f # fs) @ rest) acc = scan_loop (\<lambda>p. list p s) (fs @ rest) acc"
      by (simp add: scan_loop.simps)
    moreover have "{k \<in> dom (abs s). \<exists>g \<in> set (f # fs). has_prefix k g}
        = {k \<in> dom (abs s). \<exists>g \<in> set fs. has_prefix k g}"
      using none by auto
    ultimately show ?case using Cons by simp
  qed (auto intro: exI [of _ "[]"])
next
  case (Suc n)
  note level = Suc.IH
  from Suc.prems show ?case
  proof (induction fs arbitrary: acc)
    case (Cons f fs)
    let ?scan = "scan_loop (\<lambda>p. list p s)"
    obtain cs where cs: "list f s = Inr cs" "set cs = children (dom (abs s)) f"
      using list_abs [OF s(1), of f] Cons.prems by auto
    let ?dirs = "rev (map ((@) f) (filter (\<lambda>c. has_suffix c ''/'') cs))"
    let ?leaves = "map ((@) f) (filter (\<lambda>c. \<not> has_suffix c ''/'') cs)"
    have "key_ok g \<and> N - length g \<le> n" if g: "g \<in> set ?dirs" for g
    proof -
      from g obtain c where c: "g = f @ c" "c \<in> set cs" "has_suffix c ''/''" by auto
      then obtain u where "f @ c @ u \<in> dom (abs s)" using cs(2) children_dir by metis
      then have "key_ok g" using s(2) key_ok_prefix c(1) by (metis append.assoc)
      moreover have "length f < length g" using c by (auto simp: has_suffix_iff)
      ultimately show ?thesis using Cons.prems by auto
    qed
    then obtain ks where ks: "?scan (?dirs @ fs @ rest) (acc @ ?leaves) = ?scan (fs @ rest) (acc @ ?leaves @ ks)"
      "set ks = {k \<in> dom (abs s). \<exists>g \<in> set ?dirs. has_prefix k g}"
      using level [of ?dirs "fs @ rest" "acc @ ?leaves"] by auto
    have "set (?leaves @ ks) = {k \<in> dom (abs s). has_prefix k f}"
      using ks(2) cs(2) by (subst below_children) auto
    moreover obtain ks' where "?scan (fs @ rest) (acc @ ?leaves @ ks) = ?scan rest ((acc @ ?leaves @ ks) @ ks')"
      "set ks' = {k \<in> dom (abs s). \<exists>f \<in> set fs. has_prefix k f}"
      using Cons.IH [of "acc @ ?leaves @ ks"] Cons.prems by auto
    moreover have "?scan ((f # fs) @ rest) acc = ?scan (?dirs @ fs @ rest) (acc @ ?leaves)"
      using cs by (subst scan_loop.simps) simp
    ultimately show ?case
      using ks(1) by (intro exI [of _ "(?leaves @ ks) @ ks'"]) auto
  qed (auto intro: exI [of _ "[]"])
qed

text \<open>The scan returns, and visits exactly the keys of the store.\<close>

lemma ScanView_keys:
  assumes "ok s" "\<forall>k \<in> dom (abs s). key_ok k" "key_ok []"
  shows "\<exists>ks. ScanView (\<lambda>p. list p s) = Some (Inr ks) \<and> set ks = dom (abs s)"
proof -
  obtain N where N: "\<forall>k \<in> dom (abs s). length k < N"
    using finite_abs [OF assms(1)] finite_nat_set_iff_bounded [of "length ` dom (abs s)"] by auto
  from scan_dirs [OF assms(1,2) N, of "[[]]" N "[]" "[]"] assms(3) obtain ks where
    "scan_loop (\<lambda>p. list p s) [[]] [] = scan_loop (\<lambda>p. list p s) [] ks" "set ks = dom (abs s)"
    by (auto simp: has_prefix_def)
  then show ?thesis by (auto simp: ScanView_def scan_loop.simps)
qed

lemma CollectKeysWithPrefix_keys:
  assumes "ok s" "\<forall>k \<in> dom (abs s). key_ok k" "key_ok []"
  shows "\<exists>ks. CollectKeysWithPrefix (\<lambda>p. list p s) pfx = Some (Inr ks) \<and>
    set ks = {k \<in> dom (abs s). has_prefix k pfx}"
  using ScanView_keys [OF assms] by (auto simp: CollectKeysWithPrefix_def)

lemma ClearView_empties:
  assumes "ok s" "\<forall>k \<in> dom (abs s). key_ok k" "key_ok []"
  shows "\<exists>s'. ClearView list delete s = Some (Inr (), s') \<and> ok s' \<and> abs s' = Map.empty"
proof -
  from CollectKeysWithPrefix_keys [OF assms, of "[]"] obtain ks where
    ks: "CollectKeys (\<lambda>p. list p s) = Some (Inr ks)" "set ks = dom (abs s)"
    by (auto simp: CollectKeys_def has_prefix_def)
  with delete_keys_ok [OF assms(1), of ks] assms(2) obtain s' where
    "delete_keys delete ks s = (Inr (), s')" "ok s'" "abs s' = (abs s) |` (- dom (abs s))"
    by auto
  with ks show ?thesis by (auto simp: ClearView_def restrict_map_def fun_eq_iff)
qed

end

section \<open>The backend and its views satisfy the contract\<close>

definition inmem_ok :: "'v InmemBackend \<Rightarrow> bool" where
  "inmem_ok i \<longleftrightarrow> olist_ok (root i) \<and> \<not> failGet i \<and> \<not> failPut i \<and> \<not> failDelete i \<and> \<not> failList i \<and>
     maxValueSize i = 0"

definition inmem_abs :: "'v InmemBackend \<Rightarrow> string \<rightharpoonup> 'v" where
  "inmem_abs i = map_of (root i)"

lemmas inmem_defs = inmem_ok_def inmem_abs_def PutInternal_def GetInternal_def DeleteInternal_def

interpretation inmem: kv_store
  "\<lambda>k i. map_sum id (map_option (Pair k)) (GetInternal False k i)"
  "\<lambda>e i. case e of None \<Rightarrow> (Inl ErrNilEntry, i) | Some (k, v) \<Rightarrow> PutInternal vsize False k v i"
  "DeleteInternal False" "ListInternal False" inmem_ok "\<lambda>_. True" inmem_abs
  for vsize :: "'v \<Rightarrow> nat"
proof (unfold_locales, goal_cases)
  case (8 s p)
  then show ?case using set_ListInternal [of s p] by (auto simp: inmem_defs)
qed (auto simp: inmem_defs finite_dom_map_of split: option.splits)

text \<open>A barrier view shows the keys below its prefix, with the prefix removed.\<close>

definition view_abs :: "BarrierView \<Rightarrow> 'v InmemBackend \<Rightarrow> string \<rightharpoonup> 'v" where
  "view_abs v i = (\<lambda>k. map_of (root i) (sv_prefix (bv_storage v) @ k))"

definition view_ok :: "BarrierView \<Rightarrow> 'v InmemBackend \<Rightarrow> bool" where
  "view_ok v i \<longleftrightarrow> inmem_ok i \<and> bv_readOnlyErr v = None"

lemmas view_defs = view_ok_def view_abs_def bv_Get_def bv_Put_def bv_Delete_def bv_List_def
  sv_Get_def sv_Put_def sv_Delete_def sv_List_def ExpandKey_def TruncateKey_def

lemma child_view: "has_prefix k p \<Longrightarrow> child (q @ p) (q @ k) = child p k"
  by (simp add: child_def trim_prefix_def has_prefix_def)

lemma children_view:
  "children D (q @ p) = children {k. q @ k \<in> D} p"
proof -
  have "{s \<in> D. has_prefix s (q @ p)} = (@) q ` {k. q @ k \<in> D \<and> has_prefix k p}"
    by (auto simp: has_prefix_iff image_iff)
  then show ?thesis by (auto simp: children_def image_iff child_view)
qed

lemma dom_view_abs: "dom (view_abs v i) = {k. sv_prefix (bv_storage v) @ k \<in> dom (map_of (root i))}"
  by (auto simp: view_abs_def dom_def)

lemma finite_view: "finite (dom (view_abs v i))"
proof -
  have "(@) (sv_prefix (bv_storage v)) ` dom (view_abs v i) \<subseteq> dom (map_of (root i))"
    by (auto simp: dom_view_abs)
  then have "finite ((@) (sv_prefix (bv_storage v)) ` dom (view_abs v i))"
    using finite_dom_map_of finite_subset by blast
  then show ?thesis by (rule finite_imageD) (simp add: inj_on_def)
qed

lemma SanityCheck_prefix: "SanityCheck (p @ q) \<Longrightarrow> SanityCheck p"
  unfolding SanityCheck_def contains_sub_iff by (metis append.assoc)

interpretation bview: kv_store
  "bv_Get v False" "bv_Put v vsize False" "bv_Delete v False" "bv_List v False"
  "view_ok v" SanityCheck "view_abs v"
  for v :: BarrierView and vsize :: "'v \<Rightarrow> nat"
proof (unfold_locales, goal_cases)
  case (8 s p)
  then show ?case
    using set_ListInternal [of s "sv_prefix (bv_storage v) @ p"]
    by (auto simp: view_defs inmem_ok_def children_view dom_def)
next
  case 9
  show ?case by (rule finite_view)
next
  case 10
  then show ?case by (rule SanityCheck_prefix)
qed (auto simp: view_defs inmem_defs fun_eq_iff split: option.splits)

end
