(* ===== verification/Approval_Core.thy ===== *)
theory Approval_Core
  imports Storage
begin

text \<open>
  The approval engine of \<open>vault/approval_core.go\<close>: its records and their JSON documents, the
  storage helpers, the path matcher, the deduplication guard, the interceptor
  \<open>checkNeedsApproval\<close>, the executor of approved requests, the history and the Slack message.

  The engine runs against a \<open>world\<close>: the storage backend with a script of injected faults
  (one per storage call), the readings of the wall clock, the drawn UUIDs, the requests
  dispatched to backends and the notifications sent. What the engine only calls (token and
  entity lookup, the router with the mounted plugins behind it) is the record \<open>core\<close>.
\<close>

section \<open>Constants\<close>

definition approvalStoragePrefix :: string where
  "approvalStoragePrefix = ''approvals/''"

definition approvalRequestTTL :: duration where
  "approvalRequestTTL = 1 * hour"

definition approvalCredentialTTL :: duration where
  "approvalCredentialTTL = 90 * minute"

definition approvalHistoryTTL :: duration where
  "approvalHistoryTTL = 7 * 24 * hour"

lemmas approval_ttl_defs = approvalRequestTTL_def approvalCredentialTTL_def approvalHistoryTTL_def
  duration_defs

section \<open>Domain records\<close>

record ApprovalRule =
  ar_RuleID :: string
  ar_Description :: string
  ar_TargetMountPath :: string
  ar_AuthorizedApprovers :: "string list"
  ar_ApprovalsRequired :: int
  ar_SlackWebhookURL :: string
  ar_CreatedByEntityID :: string
  ar_AllowSelfApproval :: bool

record ApprovalRecord =
  av_ApproverEntityID :: string
  av_ApprovedAt :: time

record PendingRequest =
  pr_RequestID :: string
  pr_RuleID :: string
  pr_OriginalPath :: string
  pr_OriginalOperation :: operation
  pr_OriginalData :: gmap
  pr_OriginalHeaders :: headers
  pr_OriginalMountPoint :: string
  pr_RequesterEntityID :: string
  pr_RequesterDisplayName :: string
  pr_Approvals :: "ApprovalRecord list"
  pr_Status :: string
  pr_CreatedAt :: time
  pr_ExpiresAt :: time
  pr_CredentialData :: "gmap option"
  pr_ApprovedAt :: time
  pr_SecretTTL :: duration
  pr_SecretMaxTTL :: duration
  pr_Justification :: string

record ApprovalHistoryEntry =
  ah_RequestID :: string
  ah_RuleID :: string
  ah_OriginalPath :: string
  ah_RequesterEntityID :: string
  ah_RequesterDisplayName :: string
  ah_Justification :: string
  ah_Status :: string
  ah_CreatedAt :: time
  ah_ResolvedAt :: time
  ah_ResolvedBy :: string
  ah_ResolvedByName :: string
  ah_HistoryExpiresAt :: time

section \<open>JSON documents\<close>

text \<open>
  A stored entry is the JSON text of one of the records, or other bytes (\<open>DRaw\<close>) that do not
  decode. Encoding replaces bytes that are not UTF-8 and, because of \<open>omitempty\<close>, drops an
  empty credential map, which decodes as nil. A document decoded into another record type
  fills the fields the two types share by JSON name and leaves the others zero.
\<close>

datatype doc =
    DRule ApprovalRule
  | DPending PendingRequest
  | DHistory ApprovalHistoryEntry
  | DRaw string

abbreviation jstr :: "string \<Rightarrow> string" where
  "jstr \<equiv> to_valid_utf8"

definition json_headers :: "headers \<Rightarrow> headers" where
  "json_headers hs = map (map_prod jstr (map jstr)) hs"

definition json_vote :: "ApprovalRecord \<Rightarrow> ApprovalRecord" where
  "json_vote a = a\<lparr>av_ApproverEntityID := jstr (av_ApproverEntityID a)\<rparr>"

definition json_cred :: "gmap option \<Rightarrow> gmap option" where
  "json_cred c = (case c of None \<Rightarrow> None | Some m \<Rightarrow> if m = [] then None else Some (json_rt_map m))"

definition json_rule :: "ApprovalRule \<Rightarrow> ApprovalRule" where
  "json_rule r =
     \<lparr>ar_RuleID = jstr (ar_RuleID r), ar_Description = jstr (ar_Description r),
      ar_TargetMountPath = jstr (ar_TargetMountPath r),
      ar_AuthorizedApprovers = map jstr (ar_AuthorizedApprovers r),
      ar_ApprovalsRequired = ar_ApprovalsRequired r,
      ar_SlackWebhookURL = jstr (ar_SlackWebhookURL r),
      ar_CreatedByEntityID = jstr (ar_CreatedByEntityID r),
      ar_AllowSelfApproval = ar_AllowSelfApproval r\<rparr>"

definition json_pending :: "PendingRequest \<Rightarrow> PendingRequest" where
  "json_pending p =
     \<lparr>pr_RequestID = jstr (pr_RequestID p), pr_RuleID = jstr (pr_RuleID p),
      pr_OriginalPath = jstr (pr_OriginalPath p),
      pr_OriginalOperation = pr_OriginalOperation p,
      pr_OriginalData = json_rt_map (pr_OriginalData p),
      pr_OriginalHeaders = json_headers (pr_OriginalHeaders p),
      pr_OriginalMountPoint = jstr (pr_OriginalMountPoint p),
      pr_RequesterEntityID = jstr (pr_RequesterEntityID p),
      pr_RequesterDisplayName = jstr (pr_RequesterDisplayName p),
      pr_Approvals = map json_vote (pr_Approvals p),
      pr_Status = jstr (pr_Status p),
      pr_CreatedAt = pr_CreatedAt p, pr_ExpiresAt = pr_ExpiresAt p,
      pr_CredentialData = json_cred (pr_CredentialData p),
      pr_ApprovedAt = pr_ApprovedAt p,
      pr_SecretTTL = pr_SecretTTL p, pr_SecretMaxTTL = pr_SecretMaxTTL p,
      pr_Justification = jstr (pr_Justification p)\<rparr>"

definition json_history :: "ApprovalHistoryEntry \<Rightarrow> ApprovalHistoryEntry" where
  "json_history h =
     \<lparr>ah_RequestID = jstr (ah_RequestID h), ah_RuleID = jstr (ah_RuleID h),
      ah_OriginalPath = jstr (ah_OriginalPath h),
      ah_RequesterEntityID = jstr (ah_RequesterEntityID h),
      ah_RequesterDisplayName = jstr (ah_RequesterDisplayName h),
      ah_Justification = jstr (ah_Justification h), ah_Status = jstr (ah_Status h),
      ah_CreatedAt = ah_CreatedAt h, ah_ResolvedAt = ah_ResolvedAt h,
      ah_ResolvedBy = jstr (ah_ResolvedBy h), ah_ResolvedByName = jstr (ah_ResolvedByName h),
      ah_HistoryExpiresAt = ah_HistoryExpiresAt h\<rparr>"

definition zero_rule :: ApprovalRule where
  "zero_rule =
     \<lparr>ar_RuleID = [], ar_Description = [], ar_TargetMountPath = [], ar_AuthorizedApprovers = [],
      ar_ApprovalsRequired = 0, ar_SlackWebhookURL = [], ar_CreatedByEntityID = [],
      ar_AllowSelfApproval = False\<rparr>"

text \<open>
  Go's zero operation is the empty string, which is not an operation; the one foreign
  decoding that leaves it (a rule or history document read as a pending request) is given
  \<open>HelpOperation\<close>, which no consumer of such a record looks at.
\<close>

definition zero_pending :: PendingRequest where
  "zero_pending =
     \<lparr>pr_RequestID = [], pr_RuleID = [], pr_OriginalPath = [],
      pr_OriginalOperation = HelpOperation, pr_OriginalData = [], pr_OriginalHeaders = [],
      pr_OriginalMountPoint = [], pr_RequesterEntityID = [], pr_RequesterDisplayName = [],
      pr_Approvals = [], pr_Status = [], pr_CreatedAt = 0, pr_ExpiresAt = 0,
      pr_CredentialData = None, pr_ApprovedAt = 0, pr_SecretTTL = 0, pr_SecretMaxTTL = 0,
      pr_Justification = []\<rparr>"

definition zero_history :: ApprovalHistoryEntry where
  "zero_history =
     \<lparr>ah_RequestID = [], ah_RuleID = [], ah_OriginalPath = [], ah_RequesterEntityID = [],
      ah_RequesterDisplayName = [], ah_Justification = [], ah_Status = [], ah_CreatedAt = 0,
      ah_ResolvedAt = 0, ah_ResolvedBy = [], ah_ResolvedByName = [], ah_HistoryExpiresAt = 0\<rparr>"

fun decode_rule :: "doc \<Rightarrow> ApprovalRule option" where
  "decode_rule (DRule r) = Some r"
| "decode_rule (DPending p) = Some (zero_rule\<lparr>ar_RuleID := pr_RuleID p\<rparr>)"
| "decode_rule (DHistory h) = Some (zero_rule\<lparr>ar_RuleID := ah_RuleID h\<rparr>)"
| "decode_rule (DRaw b) = None"

fun decode_pending :: "doc \<Rightarrow> PendingRequest option" where
  "decode_pending (DRule r) = Some (zero_pending\<lparr>pr_RuleID := ar_RuleID r\<rparr>)"
| "decode_pending (DPending p) = Some p"
| "decode_pending (DHistory h) =
     Some (zero_pending\<lparr>pr_RequestID := ah_RequestID h, pr_RuleID := ah_RuleID h,
       pr_OriginalPath := ah_OriginalPath h, pr_RequesterEntityID := ah_RequesterEntityID h,
       pr_RequesterDisplayName := ah_RequesterDisplayName h, pr_Justification := ah_Justification h,
       pr_Status := ah_Status h, pr_CreatedAt := ah_CreatedAt h\<rparr>)"
| "decode_pending (DRaw b) = None"

fun decode_history :: "doc \<Rightarrow> ApprovalHistoryEntry option" where
  "decode_history (DRule r) = Some (zero_history\<lparr>ah_RuleID := ar_RuleID r\<rparr>)"
| "decode_history (DPending p) =
     Some (zero_history\<lparr>ah_RequestID := pr_RequestID p, ah_RuleID := pr_RuleID p,
       ah_OriginalPath := pr_OriginalPath p, ah_RequesterEntityID := pr_RequesterEntityID p,
       ah_RequesterDisplayName := pr_RequesterDisplayName p, ah_Justification := pr_Justification p,
       ah_Status := pr_Status p, ah_CreatedAt := pr_CreatedAt p\<rparr>)"
| "decode_history (DHistory h) = Some h"
| "decode_history (DRaw b) = None"

lemma json_vote_idem [simp]: "json_vote (json_vote a) = json_vote a"
  by (simp add: json_vote_def)

lemma json_headers_idem [simp]: "json_headers (json_headers hs) = json_headers hs"
  by (auto simp: json_headers_def)

lemma json_cred_idem [simp]: "json_cred (json_cred c) = json_cred c"
  by (auto simp: json_cred_def split: option.splits)

lemma json_rule_idem [simp]: "json_rule (json_rule r) = json_rule r"
  by (simp add: json_rule_def)

lemma json_pending_idem [simp]: "json_pending (json_pending p) = json_pending p"
  by (simp add: json_pending_def)

section \<open>The world and its primitive operations\<close>

record world =
  w_store :: "doc InmemBackend"
  w_faults :: "bool list"
  w_clock :: "nat \<Rightarrow> time"
  w_ticks :: nat
  w_uuids :: "nat \<Rightarrow> string option"
  w_draws :: nat
  w_routed :: "Request list"
  w_slack :: "(string \<times> string) list"

record core =
  c_systemBarrierView :: BarrierView
  c_identityStore :: "(string \<Rightarrow> err + string option) option"
  c_tokenLookup :: "string \<Rightarrow> err + string list option"
  c_route :: "nat \<Rightarrow> Request \<Rightarrow> err + Response option"
  c_redirectAddr :: string
  c_urlRestOK :: "string \<Rightarrow> bool"

text \<open>The keys of the three kinds of documents below the approval view.\<close>

definition config_key :: "string \<Rightarrow> string" where
  "config_key ruleID = ''config/'' @ ruleID"

definition pending_key :: "string \<Rightarrow> string" where
  "pending_key rid = ''pending/'' @ rid"

definition history_key :: "string \<Rightarrow> string" where
  "history_key rid = ''history/'' @ rid"

definition approvalStorage :: "core \<Rightarrow> BarrierView" where
  "approvalStorage c = bv_SubView (c_systemBarrierView c) approvalStoragePrefix"

definition with_fault :: "bool \<Rightarrow> 'v InmemBackend \<Rightarrow> 'v InmemBackend" where
  "with_fault f i = i\<lparr>failGet := f, failPut := f, failDelete := f, failList := f\<rparr>"

definition faulty :: "world \<Rightarrow> bool" where
  "faulty w = (case w_faults w of [] \<Rightarrow> False | f # _ \<Rightarrow> f)"

definition pop_fault :: "world \<Rightarrow> world" where
  "pop_fault w = w\<lparr>w_faults := tl (w_faults w)\<rparr>"

definition st_Get :: "core \<Rightarrow> string \<Rightarrow> (world, err + (string \<times> doc) option) state" where
  "st_Get c key =
     State (\<lambda>w. (bv_Get (approvalStorage c) False key (with_fault (faulty w) (w_store w)),
                 pop_fault w))"

definition st_List :: "core \<Rightarrow> string \<Rightarrow> (world, err + string list) state" where
  "st_List c pfx =
     State (\<lambda>w. (bv_List (approvalStorage c) False pfx (with_fault (faulty w) (w_store w)),
                 pop_fault w))"

definition st_Put :: "core \<Rightarrow> string \<Rightarrow> doc \<Rightarrow> (world, err + unit) state" where
  "st_Put c key d =
     State (\<lambda>w. case bv_Put (approvalStorage c) (\<lambda>_. 0) False (Some (key, d))
                       (with_fault (faulty w) (w_store w)) of
                  (r, i) \<Rightarrow> (r, (pop_fault w)\<lparr>w_store := with_fault False i\<rparr>))"

definition st_Delete :: "core \<Rightarrow> string \<Rightarrow> (world, err + unit) state" where
  "st_Delete c key =
     State (\<lambda>w. case bv_Delete (approvalStorage c) False key (with_fault (faulty w) (w_store w)) of
                  (r, i) \<Rightarrow> (r, (pop_fault w)\<lparr>w_store := with_fault False i\<rparr>))"

definition now_UTC :: "(world, time) state" where
  "now_UTC = State (\<lambda>w. (w_clock w (w_ticks w), w\<lparr>w_ticks := Suc (w_ticks w)\<rparr>))"

definition time_Since :: "time \<Rightarrow> (world, duration) state" where
  "time_Since t = do { n \<leftarrow> now_UTC; ret (time_sub n t) }"

definition GenerateUUID :: "(world, string option) state" where
  "GenerateUUID = State (\<lambda>w. (w_uuids w (w_draws w), w\<lparr>w_draws := Suc (w_draws w)\<rparr>))"

text \<open>
  \<open>doRouting\<close>: outside the enterprise build \<open>shouldForward\<close> is false, so the outcome is that of
  \<open>router.Route\<close>, the argument \<open>c_route\<close>. The dispatched requests are logged.
\<close>

definition doRouting :: "core \<Rightarrow> Request \<Rightarrow> (world, err + Response option) state" where
  "doRouting c req =
     State (\<lambda>w. (c_route c (length (w_routed w)) req, w\<lparr>w_routed := w_routed w @ [req]\<rparr>))"

section \<open>Storage helpers\<close>

definition getApprovalRule :: "core \<Rightarrow> string \<Rightarrow> (world, err + ApprovalRule option) state" where
  "getApprovalRule c ruleID = do {
     r \<leftarrow> st_Get c (config_key ruleID);
     ret (case r of
            Inl e \<Rightarrow> Inl e
          | Inr None \<Rightarrow> Inr None
          | Inr (Some (_, d)) \<Rightarrow>
              (case decode_rule d of None \<Rightarrow> Inl ErrJSON | Some rule \<Rightarrow> Inr (Some rule)))
   }"

definition putApprovalRule :: "core \<Rightarrow> ApprovalRule \<Rightarrow> (world, err + unit) state" where
  "putApprovalRule c rule = st_Put c (config_key (ar_RuleID rule)) (DRule (json_rule rule))"

definition storePendingRequest :: "core \<Rightarrow> PendingRequest \<Rightarrow> (world, err + unit) state" where
  "storePendingRequest c r = st_Put c (pending_key (pr_RequestID r)) (DPending (json_pending r))"

definition getPendingRequest :: "core \<Rightarrow> string \<Rightarrow> (world, err + PendingRequest option) state" where
  "getPendingRequest c rid = do {
     r \<leftarrow> st_Get c (pending_key rid);
     ret (case r of
            Inl e \<Rightarrow> Inl e
          | Inr None \<Rightarrow> Inr None
          | Inr (Some (_, d)) \<Rightarrow>
              (case decode_pending d of None \<Rightarrow> Inl ErrJSON | Some p \<Rightarrow> Inr (Some p)))
   }"

text \<open>
  The loops over a listing read each entry and skip those that cannot be read or decoded.
\<close>

definition read_pending :: "core \<Rightarrow> string \<Rightarrow> (world, PendingRequest option) state" where
  "read_pending c key = do {
     r \<leftarrow> st_Get c (pending_key key);
     ret (case r of Inr (Some (_, d)) \<Rightarrow> decode_pending d | _ \<Rightarrow> None)
   }"

definition read_rule :: "core \<Rightarrow> string \<Rightarrow> (world, ApprovalRule option) state" where
  "read_rule c key = do {
     r \<leftarrow> st_Get c (config_key key);
     ret (case r of Inr (Some (_, d)) \<Rightarrow> decode_rule d | _ \<Rightarrow> None)
   }"

fun sweep_loop :: "core \<Rightarrow> string \<Rightarrow> string list \<Rightarrow> (world, unit) state" where
  "sweep_loop c ruleID [] = ret ()"
| "sweep_loop c ruleID (key # keys) = do {
     r \<leftarrow> read_pending c key;
     (case r of
        None \<Rightarrow> ret ()
      | Some p \<Rightarrow>
          if pr_RuleID p = ruleID then do { _ \<leftarrow> st_Delete c (pending_key key); ret () }
          else ret ());
     sweep_loop c ruleID keys
   }"

definition sweepPendingRequestsByRule :: "core \<Rightarrow> string \<Rightarrow> (world, err + unit) state" where
  "sweepPendingRequestsByRule c ruleID = do {
     l \<leftarrow> st_List c ''pending/'';
     (case l of
        Inl e \<Rightarrow> ret (Inl e)
      | Inr keys \<Rightarrow> do { sweep_loop c ruleID keys; ret (Inr ()) })
   }"

section \<open>Justification and path matching\<close>

definition sanitize_rune :: "nat \<Rightarrow> nat list" where
  "sanitize_rune r =
     (if r = 0x3C then map of_char ''&lt;''
      else if r = 0x3E then map of_char ''&gt;''
      else if r = 0x26 then map of_char ''&amp;''
      else if r \<ge> 0x20 \<and> r \<noteq> 0x7F then [r]
      else [])"

definition sanitizeJustification :: "string \<Rightarrow> string" where
  "sanitizeJustification s =
     (if s = [] then []
      else (let result = string_of_runes (trim_space (concat (map sanitize_rune (runes s)))) in
            if length result > 1000 then take 1000 result else result))"

definition approvalRuleMatchesPath :: "ApprovalRule \<Rightarrow> string \<Rightarrow> bool" where
  "approvalRuleMatchesPath rule reqPath =
     (let p = ar_TargetMountPath rule in
      if p = ''*'' then True
      else if has_suffix p ''/*'' then
        (let pfx = trim_suffix p ''/*'' in reqPath = pfx \<or> has_prefix reqPath (pfx @ ''/''))
      else p = reqPath)"

section \<open>Deduplication guard\<close>

fun active_loop :: "core \<Rightarrow> Request \<Rightarrow> string list \<Rightarrow> (world, Response option) state" where
  "active_loop c req [] = ret None"
| "active_loop c req (key # keys) = do {
     r \<leftarrow> read_pending c key;
     (case r of
        None \<Rightarrow> active_loop c req keys
      | Some existing \<Rightarrow>
          if pr_RequesterEntityID existing \<noteq> rq_EntityID req
             \<or> pr_OriginalPath existing \<noteq> rq_Path req then active_loop c req keys
          else if pr_Status existing = ''pending'' then do {
            now \<leftarrow> now_UTC;
            if now < pr_ExpiresAt existing then
              ret (Some (RespondWithStatusCode
                (Some (ErrorResponse
                  ''you already have a pending approval request for %q (request ID: %s). Please wait for an admin to review it before submitting again.''
                  [GStr (rq_Path req), GStr (pr_RequestID existing)]))
                (Some req) 400))
            else do {
              _ \<leftarrow> st_Delete c (pending_key key);
              active_loop c req keys
            }
          }
          else if pr_Status existing = ''approved'' then do {
            active \<leftarrow> (if pr_CredentialData existing \<noteq> None \<and> \<not> is_zero (pr_ApprovedAt existing)
                       then do { d \<leftarrow> time_Since (pr_ApprovedAt existing);
                                 ret (d < approvalCredentialTTL) }
                       else ret False);
            if active then do {
              d \<leftarrow> time_Since (pr_ApprovedAt existing);
              ret (Some (RespondWithStatusCode
                (Some (ErrorResponse
                  ''you have an approved, unread credential for %q ready to retrieve (request ID: %s, expires in %d minutes). Please visit the 'My Requests' tab to view it before requesting a new one.''
                  [GStr (rq_Path req), GStr (pr_RequestID existing),
                   GInt (whole_units minute (approvalCredentialTTL - d))]))
                (Some req) 400))
            }
            else do {
              _ \<leftarrow> st_Delete c (pending_key key);
              active_loop c req keys
            }
          }
          else active_loop c req keys)
   }"

definition checkActiveApprovalRequest :: "core \<Rightarrow> Request \<Rightarrow> (world, Response option) state" where
  "checkActiveApprovalRequest c req = do {
     l \<leftarrow> st_List c ''pending/'';
     (case l of Inl _ \<Rightarrow> ret None | Inr keys \<Rightarrow> active_loop c req keys)
   }"

section \<open>Slack message\<close>

definition nl :: string where
  "nl = [char_of (10::nat)]"

definition short_name :: "string \<Rightarrow> string" where
  "short_name name =
     (case index_byte name (CHR ''@'') of
        Some idx \<Rightarrow> if idx > 0 then take idx name else name
      | None \<Rightarrow> name)"

definition slackMessage ::
  "ApprovalRule \<Rightarrow> PendingRequest \<Rightarrow> string list \<Rightarrow> string \<Rightarrow> string" where
  "slackMessage rule r approverNames vaultAddr =
     (let approvalsText = (if ar_ApprovalsRequired rule > 1
            then show_int (ar_ApprovalsRequired rule) @ '' approvals required''
            else ''1 approval required'');
          q = [char_of (34::nat)];
          bt = [char_of (96::nat)];
          justificationLine = (if pr_Justification r \<noteq> []
            then ''*Justification:* '' @ q @ pr_Justification r @ q @ nl else []);
          approversLine = (if approverNames \<noteq> []
            then ''*Authorized approvers:* '' @ join_with '', '' (map short_name approverNames) @ nl
            else []);
          vaultLink = (if vaultAddr \<noteq> []
            then nl @ ''<'' @ vaultAddr @ ''/ui/vault/access/approvals/requests|Review in Vault UI>''
            else [])
      in ''<!here> *[Vault] Credential Request Pending Approval*'' @ nl
         @ ''*Requester:* '' @ pr_RequesterDisplayName r @ nl
         @ justificationLine
         @ ''*Path:* '' @ bt @ pr_OriginalPath r @ bt @ nl
         @ ''*Rule:* '' @ bt @ ar_RuleID rule @ bt @ nl
         @ ''*Request ID:* '' @ bt @ pr_RequestID r @ bt @ nl
         @ ''*Requires:* '' @ approvalsText @ nl
         @ approversLine
         @ ''*Expires:* '' @ format_utc (pr_ExpiresAt r) @ nl @ nl
         @ ''To approve:  '' @ bt @ ''vault write sys/approvals/approve/'' @ pr_RequestID r @ bt @ nl
         @ ''To deny:     '' @ bt @ ''vault write sys/approvals/deny/'' @ pr_RequestID r @ bt
         @ vaultLink)"

text \<open>The goroutine that posts the message is modelled by what it sends, and to which URL.\<close>

definition sendApprovalSlackNotification ::
  "ApprovalRule \<Rightarrow> PendingRequest \<Rightarrow> string list \<Rightarrow> string \<Rightarrow> (world, unit) state" where
  "sendApprovalSlackNotification rule r approverNames vaultAddr =
     State (\<lambda>w. ((), w\<lparr>w_slack :=
       w_slack w @ [(ar_SlackWebhookURL rule, slackMessage rule r approverNames vaultAddr)]\<rparr>))"

section \<open>The interceptor\<close>

definition intercept_path :: "string \<Rightarrow> bool" where
  "intercept_path p \<longleftrightarrow>
     \<not> (has_prefix p ''sys/'' \<or> has_prefix p ''auth/'' \<or> has_prefix p ''cubbyhole/''
        \<or> has_prefix p ''identity/'')"

definition intercept_op :: "operation \<Rightarrow> bool" where
  "intercept_op op \<longleftrightarrow> op = ReadOperation \<or> op = UpdateOperation \<or> op = CreateOperation"

fun match_rule_loop :: "core \<Rightarrow> string \<Rightarrow> string list \<Rightarrow> (world, ApprovalRule option) state" where
  "match_rule_loop c path [] = ret None"
| "match_rule_loop c path (key # keys) = do {
     r \<leftarrow> read_rule c key;
     (case r of
        None \<Rightarrow> match_rule_loop c path keys
      | Some rule \<Rightarrow>
          if approvalRuleMatchesPath rule path then ret (Some rule)
          else match_rule_loop c path keys)
   }"

definition blockedHeaders :: "string list" where
  "blockedHeaders =
     [''X-Vault-Token'', ''Authorization'', ''X-Vault-Wrap-Ttl'', ''X-Vault-Wrap-Format'',
      ''X-Vault-Namespace'', ''X-Vault-Mfa'']"

definition safeHeaders :: "headers \<Rightarrow> headers" where
  "safeHeaders hs = filter (\<lambda>(k, _). CanonicalHeaderKey k \<notin> set blockedHeaders) hs"

definition request_justification :: "headers \<Rightarrow> string" where
  "request_justification hs =
     (case map_of hs ''X-Vault-Justification'' of
        Some (v # _) \<Rightarrow> sanitizeJustification v
      | _ \<Rightarrow> [])"

definition approver_name :: "core \<Rightarrow> string \<Rightarrow> string" where
  "approver_name c entityID =
     (case c_identityStore c of
        None \<Rightarrow> entityID
      | Some lookup \<Rightarrow>
          (case lookup entityID of
             Inr (Some name) \<Rightarrow> if name \<noteq> [] then name else entityID
           | _ \<Rightarrow> entityID))"

definition new_pending :: "string \<Rightarrow> ApprovalRule \<Rightarrow> Request \<Rightarrow> time \<Rightarrow> PendingRequest" where
  "new_pending rid rule req now =
     \<lparr>pr_RequestID = rid, pr_RuleID = ar_RuleID rule, pr_OriginalPath = rq_Path req,
      pr_OriginalOperation = rq_Operation req, pr_OriginalData = rq_Data req,
      pr_OriginalHeaders = safeHeaders (rq_Headers req),
      pr_OriginalMountPoint = rq_MountPoint req, pr_RequesterEntityID = rq_EntityID req,
      pr_RequesterDisplayName = rq_DisplayName req, pr_Approvals = [], pr_Status = ''pending'',
      pr_CreatedAt = now, pr_ExpiresAt = now + approvalRequestTTL, pr_CredentialData = None,
      pr_ApprovedAt = 0, pr_SecretTTL = 0, pr_SecretMaxTTL = 0,
      pr_Justification = request_justification (rq_Headers req)\<rparr>"

definition park_request ::
  "core \<Rightarrow> Request \<Rightarrow> ApprovalRule \<Rightarrow> (world, Response option \<times> bool \<times> err option) state" where
  "park_request c req matchedRule = do {
     rid \<leftarrow> GenerateUUID;
     (case rid of
        None \<Rightarrow> ret (None, False, Some (ErrWrap ''approval: failed to generate request ID'' ErrUUID))
      | Some rid \<Rightarrow> do {
          now \<leftarrow> now_UTC;
          let pending = new_pending rid matchedRule req now;
          r \<leftarrow> storePendingRequest c pending;
          (case r of
             Inl e \<Rightarrow>
               ret (None, False, Some (ErrWrap ''approval: failed to store pending request'' e))
           | Inr _ \<Rightarrow> do {
               (if ar_SlackWebhookURL matchedRule \<noteq> [] then
                  sendApprovalSlackNotification matchedRule pending
                    (map (approver_name c) (ar_AuthorizedApprovers matchedRule)) (c_redirectAddr c)
                else ret ());
               ret (Some (RespondWithStatusCode
                      (Some (dataResponse
                        [(''status'', GStr ''pending''), (''request_id'', GStr rid),
                         (''message'', GStr ''Request is pending approval'')]))
                      (Some req) 202), True, None)
             })
        })
   }"

definition checkNeedsApproval ::
  "core \<Rightarrow> Request \<Rightarrow> string list option \<Rightarrow> (world, Response option \<times> bool \<times> err option) state" where
  "checkNeedsApproval c req auth =
     (if \<not> intercept_path (rq_Path req) then ret (None, False, None)
      else if \<not> intercept_op (rq_Operation req) then ret (None, False, None)
      else if (case auth of None \<Rightarrow> False | Some policies \<Rightarrow> ''root'' \<in> set policies)
        then ret (None, False, None)
      else do {
        l \<leftarrow> st_List c ''config/'';
        (case l of
           Inl e \<Rightarrow> ret (None, False, Some e)
         | Inr [] \<Rightarrow> ret (None, False, None)
         | Inr ruleKeys \<Rightarrow> do {
             m \<leftarrow> match_rule_loop c (rq_Path req) ruleKeys;
             (case m of
                None \<Rightarrow> ret (None, False, None)
              | Some matchedRule \<Rightarrow> do {
                  blocked \<leftarrow> (if rq_EntityID req \<noteq> [] then checkActiveApprovalRequest c req
                              else ret None);
                  (case blocked of
                     Some resp \<Rightarrow> ret (Some resp, True, None)
                   | None \<Rightarrow> park_request c req matchedRule)
                })
           })
      })"

text \<open>
  The end of \<open>handleRequest\<close>: a request that passed the token and policy checks is handed to
  the interceptor, unless the context carries the bypass key, and then routed.
\<close>

definition handleRequest_route ::
  "core \<Rightarrow> bool \<Rightarrow> Request \<Rightarrow> string list option \<Rightarrow> (world, err + Response option) state" where
  "handleRequest_route c isApprovalBypass req auth =
     (if isApprovalBypass then doRouting c req
      else do {
        a \<leftarrow> checkNeedsApproval c req auth;
        (case a of
           (approvalResp, intercepted, approvalErr) \<Rightarrow>
             if intercepted \<or> approvalErr \<noteq> None
             then ret (case approvalErr of Some e \<Rightarrow> Inl e | None \<Rightarrow> Inr approvalResp)
             else doRouting c req)
      })"

section \<open>The executor\<close>

definition reconstruct_request :: "string \<Rightarrow> PendingRequest \<Rightarrow> Request" where
  "reconstruct_request execID pending =
     \<lparr>rq_ID = execID, rq_Operation = pr_OriginalOperation pending,
      rq_Path = pr_OriginalPath pending, rq_Data = pr_OriginalData pending,
      rq_Headers = pr_OriginalHeaders pending, rq_ClientToken = [],
      rq_DisplayName = pr_RequesterDisplayName pending,
      rq_MountPoint = pr_OriginalMountPoint pending, rq_WrapInfo = None,
      rq_EntityID = pr_RequesterEntityID pending\<rparr>"

definition capture_response :: "Response option \<Rightarrow> PendingRequest \<Rightarrow> PendingRequest" where
  "capture_response resp pending =
     (case resp of
        None \<Rightarrow> pending\<lparr>pr_CredentialData := Some []\<rparr>
      | Some r \<Rightarrow>
          (let p1 = (case rs_Secret r of
                       None \<Rightarrow> pending
                     | Some s \<Rightarrow> pending\<lparr>pr_SecretTTL := lo_TTL s, pr_SecretMaxTTL := lo_MaxTTL s\<rparr>)
           in p1\<lparr>pr_CredentialData := Some (rs_Data r)\<rparr>))"

text \<open>
  The executor updates the caller's record in place; the model returns the record with the
  outcome, also when the final write fails.
\<close>

definition executeApprovedRequest ::
  "core \<Rightarrow> PendingRequest \<Rightarrow> (world, (err + unit) \<times> PendingRequest) state" where
  "executeApprovedRequest c pending = do {
     u \<leftarrow> GenerateUUID;
     (case u of
        None \<Rightarrow> ret (Inl (ErrWrap ''approval: failed to generate execution ID'' ErrUUID), pending)
      | Some execID \<Rightarrow> do {
          resp \<leftarrow> doRouting c (reconstruct_request execID pending);
          (case resp of
             Inl e \<Rightarrow> ret (Inl (ErrWrap ''approval: backend execution failed'' e), pending)
           | Inr r \<Rightarrow> do {
               now \<leftarrow> now_UTC;
               let pending' = (capture_response r pending)\<lparr>pr_ApprovedAt := now\<rparr>;
               s \<leftarrow> storePendingRequest c pending';
               ret (s, pending')
             })
        })
   }"

section \<open>History\<close>

definition storeHistoryEntry :: "core \<Rightarrow> ApprovalHistoryEntry \<Rightarrow> (world, err + unit) state" where
  "storeHistoryEntry c h = st_Put c (history_key (ah_RequestID h)) (DHistory (json_history h))"

fun history_loop ::
  "core \<Rightarrow> time \<Rightarrow> string list \<Rightarrow> (world, ApprovalHistoryEntry list) state" where
  "history_loop c now [] = ret []"
| "history_loop c now (key # keys) = do {
     r \<leftarrow> st_Get c (history_key key);
     (case (case r of Inr (Some (_, d)) \<Rightarrow> decode_history d | _ \<Rightarrow> None) of
        None \<Rightarrow> history_loop c now keys
      | Some h \<Rightarrow>
          if now > ah_HistoryExpiresAt h then do {
            _ \<leftarrow> st_Delete c (history_key key);
            history_loop c now keys
          }
          else do { hs \<leftarrow> history_loop c now keys; ret (h # hs) })
   }"

definition listAllHistoryEntries :: "core \<Rightarrow> (world, err + ApprovalHistoryEntry list) state" where
  "listAllHistoryEntries c = do {
     l \<leftarrow> st_List c ''history/'';
     (case l of
        Inl e \<Rightarrow> ret (Inl e)
      | Inr keys \<Rightarrow> do { now \<leftarrow> now_UTC; hs \<leftarrow> history_loop c now keys; ret (Inr hs) })
   }"

definition listHistoryEntriesForUser ::
  "core \<Rightarrow> string \<Rightarrow> (world, err + ApprovalHistoryEntry list) state" where
  "listHistoryEntriesForUser c entityID = do {
     a \<leftarrow> listAllHistoryEntries c;
     ret (map_sum id (filter (\<lambda>h. ah_RequesterEntityID h = entityID)) a)
   }"

end
