(* ===== verification/Approval_Logic.thy ===== *)
theory Approval_Logic
  imports Approval_Core
begin

text \<open>
  The proof rules for programs over the approval storage: the contents of the approval view as
  a map from keys to documents, the outcome of each primitive operation on it, document
  invariants kept by the primitives, and frame relations that every program built from the
  primitives respects.
\<close>

definition approvals :: "core \<Rightarrow> world \<Rightarrow> string \<rightharpoonup> doc" where
  "approvals c w = view_abs (approvalStorage c) (w_store w)"

definition world_ok :: "core \<Rightarrow> world \<Rightarrow> bool" where
  "world_ok c w \<longleftrightarrow> view_ok (approvalStorage c) (w_store w)"

text \<open>
  \<open>doc_inv c U D\<close>: the storage works, every stored document has \<open>D\<close> at its key, and the UUIDs
  still to be drawn have \<open>U\<close>.
\<close>

definition doc_inv :: "core \<Rightarrow> (string \<Rightarrow> bool) \<Rightarrow> (string \<Rightarrow> doc \<Rightarrow> bool) \<Rightarrow> world \<Rightarrow> bool" where
  "doc_inv c U D w \<longleftrightarrow> world_ok c w \<and> (\<forall>k d. approvals c w k = Some d \<longrightarrow> D k d)
     \<and> (\<forall>n u. w_uuids w n = Some u \<longrightarrow> U u)"

section \<open>The primitive operations on the contents\<close>

lemma approvals_simps [simp]:
  "approvals c (pop_fault w) = approvals c w"
  "approvals c (w\<lparr>w_ticks := t\<rparr>) = approvals c w"
  "approvals c (w\<lparr>w_draws := n\<rparr>) = approvals c w"
  "approvals c (w\<lparr>w_routed := rs\<rparr>) = approvals c w"
  "approvals c (w\<lparr>w_slack := m\<rparr>) = approvals c w"
  "approvals c (w\<lparr>w_faults := fs\<rparr>) = approvals c w"
  by (simp_all add: approvals_def pop_fault_def)

lemma world_ok_simps [simp]:
  "world_ok c (pop_fault w) = world_ok c w"
  "world_ok c (w\<lparr>w_ticks := t\<rparr>) = world_ok c w"
  "world_ok c (w\<lparr>w_draws := n\<rparr>) = world_ok c w"
  "world_ok c (w\<lparr>w_routed := rs\<rparr>) = world_ok c w"
  "world_ok c (w\<lparr>w_slack := m\<rparr>) = world_ok c w"
  "world_ok c (w\<lparr>w_faults := fs\<rparr>) = world_ok c w"
  by (simp_all add: world_ok_def pop_fault_def)

lemma with_fault_ok: "world_ok c w \<Longrightarrow> with_fault False (w_store w) = w_store w"
  by (cases "w_store w") (simp add: world_ok_def view_ok_def inmem_ok_def with_fault_def)

lemma with_fault_False [simp]: "with_fault False (with_fault f i) = with_fault False i"
  by (simp add: with_fault_def)

lemma run_Get:
  assumes "world_ok c w"
  shows "run_state (st_Get c k) w =
    (if \<not> SanityCheck k then Inl ErrRelativePath
     else if faulty w then Inl GetDisabledError
     else Inr (map_option (Pair k) (approvals c w k)), pop_fault w)"
proof (cases "SanityCheck k \<and> \<not> faulty w")
  case True
  with assms show ?thesis
    by (simp add: st_Get_def with_fault_ok approvals_def bview.get_abs world_ok_def)
next
  case False
  then show ?thesis
    by (auto simp: st_Get_def bv_Get_def sv_Get_def GetInternal_def with_fault_def)
qed

lemma run_List:
  assumes "world_ok c w" "SanityCheck p" "\<not> faulty w"
  obtains ks where "run_state (st_List c p) w = (Inr ks, pop_fault w)"
    and "set ks = children (dom (approvals c w)) p"
  using bview.list_abs [of "approvalStorage c" "w_store w" p] assms that
  by (auto simp: st_List_def with_fault_ok approvals_def world_ok_def)

lemma run_List_faulty:
  "SanityCheck p \<Longrightarrow> faulty w \<Longrightarrow> run_state (st_List c p) w = (Inl ListDisabledError, pop_fault w)"
  by (simp add: st_List_def bv_List_def sv_List_def ListInternal_def with_fault_def)

lemma snd_run_List [simp]: "snd (run_state (st_List c p) w) = pop_fault w"
  by (simp add: st_List_def)

lemma snd_run_Get [simp]: "snd (run_state (st_Get c k) w) = pop_fault w"
  by (simp add: st_Get_def)

lemma faulty_put: "i = w_store w \<Longrightarrow>
  bv_Put v vs False (Some (k, d)) (with_fault True i) = (r, i') \<Longrightarrow>
  i' = with_fault True i \<and> (\<exists>e. r = Inl e)"
  by (auto simp: bv_Put_def sv_Put_def PutInternal_def runICheck_def with_fault_def
      split: if_splits option.splits)

lemma faulty_delete: "i = w_store w \<Longrightarrow>
  bv_Delete v False k (with_fault True i) = (r, i') \<Longrightarrow>
  i' = with_fault True i \<and> (\<exists>e. r = Inl e)"
  by (auto simp: bv_Delete_def sv_Delete_def DeleteInternal_def runICheck_def with_fault_def
      split: if_splits option.splits)

lemma world_store: "(pop_fault w)\<lparr>w_store := w_store w\<rparr> = pop_fault w"
  by (simp add: pop_fault_def)

lemma run_Put:
  assumes "world_ok c w" "SanityCheck k"
  obtains (fault) e where "faulty w" "run_state (st_Put c k d) w = (Inl e, pop_fault w)"
  | (stored) i where "\<not> faulty w" "run_state (st_Put c k d) w = (Inr (), (pop_fault w)\<lparr>w_store := i\<rparr>)"
      "world_ok c ((pop_fault w)\<lparr>w_store := i\<rparr>)"
      "approvals c ((pop_fault w)\<lparr>w_store := i\<rparr>) = (approvals c w)(k \<mapsto> d)"
proof (cases "faulty w")
  case True
  obtain r i where ri: "bv_Put (approvalStorage c) (\<lambda>_. 0) False (Some (k, d))
      (with_fault True (w_store w)) = (r, i)" by fastforce
  from faulty_put [OF refl ri] obtain e where "i = with_fault True (w_store w)" "r = Inl e"
    by blast
  with assms True ri show ?thesis
    by (intro fault [of e]) (auto simp: st_Put_def with_fault_ok world_store)
next
  case False
  obtain r i where ri: "bv_Put (approvalStorage c) (\<lambda>_. 0) False (Some (k, d)) (w_store w) = (r, i)"
    by fastforce
  have ok: "view_ok (approvalStorage c) (w_store w)" using assms by (simp add: world_ok_def)
  have "view_ok (approvalStorage c) i"
    using bview.put_invar [OF ok, of "\<lambda>_. 0" "Some (k, d)"] ri by simp
  moreover have "r = Inr ()"
    using bview.put_ok [OF ok assms(2), of "\<lambda>_. 0" d] ri by simp
  moreover have "view_abs (approvalStorage c) i = (approvals c w)(k \<mapsto> d)"
    using bview.put_abs [OF ok assms(2), of "\<lambda>_. 0" d] ri by (simp add: approvals_def)
  moreover from calculation(1) have "with_fault False i = i"
    by (cases i) (simp add: view_ok_def inmem_ok_def with_fault_def)
  ultimately show ?thesis
    using False assms ri
    by (intro stored [of i])
       (auto simp: st_Put_def with_fault_ok approvals_def world_ok_def)
qed

lemma run_Delete:
  assumes "world_ok c w" "SanityCheck k"
  obtains (fault) e where "faulty w" "run_state (st_Delete c k) w = (Inl e, pop_fault w)"
  | (stored) i where "\<not> faulty w" "run_state (st_Delete c k) w = (Inr (), (pop_fault w)\<lparr>w_store := i\<rparr>)"
      "world_ok c ((pop_fault w)\<lparr>w_store := i\<rparr>)"
      "approvals c ((pop_fault w)\<lparr>w_store := i\<rparr>) = (approvals c w)(k := None)"
proof (cases "faulty w")
  case True
  obtain r i where ri: "bv_Delete (approvalStorage c) False k
      (with_fault True (w_store w)) = (r, i)" by fastforce
  from faulty_delete [OF refl ri] obtain e where "i = with_fault True (w_store w)" "r = Inl e"
    by blast
  with assms True ri show ?thesis
    by (intro fault [of e]) (auto simp: st_Delete_def with_fault_ok world_store)
next
  case False
  obtain r i where ri: "bv_Delete (approvalStorage c) False k (w_store w) = (r, i)"
    by fastforce
  have ok: "view_ok (approvalStorage c) (w_store w)" using assms by (simp add: world_ok_def)
  have "view_ok (approvalStorage c) i"
    using bview.delete_invar [OF ok, of k] ri by simp
  moreover have "r = Inr ()"
    using bview.delete_ok [OF ok assms(2)] ri by simp
  moreover have "view_abs (approvalStorage c) i = (approvals c w)(k := None)"
    using bview.delete_abs [OF ok assms(2)] ri by (simp add: approvals_def)
  moreover from calculation(1) have "with_fault False i = i"
    by (cases i) (simp add: view_ok_def inmem_ok_def with_fault_def)
  ultimately show ?thesis
    using False assms ri
    by (intro stored [of i])
       (auto simp: st_Delete_def with_fault_ok approvals_def world_ok_def)
qed

section \<open>Document invariants\<close>

lemma pop_fault_simps [simp]:
  "w_store (pop_fault w) = w_store w" "w_clock (pop_fault w) = w_clock w"
  "w_ticks (pop_fault w) = w_ticks w" "w_uuids (pop_fault w) = w_uuids w"
  "w_draws (pop_fault w) = w_draws w" "w_routed (pop_fault w) = w_routed w"
  "w_slack (pop_fault w) = w_slack w" "w_faults (pop_fault w) = tl (w_faults w)"
  by (simp_all add: pop_fault_def)

lemma doc_inv_simps [simp]:
  "doc_inv c U D (pop_fault w) = doc_inv c U D w"
  "doc_inv c U D (w\<lparr>w_ticks := t\<rparr>) = doc_inv c U D w"
  "doc_inv c U D (w\<lparr>w_draws := n\<rparr>) = doc_inv c U D w"
  "doc_inv c U D (w\<lparr>w_routed := rs\<rparr>) = doc_inv c U D w"
  "doc_inv c U D (w\<lparr>w_slack := m\<rparr>) = doc_inv c U D w"
  by (simp_all add: doc_inv_def)

lemma doc_invD: "doc_inv c U D w \<Longrightarrow> approvals c w k = Some d \<Longrightarrow> D k d"
  by (simp add: doc_inv_def)

lemma st_Put_insane: "\<not> SanityCheck k \<Longrightarrow> world_ok c w \<Longrightarrow>
  run_state (st_Put c k d) w = (Inl ErrRelativePath, pop_fault w)"
  by (auto simp: st_Put_def bv_Put_def sv_Put_def world_ok_def view_ok_def runICheck_def with_fault_ok
      world_store split: option.splits)

lemma st_Delete_insane: "\<not> SanityCheck k \<Longrightarrow> world_ok c w \<Longrightarrow>
  run_state (st_Delete c k) w = (Inl ErrRelativePath, pop_fault w)"
  by (auto simp: st_Delete_def bv_Delete_def sv_Delete_def world_ok_def view_ok_def runICheck_def
      with_fault_ok world_store split: option.splits)

lemma keeps_Get: "keeps (doc_inv c U D) (st_Get c k) (\<lambda>r. \<forall>k' d. r = Inr (Some (k', d)) \<longrightarrow> D k d)"
  by (rule keepsI) (auto simp: run_Get doc_inv_def split: if_splits)

lemma keeps_List: "keeps (doc_inv c U D) (st_List c p) (\<lambda>_. True)"
  by (simp add: keeps_def)

lemma keeps_Put:
  assumes "D k d"
  shows "keeps (doc_inv c U D) (st_Put c k d) (\<lambda>_. True)"
proof (rule keepsI)
  fix w a w' assume w: "doc_inv c U D w" and run: "run_state (st_Put c k d) w = (a, w')"
  then have ok: "world_ok c w" by (simp add: doc_inv_def)
  show "doc_inv c U D w' \<and> True"
  proof (cases "SanityCheck k")
    case True
    from ok True show ?thesis
    proof (cases rule: run_Put [where d = d])
      case (stored i)
      with w run assms show ?thesis by (auto simp: doc_inv_def)
    qed (use w run in auto)
  qed (use ok w run st_Put_insane in auto)
qed

lemma keeps_Delete: "keeps (doc_inv c U D) (st_Delete c k) (\<lambda>_. True)"
proof (rule keepsI)
  fix w a w' assume w: "doc_inv c U D w" and run: "run_state (st_Delete c k) w = (a, w')"
  then have ok: "world_ok c w" by (simp add: doc_inv_def)
  show "doc_inv c U D w' \<and> True"
  proof (cases "SanityCheck k")
    case True
    from ok True show ?thesis
    proof (cases rule: run_Delete)
      case (stored i)
      with w run show ?thesis by (auto simp: doc_inv_def split: if_splits)
    qed (use w run in auto)
  qed (use ok w run st_Delete_insane in auto)
qed

lemma keeps_now: "keeps (doc_inv c U D) now_UTC (\<lambda>_. True)"
  by (simp add: keeps_def now_UTC_def)

lemma keeps_Since: "keeps (doc_inv c U D) (time_Since t) (\<lambda>_. True)"
  by (simp add: keeps_def time_Since_def now_UTC_def)

lemma keeps_UUID: "keeps (doc_inv c U D) GenerateUUID (\<lambda>r. \<forall>u. r = Some u \<longrightarrow> U u)"
  by (auto simp: keeps_def GenerateUUID_def doc_inv_def)

lemma keeps_routing: "keeps (doc_inv c U D) (doRouting c req) (\<lambda>_. True)"
  by (simp add: keeps_def doRouting_def)

lemma keeps_slack: "keeps (doc_inv c U D) (sendApprovalSlackNotification rule p names addr) (\<lambda>_. True)"
  by (simp add: keeps_def sendApprovalSlackNotification_def)

lemmas keeps_prims = keeps_Get keeps_List keeps_Delete keeps_now keeps_Since keeps_UUID keeps_routing
  keeps_slack

lemma keeps_getApprovalRule:
  "keeps (doc_inv c U D) (getApprovalRule c ruleID)
     (\<lambda>r. \<forall>rule. r = Inr (Some rule) \<longrightarrow> (\<exists>d. D (config_key ruleID) d \<and> decode_rule d = Some rule))"
  unfolding getApprovalRule_def
  by (rule keeps_bind [OF keeps_Get keeps_return]) (auto split: sum.splits option.splits)

lemma keeps_getPendingRequest:
  "keeps (doc_inv c U D) (getPendingRequest c rid)
     (\<lambda>r. \<forall>p. r = Inr (Some p) \<longrightarrow> (\<exists>d. D (pending_key rid) d \<and> decode_pending d = Some p))"
  unfolding getPendingRequest_def
  by (rule keeps_bind [OF keeps_Get keeps_return]) (auto split: sum.splits option.splits)

lemma keeps_read_pending:
  "keeps (doc_inv c U D) (read_pending c key)
     (\<lambda>r. \<forall>p. r = Some p \<longrightarrow> (\<exists>d. D (pending_key key) d \<and> decode_pending d = Some p))"
  unfolding read_pending_def
  by (rule keeps_bind [OF keeps_Get keeps_return]) (auto split: sum.splits option.splits)

lemma keeps_read_rule:
  "keeps (doc_inv c U D) (read_rule c key)
     (\<lambda>r. \<forall>rule. r = Some rule \<longrightarrow> (\<exists>d. D (config_key key) d \<and> decode_rule d = Some rule))"
  unfolding read_rule_def
  by (rule keeps_bind [OF keeps_Get keeps_return]) (auto split: sum.splits option.splits)

lemma keeps_putApprovalRule:
  "D (config_key (ar_RuleID rule)) (DRule (json_rule rule)) \<Longrightarrow>
   keeps (doc_inv c U D) (putApprovalRule c rule) (\<lambda>_. True)"
  unfolding putApprovalRule_def by (rule keeps_Put)

lemma keeps_storePendingRequest:
  "D (pending_key (pr_RequestID p)) (DPending (json_pending p)) \<Longrightarrow>
   keeps (doc_inv c U D) (storePendingRequest c p) (\<lambda>_. True)"
  unfolding storePendingRequest_def by (rule keeps_Put)

lemma keeps_storeHistoryEntry:
  "D (history_key (ah_RequestID h)) (DHistory (json_history h)) \<Longrightarrow>
   keeps (doc_inv c U D) (storeHistoryEntry c h) (\<lambda>_. True)"
  unfolding storeHistoryEntry_def by (rule keeps_Put)

lemma keeps_sweep_loop: "keeps (doc_inv c U D) (sweep_loop c ruleID keys) (\<lambda>_. True)"
  by (induction keys)
     (auto intro!: keeps_rules keeps_bind [OF keeps_read_pending] keeps_bind [OF keeps_Delete]
        intro: keeps_bind)

lemma keeps_sweep: "keeps (doc_inv c U D) (sweepPendingRequestsByRule c ruleID) (\<lambda>_. True)"
  unfolding sweepPendingRequestsByRule_def
  by (auto intro!: keeps_rules keeps_bind [OF keeps_List] keeps_bind [OF keeps_sweep_loop])

lemma keeps_match_rule_loop:
  "keeps (doc_inv c U D) (match_rule_loop c path keys)
     (\<lambda>r. \<forall>rule. r = Some rule \<longrightarrow> approvalRuleMatchesPath rule path \<and>
        (\<exists>key \<in> set keys. \<exists>d. D (config_key key) d \<and> decode_rule d = Some rule))"
  by (induction keys)
     (auto intro!: keeps_rules keeps_bind [OF keeps_read_rule] intro: keeps_weaken)

lemma keeps_active_loop: "keeps (doc_inv c U D) (active_loop c req keys) (\<lambda>_. True)"
  by (induction keys)
     (auto intro!: keeps_rules keeps_bind [OF keeps_read_pending] keeps_bind [OF keeps_now]
        keeps_bind [OF keeps_Delete] keeps_bind [OF keeps_Since]
        keeps_bind [where R = "\<lambda>_. True" and Q = "\<lambda>_. True"])

lemma keeps_checkActive: "keeps (doc_inv c U D) (checkActiveApprovalRequest c req) (\<lambda>_. True)"
  unfolding checkActiveApprovalRequest_def
  by (auto intro!: keeps_rules keeps_bind [OF keeps_List] keeps_active_loop)

lemma keeps_history_loop:
  "keeps (doc_inv c U D) (history_loop c now keys)
     (\<lambda>hs. \<forall>h \<in> set hs. now \<le> ah_HistoryExpiresAt h \<and>
        (\<exists>key \<in> set keys. \<exists>d. D (history_key key) d \<and> decode_history d = Some h))"
proof (induction keys)
  case (Cons key keys)
  then show ?case
    by (auto intro!: keeps_rules keeps_bind [OF keeps_Get] keeps_bind [OF keeps_Delete]
        keeps_bind [OF Cons.IH] intro: keeps_weaken split: sum.splits option.splits)
       blast+
qed (simp add: keeps_return)

section \<open>Frames\<close>

text \<open>
  A frame is a reflexive and transitive relation on worlds that the storage calls, the clock
  and the UUID source respect; every program built from them respects it. The two extensions
  add the dispatch to backends and the notification.
\<close>

locale frame =
  fixes R :: "world \<Rightarrow> world \<Rightarrow> bool" and c :: core
  assumes R_frame: "frame_rel R"
    and R_put: "steps R (st_Put c k d)"
    and R_delete: "steps R (st_Delete c k)"
    and R_pop: "R w (pop_fault w)"
    and R_tick: "R w (w\<lparr>w_ticks := Suc (w_ticks w)\<rparr>)"
    and R_draw: "R w (w\<lparr>w_draws := Suc (w_draws w)\<rparr>)"
begin

lemmas bind = steps_bind [OF R_frame]
lemmas done_rule = steps_return [OF R_frame]

lemma get_steps: "steps R (st_Get c k)"
  by (simp add: steps_def R_pop)

lemma list_steps: "steps R (st_List c p)"
  by (simp add: steps_def R_pop)

lemma now_steps: "steps R now_UTC"
  by (simp add: steps_def now_UTC_def R_tick)

lemma since_steps: "steps R (time_Since t)"
  unfolding time_Since_def by (intro bind now_steps done_rule)

lemma uuid_steps: "steps R GenerateUUID"
  by (simp add: steps_def GenerateUUID_def R_draw)

lemmas prims = steps_rules bind done_rule R_put R_delete get_steps list_steps now_steps since_steps
  uuid_steps

lemma getApprovalRule_steps: "steps R (getApprovalRule c ruleID)"
  unfolding getApprovalRule_def by (intro prims)

lemma getPendingRequest_steps: "steps R (getPendingRequest c rid)"
  unfolding getPendingRequest_def by (intro prims)

lemma read_pending_steps: "steps R (read_pending c key)"
  unfolding read_pending_def by (intro prims)

lemma read_rule_steps: "steps R (read_rule c key)"
  unfolding read_rule_def by (intro prims)

lemma putApprovalRule_steps: "steps R (putApprovalRule c rule)"
  unfolding putApprovalRule_def by (intro prims)

lemma storePendingRequest_steps: "steps R (storePendingRequest c p)"
  unfolding storePendingRequest_def by (intro prims)

lemma storeHistoryEntry_steps: "steps R (storeHistoryEntry c h)"
  unfolding storeHistoryEntry_def by (intro prims)

lemmas calls = prims getApprovalRule_steps getPendingRequest_steps read_pending_steps read_rule_steps
  putApprovalRule_steps storePendingRequest_steps storeHistoryEntry_steps

lemma sweep_loop_steps: "steps R (sweep_loop c ruleID keys)"
  by (induction keys) (auto intro!: calls)

lemma sweep_steps: "steps R (sweepPendingRequestsByRule c ruleID)"
  unfolding sweepPendingRequestsByRule_def by (intro calls sweep_loop_steps)

lemma active_loop_steps: "steps R (active_loop c req keys)"
  by (induction keys) (auto intro!: calls)

lemma checkActive_steps: "steps R (checkActiveApprovalRequest c req)"
  unfolding checkActiveApprovalRequest_def by (intro calls active_loop_steps)

lemma match_rule_loop_steps: "steps R (match_rule_loop c path keys)"
  by (induction keys) (auto intro!: calls)

lemma history_loop_steps: "steps R (history_loop c now keys)"
  by (induction keys) (auto intro!: calls)

lemma listAllHistory_steps: "steps R (listAllHistoryEntries c)"
  unfolding listAllHistoryEntries_def by (intro calls history_loop_steps)

lemma listHistoryForUser_steps: "steps R (listHistoryEntriesForUser c entityID)"
  unfolding listHistoryEntriesForUser_def by (intro calls listAllHistory_steps)

lemmas engine = calls sweep_steps checkActive_steps match_rule_loop_steps listAllHistory_steps
  listHistoryForUser_steps

end

locale slack_frame = frame +
  assumes R_slack: "R w (w\<lparr>w_slack := w_slack w @ m\<rparr>)"
begin

lemma slack_steps: "steps R (sendApprovalSlackNotification rule p names addr)"
  by (simp add: steps_def sendApprovalSlackNotification_def R_slack)

lemma park_steps: "steps R (park_request c req rule)"
  unfolding park_request_def by (intro engine slack_steps)

lemma checkNeedsApproval_steps: "steps R (checkNeedsApproval c req auth)"
  unfolding checkNeedsApproval_def
  by (auto intro!: engine park_steps split: list.splits sum.splits)

end

locale routing_frame = frame +
  assumes R_route: "R w (w\<lparr>w_routed := w_routed w @ [req]\<rparr>)"
begin

lemma routing_steps: "steps R (doRouting c req)"
  by (simp add: steps_def doRouting_def R_route)

lemma execute_steps: "steps R (executeApprovedRequest c p)"
  unfolding executeApprovedRequest_def by (intro engine routing_steps)

end

locale full_frame = slack_frame + routing_frame
begin

lemma handleRequest_steps: "steps R (handleRequest_route c b req auth)"
  unfolding handleRequest_route_def by (intro engine checkNeedsApproval_steps routing_steps)

end

subsection \<open>The frames of the model\<close>

lemma st_Put_fields:
  "w_routed (snd (run_state (st_Put c k d) w)) = w_routed w"
  "w_slack (snd (run_state (st_Put c k d) w)) = w_slack w"
  "w_clock (snd (run_state (st_Put c k d) w)) = w_clock w"
  "w_uuids (snd (run_state (st_Put c k d) w)) = w_uuids w"
  "w_ticks (snd (run_state (st_Put c k d) w)) = w_ticks w"
  "w_draws (snd (run_state (st_Put c k d) w)) = w_draws w"
  "w_faults (snd (run_state (st_Put c k d) w)) = tl (w_faults w)"
  by (simp_all add: st_Put_def split: prod.splits)

lemma st_Delete_fields:
  "w_routed (snd (run_state (st_Delete c k) w)) = w_routed w"
  "w_slack (snd (run_state (st_Delete c k) w)) = w_slack w"
  "w_clock (snd (run_state (st_Delete c k) w)) = w_clock w"
  "w_uuids (snd (run_state (st_Delete c k) w)) = w_uuids w"
  "w_ticks (snd (run_state (st_Delete c k) w)) = w_ticks w"
  "w_draws (snd (run_state (st_Delete c k) w)) = w_draws w"
  "w_faults (snd (run_state (st_Delete c k) w)) = tl (w_faults w)"
  by (simp_all add: st_Delete_def split: prod.splits)

text \<open>Programs that do not dispatch requests leave the dispatch log as it is.\<close>

definition same_routed :: "world \<Rightarrow> world \<Rightarrow> bool" where
  "same_routed w w' \<longleftrightarrow> w_routed w' = w_routed w"

text \<open>The inputs of a world never change and its outputs only grow.\<close>

definition grows :: "world \<Rightarrow> world \<Rightarrow> bool" where
  "grows w w' \<longleftrightarrow> w_clock w' = w_clock w \<and> w_uuids w' = w_uuids w \<and> w_ticks w \<le> w_ticks w'
     \<and> w_draws w \<le> w_draws w' \<and> (\<exists>rs. w_routed w' = w_routed w @ rs)
     \<and> (\<exists>ms. w_slack w' = w_slack w @ ms) \<and> (w_faults w = [] \<longrightarrow> w_faults w' = [])"

text \<open>Only keys below the prefix of the approval view are written.\<close>

definition confined :: "core \<Rightarrow> world \<Rightarrow> world \<Rightarrow> bool" where
  "confined c w w' \<longleftrightarrow> (olist_ok (root (w_store w)) \<longrightarrow> olist_ok (root (w_store w')) \<and>
     (\<forall>k. \<not> has_prefix k (sv_prefix (bv_storage (approvalStorage c))) \<longrightarrow>
        map_of (root (w_store w')) k = map_of (root (w_store w)) k))"

lemma root_with_fault [simp]: "root (with_fault f i) = root i"
  by (simp add: with_fault_def)

lemma confined_put: "confined c w (snd (run_state (st_Put c k d) w))"
  by (auto simp: confined_def st_Put_def bv_Put_def sv_Put_def PutInternal_def ExpandKey_def
      has_prefix_iff split: prod.splits option.splits if_splits)

lemma confined_delete: "confined c w (snd (run_state (st_Delete c k) w))"
  by (auto simp: confined_def st_Delete_def bv_Delete_def sv_Delete_def DeleteInternal_def
      ExpandKey_def has_prefix_iff split: prod.splits option.splits if_splits)

interpretation unrouted: slack_frame same_routed c for c
  by unfold_locales (auto simp: same_routed_def frame_rel_def steps_def st_Put_fields st_Delete_fields)

interpretation growing: full_frame grows c for c
  by unfold_locales (auto simp: grows_def frame_rel_def steps_def st_Put_fields st_Delete_fields)

interpretation inside: full_frame "confined c" c for c
  by unfold_locales
     (auto simp: frame_rel_def steps_def confined_put confined_delete, auto simp: confined_def)

end
