(* ===== verification/Approval_Handlers.thy ===== *)
theory Approval_Handlers
  imports Approval_Core
begin

text \<open>
  The handlers of \<open>sys/approvals/\<close> in \<open>vault/logical_system_approvals.go\<close>: rule management, the
  pending requests, approve, deny, fetch, the listings and the history, with the path table
  that dispatches to them. A handler returns an error or an optional response, as its Go
  closure returns \<open>(response, error)\<close>.
\<close>

type_synonym 'a handler = "(world, 'a) state"
type_synonym result = "err + Response option"

section \<open>Helpers\<close>

definition callerIsRoot :: "core \<Rightarrow> Request \<Rightarrow> bool" where
  "callerIsRoot c req =
     (if rq_ClientToken req = [] then False
      else (case c_tokenLookup c (rq_ClientToken req) of
              Inr (Some policies) \<Rightarrow> ''root'' \<in> set policies
            | _ \<Rightarrow> False))"

definition approvalEntityIsAuthorized :: "string \<Rightarrow> string list \<Rightarrow> bool" where
  "approvalEntityIsAuthorized entityID approvers =
     (if entityID = [] then False else list_ex (\<lambda>a. equal_fold a entityID) approvers)"

definition entity_name :: "core \<Rightarrow> string \<Rightarrow> string" where
  "entity_name c entityID =
     (if entityID = [] then []
      else (case c_identityStore c of
              None \<Rightarrow> []
            | Some lookup \<Rightarrow> (case lookup entityID of Inr (Some name) \<Rightarrow> name | _ \<Rightarrow> [])))"

definition error_resp :: "string \<Rightarrow> gval list \<Rightarrow> result" where
  "error_resp text args = Inr (Some (ErrorResponse text args))"

definition data_resp :: "gmap \<Rightarrow> result" where
  "data_resp d = Inr (Some (dataResponse d))"

fun approver_loop :: "core \<Rightarrow> string \<Rightarrow> string list \<Rightarrow> bool handler" where
  "approver_loop c entityID [] = ret False"
| "approver_loop c entityID (key # keys) = do {
     r \<leftarrow> read_rule c key;
     (case r of
        None \<Rightarrow> approver_loop c entityID keys
      | Some rule \<Rightarrow>
          if approvalEntityIsAuthorized entityID (ar_AuthorizedApprovers rule) then ret True
          else approver_loop c entityID keys)
   }"

section \<open>Rule management\<close>

definition handleApprovalRuleList :: "core \<Rightarrow> result handler" where
  "handleApprovalRuleList c = do {
     l \<leftarrow> st_List c ''config/'';
     ret (case l of Inl e \<Rightarrow> Inl e | Inr keys \<Rightarrow> data_resp [(''keys'', GList (map GStr keys))])
   }"

definition handleApprovalRuleRead :: "core \<Rightarrow> string \<Rightarrow> result handler" where
  "handleApprovalRuleRead c ruleID = do {
     r \<leftarrow> getApprovalRule c ruleID;
     ret (case r of
            Inl e \<Rightarrow> Inl e
          | Inr None \<Rightarrow> error_resp ''no approval rule found with ID %q'' [GStr ruleID]
          | Inr (Some rule) \<Rightarrow> data_resp
              [(''rule_id'', GStr (ar_RuleID rule)),
               (''description'', GStr (ar_Description rule)),
               (''target_mount_path'', GStr (ar_TargetMountPath rule)),
               (''authorized_approvers'', GList (map GStr (ar_AuthorizedApprovers rule))),
               (''approvals_required'', GInt (ar_ApprovalsRequired rule)),
               (''slack_webhook_url'', GStr (ar_SlackWebhookURL rule)),
               (''created_by_entity_id'', GStr (ar_CreatedByEntityID rule)),
               (''allow_self_approval'', GBool (ar_AllowSelfApproval rule))])
   }"

text \<open>The optional fields of a rule write, as \<open>FieldData.GetOk\<close> reports them.\<close>

record RuleInput =
  fd_description :: "string option"
  fd_target_mount_path :: "string option"
  fd_authorized_approvers :: "string list option"
  fd_approvals_required :: "int option"
  fd_slack_webhook_url :: "string option"
  fd_allow_self_approval :: "bool option"

definition new_rule :: "string \<Rightarrow> Request \<Rightarrow> ApprovalRule" where
  "new_rule ruleID req =
     zero_rule\<lparr>ar_RuleID := ruleID, ar_ApprovalsRequired := 1, ar_CreatedByEntityID := rq_EntityID req\<rparr>"

definition bad_webhook :: "core \<Rightarrow> string \<Rightarrow> bool" where
  "bad_webhook c rawURL \<longleftrightarrow> rawURL \<noteq> [] \<and> url_scheme (c_urlRestOK c) rawURL \<noteq> Some ''https''"

text \<open>The merge of the supplied fields into the rule, with its validations in source order.\<close>

definition merge_rule :: "core \<Rightarrow> RuleInput \<Rightarrow> ApprovalRule \<Rightarrow> Response + ApprovalRule" where
  "merge_rule c data existing0 =
     (let e1 = (case fd_description data of None \<Rightarrow> existing0
                | Some v \<Rightarrow> existing0\<lparr>ar_Description := v\<rparr>);
          e2 = (case fd_target_mount_path data of None \<Rightarrow> e1
                | Some v \<Rightarrow> e1\<lparr>ar_TargetMountPath := v\<rparr>);
          e3 = (case fd_authorized_approvers data of None \<Rightarrow> e2
                | Some v \<Rightarrow> e2\<lparr>ar_AuthorizedApprovers := v\<rparr>)
      in if (case fd_approvals_required data of None \<Rightarrow> False | Some n \<Rightarrow> n < 1)
         then Inl (ErrorResponse ''approvals_required must be >= 1'' [])
         else let e4 = (case fd_approvals_required data of None \<Rightarrow> e3
                        | Some n \<Rightarrow> e3\<lparr>ar_ApprovalsRequired := n\<rparr>)
         in if (case fd_slack_webhook_url data of None \<Rightarrow> False | Some u \<Rightarrow> bad_webhook c u)
            then Inl (ErrorResponse ''slack_webhook_url must use the https:// scheme'' [])
            else let e5 = (case fd_slack_webhook_url data of None \<Rightarrow> e4
                           | Some u \<Rightarrow> e4\<lparr>ar_SlackWebhookURL := u\<rparr>);
                     e6 = (case fd_allow_self_approval data of None \<Rightarrow> e5
                           | Some b \<Rightarrow> e5\<lparr>ar_AllowSelfApproval := b\<rparr>)
            in if ar_TargetMountPath e6 = [] then
                 Inl (ErrorResponse ''target_mount_path is required'' [])
               else if ar_AuthorizedApprovers e6 = [] then
                 Inl (ErrorResponse ''authorized_approvers must contain at least one entity ID'' [])
               else Inr e6)"

definition handleApprovalRuleWrite ::
  "core \<Rightarrow> Request \<Rightarrow> string \<Rightarrow> RuleInput \<Rightarrow> result handler" where
  "handleApprovalRuleWrite c req ruleID data =
     (if ruleID = [] then ret (error_resp ''rule_id is required'' [])
      else do {
        r \<leftarrow> getApprovalRule c ruleID;
        (case r of
           Inl e \<Rightarrow> ret (Inl e)
         | Inr found \<Rightarrow>
             (let existing = (case found of None \<Rightarrow> new_rule ruleID req | Some rule \<Rightarrow> rule) in
              case merge_rule c data existing of
                Inl resp \<Rightarrow> ret (Inr (Some resp))
              | Inr rule \<Rightarrow> do {
                  p \<leftarrow> putApprovalRule c rule;
                  ret (case p of Inl e \<Rightarrow> Inl e | Inr _ \<Rightarrow> Inr None)
                }))
      })"

definition handleApprovalRuleDelete :: "core \<Rightarrow> string \<Rightarrow> result handler" where
  "handleApprovalRuleDelete c ruleID = do {
     _ \<leftarrow> sweepPendingRequestsByRule c ruleID;
     d \<leftarrow> st_Delete c (config_key ruleID);
     ret (case d of Inl e \<Rightarrow> Inl e | Inr _ \<Rightarrow> Inr None)
   }"

section \<open>Pending requests\<close>

definition require_approver :: "core \<Rightarrow> Request \<Rightarrow> (err + unit) handler" where
  "require_approver c req =
     (if callerIsRoot c req then ret (Inr ())
      else if rq_EntityID req = [] then ret (Inl ErrPermissionDenied)
      else do {
        l \<leftarrow> st_List c ''config/'';
        (case l of
           Inl e \<Rightarrow> ret (Inl e)
         | Inr ruleKeys \<Rightarrow> do {
             isApprover \<leftarrow> approver_loop c (rq_EntityID req) ruleKeys;
             ret (if isApprover then Inr () else Inl ErrPermissionDenied)
           })
      })"

definition handleApprovalPendingList :: "core \<Rightarrow> Request \<Rightarrow> result handler" where
  "handleApprovalPendingList c req = do {
     a \<leftarrow> require_approver c req;
     (case a of
        Inl e \<Rightarrow> ret (Inl e)
      | Inr _ \<Rightarrow> do {
          l \<leftarrow> st_List c ''pending/'';
          ret (case l of Inl e \<Rightarrow> Inl e
               | Inr keys \<Rightarrow> data_resp [(''keys'', GList (map GStr keys))])
        })
   }"

definition vote_row :: "ApprovalRecord \<Rightarrow> gval" where
  "vote_row a = GMap [(''approver_entity_id'', GStr (av_ApproverEntityID a)),
                      (''approved_at'', GTime (av_ApprovedAt a))]"

definition pending_row :: "PendingRequest \<Rightarrow> gmap" where
  "pending_row p =
     [(''request_id'', GStr (pr_RequestID p)),
      (''rule_id'', GStr (pr_RuleID p)),
      (''original_path'', GStr (pr_OriginalPath p)),
      (''original_operation'', GStr (operation_string (pr_OriginalOperation p))),
      (''requester_entity_id'', GStr (pr_RequesterEntityID p)),
      (''requester_display_name'', GStr (pr_RequesterDisplayName p)),
      (''status'', GStr (pr_Status p)),
      (''approvals'', GList (map vote_row (pr_Approvals p))),
      (''created_at'', GTime (pr_CreatedAt p)),
      (''expires_at'', GTime (pr_ExpiresAt p))]"

definition handleApprovalPendingRead :: "core \<Rightarrow> Request \<Rightarrow> string \<Rightarrow> result handler" where
  "handleApprovalPendingRead c req rid = do {
     g \<leftarrow> getPendingRequest c rid;
     (case g of
        Inl e \<Rightarrow> ret (Inl e)
      | Inr None \<Rightarrow> ret (error_resp ''no approval request found with ID %q'' [GStr rid])
      | Inr (Some pending) \<Rightarrow> do {
          allowed \<leftarrow>
            (if callerIsRoot c req then ret True
             else if rq_EntityID req \<noteq> [] \<and> rq_EntityID req = pr_RequesterEntityID pending
               then ret True
             else do {
               rule \<leftarrow> getApprovalRule c (pr_RuleID pending);
               ret (case rule of
                      Inr (Some r) \<Rightarrow>
                        approvalEntityIsAuthorized (rq_EntityID req) (ar_AuthorizedApprovers r)
                    | _ \<Rightarrow> False)
             });
          if \<not> allowed then ret (Inl ErrPermissionDenied)
          else do {
            expired \<leftarrow> (if pr_Status pending = ''pending''
                        then do { now \<leftarrow> now_UTC; ret (now > pr_ExpiresAt pending) }
                        else ret False);
            if expired then do {
              _ \<leftarrow> st_Delete c (pending_key rid);
              ret (error_resp ''request %q has expired and has been removed'' [GStr rid])
            }
            else ret (data_resp (pending_row pending))
          }
        })
   }"

section \<open>Requires-approval check\<close>

definition handleApprovalRequiresApproval :: "core \<Rightarrow> string \<Rightarrow> result handler" where
  "handleApprovalRequiresApproval c path =
     (if path = [] then ret (error_resp ''path is required'' [])
      else do {
        l \<leftarrow> st_List c ''config/'';
        (case l of
           Inl e \<Rightarrow> ret (Inl e)
         | Inr ruleKeys \<Rightarrow> do {
             m \<leftarrow> match_rule_loop c path ruleKeys;
             ret (case m of
                    Some rule \<Rightarrow> data_resp [(''requires_approval'', GBool True),
                                           (''rule_id'', GStr (ar_RuleID rule))]
                  | None \<Rightarrow> data_resp [(''requires_approval'', GBool False)])
           })
      })"

section \<open>Approve\<close>

text \<open>
  Common head of approve and deny: the record must exist, be pending and not expired, and its
  rule must still exist; an expired or orphaned record is removed. \<open>Inl\<close> is the early return.
\<close>

definition load_decidable ::
  "core \<Rightarrow> string \<Rightarrow> (result + PendingRequest \<times> ApprovalRule) handler" where
  "load_decidable c rid = do {
     g \<leftarrow> getPendingRequest c rid;
     (case g of
        Inl e \<Rightarrow> ret (Inl (Inl e))
      | Inr None \<Rightarrow> ret (Inl (error_resp ''no approval request found with ID %q'' [GStr rid]))
      | Inr (Some pending) \<Rightarrow>
          if pr_Status pending \<noteq> ''pending'' then
            ret (Inl (error_resp ''request %q is not pending (current status: %s)''
              [GStr rid, GStr (pr_Status pending)]))
          else do {
            now \<leftarrow> now_UTC;
            if now > pr_ExpiresAt pending then do {
              _ \<leftarrow> st_Delete c (pending_key rid);
              ret (Inl (error_resp ''request %q has expired and has been removed'' [GStr rid]))
            }
            else do {
              r \<leftarrow> getApprovalRule c (pr_RuleID pending);
              (case r of
                 Inl e \<Rightarrow> ret (Inl (Inl e))
               | Inr None \<Rightarrow> do {
                   _ \<leftarrow> st_Delete c (pending_key rid);
                   ret (Inl (error_resp
                     ''approval rule %q no longer exists; orphaned request has been removed''
                     [GStr (pr_RuleID pending)]))
                 }
               | Inr (Some rule) \<Rightarrow> ret (Inr (pending, rule)))
            }
          })
   }"

definition approve_refusal ::
  "core \<Rightarrow> Request \<Rightarrow> PendingRequest \<Rightarrow> ApprovalRule \<Rightarrow> result option" where
  "approve_refusal c req pending rule =
     (if \<not> callerIsRoot c req
         \<and> \<not> approvalEntityIsAuthorized (rq_EntityID req) (ar_AuthorizedApprovers rule)
      then Some (Inl ErrPermissionDenied)
      else if \<not> callerIsRoot c req \<and> \<not> ar_AllowSelfApproval rule
              \<and> rq_EntityID req \<noteq> [] \<and> rq_EntityID req = pr_RequesterEntityID pending
      then Some (Inr (Some (RespondWithStatusCode
             (Some (ErrorResponse
                ''Separation of Duties violation: you cannot approve your own request'' []))
             (Some req) 403)))
      else if list_ex (\<lambda>a. av_ApproverEntityID a = rq_EntityID req \<and> rq_EntityID req \<noteq> [])
                (pr_Approvals pending)
      then Some (error_resp ''entity %q has already approved this request'' [GStr (rq_EntityID req)])
      else None)"

definition approve_response :: "string \<Rightarrow> PendingRequest \<Rightarrow> ApprovalRule \<Rightarrow> bool \<Rightarrow> result" where
  "approve_response rid pending rule thresholdMet = data_resp
     [(''status'', GStr (pr_Status pending)),
      (''request_id'', GStr rid),
      (''approvals_recorded'', GInt (int (length (pr_Approvals pending)))),
      (''approvals_required'', GInt (ar_ApprovalsRequired rule)),
      (''threshold_met'', GBool thresholdMet)]"

text \<open>
  The execution block: the record is written as approved before the backend runs, read back,
  executed unless a credential is already there, and rolled back when execution fails.
\<close>

definition approve_execute :: "core \<Rightarrow> string \<Rightarrow> PendingRequest \<Rightarrow> (err + PendingRequest) handler" where
  "approve_execute c rid pending0 = do {
     let pending = pending0\<lparr>pr_Status := ''approved''\<rparr>;
     s \<leftarrow> storePendingRequest c pending;
     (case s of
        Inl e \<Rightarrow> ret (Inl e)
      | Inr _ \<Rightarrow> do {
          g \<leftarrow> getPendingRequest c rid;
          (case g of
             Inl e \<Rightarrow> ret (Inl e)
           | Inr latestPending \<Rightarrow>
               if latestPending = None
                  \<or> pr_CredentialData (the latestPending) = None then do {
                 x \<leftarrow> executeApprovedRequest c pending;
                 (case x of
                    (Inr _, pending') \<Rightarrow> ret (Inr pending')
                  | (Inl e, pending') \<Rightarrow> do {
                      _ \<leftarrow> storePendingRequest c
                        (pending'\<lparr>pr_Status := ''pending'',
                                  pr_Approvals := butlast (pr_Approvals pending')\<rparr>);
                      ret (Inl (ErrWrap ''approval execution failed'' e))
                    })
               }
               else ret (Inr pending))
        })
   }"

definition handleApprovalApprove :: "core \<Rightarrow> Request \<Rightarrow> string \<Rightarrow> result handler" where
  "handleApprovalApprove c req rid = do {
     l \<leftarrow> load_decidable c rid;
     (case l of
        Inl r \<Rightarrow> ret r
      | Inr (pending0, rule) \<Rightarrow>
          (case approve_refusal c req pending0 rule of
             Some r \<Rightarrow> ret r
           | None \<Rightarrow> do {
               now \<leftarrow> now_UTC;
               let pending = pending0\<lparr>pr_Approvals := pr_Approvals pending0 @
                     [\<lparr>av_ApproverEntityID = rq_EntityID req, av_ApprovedAt = now\<rparr>]\<rparr>;
               let thresholdMet = (int (length (pr_Approvals pending)) \<ge> ar_ApprovalsRequired rule);
               if thresholdMet then do {
                 x \<leftarrow> approve_execute c rid pending;
                 ret (case x of
                        Inl e \<Rightarrow> Inl e
                      | Inr pending' \<Rightarrow> approve_response rid pending' rule thresholdMet)
               }
               else do {
                 s \<leftarrow> storePendingRequest c pending;
                 ret (case s of
                        Inl e \<Rightarrow> Inl e
                      | Inr _ \<Rightarrow> approve_response rid pending rule thresholdMet)
               }
             }))
   }"

section \<open>Deny\<close>

definition deny_allowed :: "core \<Rightarrow> Request \<Rightarrow> PendingRequest \<Rightarrow> ApprovalRule \<Rightarrow> bool" where
  "deny_allowed c req pending rule \<longleftrightarrow>
     callerIsRoot c req
     \<or> (rq_EntityID req \<noteq> [] \<and> rq_EntityID req = pr_RequesterEntityID pending)
     \<or> approvalEntityIsAuthorized (rq_EntityID req) (ar_AuthorizedApprovers rule)"

definition history_of ::
  "PendingRequest \<Rightarrow> string \<Rightarrow> time \<Rightarrow> string \<Rightarrow> string \<Rightarrow> ApprovalHistoryEntry" where
  "history_of p status now by_id by_name =
     \<lparr>ah_RequestID = pr_RequestID p, ah_RuleID = pr_RuleID p,
      ah_OriginalPath = pr_OriginalPath p, ah_RequesterEntityID = pr_RequesterEntityID p,
      ah_RequesterDisplayName = pr_RequesterDisplayName p,
      ah_Justification = pr_Justification p, ah_Status = status,
      ah_CreatedAt = pr_CreatedAt p, ah_ResolvedAt = now, ah_ResolvedBy = by_id,
      ah_ResolvedByName = by_name, ah_HistoryExpiresAt = now + approvalHistoryTTL\<rparr>"

definition handleApprovalDeny :: "core \<Rightarrow> Request \<Rightarrow> string \<Rightarrow> result handler" where
  "handleApprovalDeny c req rid = do {
     l \<leftarrow> load_decidable c rid;
     (case l of
        Inl r \<Rightarrow> ret r
      | Inr (pending0, rule) \<Rightarrow>
          if \<not> deny_allowed c req pending0 rule then ret (Inl ErrPermissionDenied)
          else do {
            let pending = pending0\<lparr>pr_Status := ''denied''\<rparr>;
            s \<leftarrow> storePendingRequest c pending;
            (case s of
               Inl e \<Rightarrow> ret (Inl e)
             | Inr _ \<Rightarrow> do {
                 now \<leftarrow> now_UTC;
                 _ \<leftarrow> storeHistoryEntry c
                   (history_of pending ''denied'' now (rq_EntityID req)
                      (entity_name c (rq_EntityID req)));
                 ret (data_resp [(''status'', GStr ''denied''), (''request_id'', GStr rid)])
               })
          })
   }"

section \<open>Fetch\<close>

definition last_approver :: "PendingRequest \<Rightarrow> string" where
  "last_approver p =
     (if pr_Approvals p = [] then [] else av_ApproverEntityID (last (pr_Approvals p)))"

definition fetch_allowed :: "core \<Rightarrow> Request \<Rightarrow> PendingRequest \<Rightarrow> bool" where
  "fetch_allowed c req pending \<longleftrightarrow>
     (if pr_RequesterEntityID pending = [] then callerIsRoot c req
      else rq_EntityID req = pr_RequesterEntityID pending)"

definition fetch_pending :: "core \<Rightarrow> Request \<Rightarrow> string \<Rightarrow> PendingRequest \<Rightarrow> result handler" where
  "fetch_pending c req rid pending = do {
     now \<leftarrow> now_UTC;
     if now > pr_ExpiresAt pending then do {
       _ \<leftarrow> st_Delete c (pending_key rid);
       expiredNow \<leftarrow> now_UTC;
       _ \<leftarrow> storeHistoryEntry c (history_of pending ''expired'' expiredNow [] []);
       ret (data_resp [(''status'', GStr ''expired''), (''request_id'', GStr rid),
                       (''message'', GStr ''Request has expired and has been removed.'')])
     }
     else ret (Inr (Some (RespondWithStatusCode
       (Some (dataResponse
         [(''status'', GStr ''pending''), (''request_id'', GStr rid),
          (''approvals_recorded'', GInt (int (length (pr_Approvals pending))))]))
       (Some req) 202)))
   }"

definition fetch_window_expired :: "core \<Rightarrow> string \<Rightarrow> PendingRequest \<Rightarrow> result handler" where
  "fetch_window_expired c rid pending = do {
     _ \<leftarrow> st_Delete c (pending_key rid);
     now \<leftarrow> now_UTC;
     _ \<leftarrow> storeHistoryEntry c (history_of pending ''expired'' now (last_approver pending)
           (entity_name c (last_approver pending)));
     ret (error_resp ''credential for request %q has expired (90-minute retrieval window passed)''
       [GStr rid])
   }"

fun merge_data :: "gmap \<Rightarrow> gmap \<Rightarrow> gmap" where
  "merge_data base [] = base"
| "merge_data base ((k, v) # kvs) = merge_data (gset k v base) kvs"

definition fetch_response :: "string \<Rightarrow> gmap \<Rightarrow> duration \<Rightarrow> duration \<Rightarrow> gmap" where
  "fetch_response rid credData secretTTL secretMaxTTL =
     (let d0 = merge_data [(''status'', GStr ''approved''), (''request_id'', GStr rid)] credData;
          d1 = (if secretTTL > 0
                then gset ''lease_duration'' (GInt (whole_units second secretTTL)) d0 else d0)
      in if secretMaxTTL > 0
         then gset ''lease_max_duration'' (GInt (whole_units second secretMaxTTL)) d1 else d1)"

definition fetch_burn :: "core \<Rightarrow> string \<Rightarrow> PendingRequest \<Rightarrow> gmap \<Rightarrow> result handler" where
  "fetch_burn c rid pending0 credData = do {
     let pending = pending0\<lparr>pr_CredentialData := None\<rparr>;
     _ \<leftarrow> storePendingRequest c pending;
     d \<leftarrow> st_Delete c (pending_key rid);
     (case d of
        Inl e \<Rightarrow> ret (Inl e)
      | Inr _ \<Rightarrow> do {
          now \<leftarrow> now_UTC;
          _ \<leftarrow> storeHistoryEntry c (history_of pending ''retrieved'' now (last_approver pending)
                (entity_name c (last_approver pending)));
          ret (data_resp (fetch_response rid credData (pr_SecretTTL pending) (pr_SecretMaxTTL pending)))
        })
   }"

definition fetch_approved :: "core \<Rightarrow> string \<Rightarrow> PendingRequest \<Rightarrow> result handler" where
  "fetch_approved c rid pending =
     (case pr_CredentialData pending of
        None \<Rightarrow> ret (error_resp ''credential for request %q has already been retrieved'' [GStr rid])
      | Some credData \<Rightarrow> do {
          late \<leftarrow> (if \<not> is_zero (pr_ApprovedAt pending)
                   then do { d \<leftarrow> time_Since (pr_ApprovedAt pending); ret (d > approvalCredentialTTL) }
                   else ret False);
          if late then fetch_window_expired c rid pending
          else fetch_burn c rid pending credData
        })"

text \<open>The dash of the message, in UTF-8.\<close>

definition em_dash :: string where
  "em_dash = map char_of [0xE2, 0x80, 0x94 :: nat]"

definition handleApprovalFetch :: "core \<Rightarrow> Request \<Rightarrow> string \<Rightarrow> result handler" where
  "handleApprovalFetch c req rid = do {
     g \<leftarrow> getPendingRequest c rid;
     (case g of
        Inl e \<Rightarrow> ret (Inl e)
      | Inr None \<Rightarrow> ret (Inr (Some (RespondWithStatusCode
          (Some (ErrorResponse
            (''approval request %q not found '' @ em_dash @
             '' it may have expired, been removed, or the server was restarted'') [GStr rid])) (Some req) 404)))
      | Inr (Some pending) \<Rightarrow>
          if \<not> fetch_allowed c req pending then ret (Inl ErrPermissionDenied)
          else if pr_Status pending = ''pending'' then fetch_pending c req rid pending
          else if pr_Status pending = ''denied'' then
            ret (data_resp [(''status'', GStr ''denied''), (''request_id'', GStr rid)])
          else if pr_Status pending = ''approved'' then fetch_approved c rid pending
          else ret (error_resp ''unknown status for request %q'' [GStr rid]))
   }"

section \<open>Listings\<close>

definition approvable_row :: "PendingRequest \<Rightarrow> gval" where
  "approvable_row p = GMap
     [(''request_id'', GStr (pr_RequestID p)),
      (''rule_id'', GStr (pr_RuleID p)),
      (''original_path'', GStr (pr_OriginalPath p)),
      (''original_operation'', GStr (operation_string (pr_OriginalOperation p))),
      (''requester_entity_id'', GStr (pr_RequesterEntityID p)),
      (''requester_display_name'', GStr (pr_RequesterDisplayName p)),
      (''justification'', GStr (pr_Justification p)),
      (''status'', GStr (pr_Status p)),
      (''approvals'', GList (map vote_row (pr_Approvals p))),
      (''created_at'', GTime (pr_CreatedAt p)),
      (''expires_at'', GTime (pr_ExpiresAt p))]"

fun approvable_loop :: "core \<Rightarrow> bool \<Rightarrow> string \<Rightarrow> string list \<Rightarrow> PendingRequest list handler" where
  "approvable_loop c isRoot entityID [] = ret []"
| "approvable_loop c isRoot entityID (key # keys) = do {
     r \<leftarrow> read_pending c key;
     (case r of
        None \<Rightarrow> approvable_loop c isRoot entityID keys
      | Some p \<Rightarrow>
          if pr_Status p \<noteq> ''pending'' then approvable_loop c isRoot entityID keys
          else do {
            now \<leftarrow> now_UTC;
            if now > pr_ExpiresAt p then do {
              _ \<leftarrow> st_Delete c (pending_key key);
              approvable_loop c isRoot entityID keys
            }
            else do {
              listed \<leftarrow> (if isRoot then ret True
                else do {
                  rule \<leftarrow> getApprovalRule c (pr_RuleID p);
                  ret (case rule of
                         Inr (Some r) \<Rightarrow>
                           approvalEntityIsAuthorized entityID (ar_AuthorizedApprovers r)
                       | _ \<Rightarrow> False)
                });
              rest \<leftarrow> approvable_loop c isRoot entityID keys;
              ret (if listed then p # rest else rest)
            }
          })
   }"

definition handleApprovalApprovable :: "core \<Rightarrow> Request \<Rightarrow> result handler" where
  "handleApprovalApprovable c req =
     (let isRoot = callerIsRoot c req in
      if \<not> isRoot \<and> rq_EntityID req = [] then
        ret (Inr (Some (AddWarning
          ''Token has no entity ID; cannot determine approvable requests. Sign in with OIDC.''
          (dataResponse [(''requests'', GList [])]))))
      else do {
        l \<leftarrow> st_List c ''pending/'';
        (case l of
           Inl e \<Rightarrow> ret (Inl e)
         | Inr keys \<Rightarrow> do {
             results \<leftarrow> approvable_loop c isRoot (rq_EntityID req) keys;
             ret (data_resp [(''requests'', GList (map approvable_row results))])
           })
      })"

definition my_row :: "PendingRequest \<Rightarrow> gval" where
  "my_row p = GMap
     ([(''request_id'', GStr (pr_RequestID p)),
       (''rule_id'', GStr (pr_RuleID p)),
       (''original_path'', GStr (pr_OriginalPath p)),
       (''justification'', GStr (pr_Justification p)),
       (''status'', GStr (pr_Status p)),
       (''created_at'', GTime (pr_CreatedAt p)),
       (''expires_at'', GTime (pr_ExpiresAt p))]
      @ (if is_zero (pr_ApprovedAt p) then [] else [(''approved_at'', GTime (pr_ApprovedAt p))]))"

definition my_history_row :: "ApprovalHistoryEntry \<Rightarrow> gval" where
  "my_history_row h = GMap
     [(''request_id'', GStr (ah_RequestID h)),
      (''rule_id'', GStr (ah_RuleID h)),
      (''original_path'', GStr (ah_OriginalPath h)),
      (''justification'', GStr (ah_Justification h)),
      (''status'', GStr (ah_Status h)),
      (''created_at'', GTime (ah_CreatedAt h)),
      (''resolved_at'', GTime (ah_ResolvedAt h)),
      (''resolved_by'', GStr (ah_ResolvedBy h)),
      (''resolved_by_name'', GStr (ah_ResolvedByName h))]"

definition my_stale :: "PendingRequest \<Rightarrow> bool handler" where
  "my_stale p = do {
     e \<leftarrow> (if pr_Status p = ''pending''
           then do { now \<leftarrow> now_UTC; ret (now > pr_ExpiresAt p) } else ret False);
     if e then ret True
     else if pr_Status p = ''approved'' \<and> \<not> is_zero (pr_ApprovedAt p)
       then do { d \<leftarrow> time_Since (pr_ApprovedAt p); ret (d \<ge> approvalCredentialTTL) }
       else ret False
   }"

fun my_loop :: "core \<Rightarrow> string \<Rightarrow> string list \<Rightarrow> PendingRequest list handler" where
  "my_loop c entityID [] = ret []"
| "my_loop c entityID (key # keys) = do {
     r \<leftarrow> read_pending c key;
     (case r of
        None \<Rightarrow> my_loop c entityID keys
      | Some p \<Rightarrow>
          if pr_RequesterEntityID p \<noteq> entityID then my_loop c entityID keys
          else do {
            stale \<leftarrow> my_stale p;
            if stale then do {
              _ \<leftarrow> st_Delete c (pending_key key);
              my_loop c entityID keys
            }
            else do { rest \<leftarrow> my_loop c entityID keys; ret (p # rest) }
          })
   }"

definition handleApprovalMyRequests :: "core \<Rightarrow> Request \<Rightarrow> result handler" where
  "handleApprovalMyRequests c req =
     (if rq_EntityID req = [] then
        ret (Inr (Some (AddWarning
          ''This token has no entity ID. My Requests shows requests tied to your OIDC identity. Sign in with OIDC to see your personal requests.''
          (dataResponse [(''requests'', GList [])]))))
      else do {
        l \<leftarrow> st_List c ''pending/'';
        (case l of
           Inl e \<Rightarrow> ret (Inl e)
         | Inr keys \<Rightarrow> do {
             results \<leftarrow> my_loop c (rq_EntityID req) keys;
             h \<leftarrow> listHistoryEntriesForUser c (rq_EntityID req);
             let histEntries = (case h of Inl _ \<Rightarrow> [] | Inr hs \<Rightarrow> hs);
             ret (data_resp [(''requests'',
               GList (map my_row results @ map my_history_row histEntries))])
           })
      })"

section \<open>History\<close>

definition history_row :: "ApprovalHistoryEntry \<Rightarrow> gval" where
  "history_row h = GMap
     [(''request_id'', GStr (ah_RequestID h)),
      (''rule_id'', GStr (ah_RuleID h)),
      (''original_path'', GStr (ah_OriginalPath h)),
      (''requester_entity_id'', GStr (ah_RequesterEntityID h)),
      (''requester_display_name'', GStr (ah_RequesterDisplayName h)),
      (''justification'', GStr (ah_Justification h)),
      (''status'', GStr (ah_Status h)),
      (''created_at'', GTime (ah_CreatedAt h)),
      (''resolved_at'', GTime (ah_ResolvedAt h)),
      (''resolved_by'', GStr (ah_ResolvedBy h)),
      (''resolved_by_name'', GStr (ah_ResolvedByName h)),
      (''history_expires_at'', GTime (ah_HistoryExpiresAt h))]"

definition handleApprovalHistory :: "core \<Rightarrow> Request \<Rightarrow> result handler" where
  "handleApprovalHistory c req = do {
     a \<leftarrow> require_approver c req;
     (case a of
        Inl e \<Rightarrow> ret (Inl e)
      | Inr _ \<Rightarrow> do {
          l \<leftarrow> listAllHistoryEntries c;
          ret (case l of
                 Inl e \<Rightarrow> Inl e
               | Inr entries \<Rightarrow> data_resp [(''entries'', GList (map history_row entries))])
        })
   }"

end
