(* ===== verification/Approval_Paths.thy ===== *)
theory Approval_Paths
  imports Approval_Handlers
begin

text \<open>
  The path table \<open>approvalPaths\<close> of \<open>vault/logical_system_approvals.go\<close> and the dispatch through
  it (\<open>Backend.route\<close> and the callback lookup of \<open>sdk/framework/backend.go\<close>). Paths are relative
  to the mount \<open>sys/\<close>. The framework anchors every pattern at both ends and takes the first
  one that matches.
\<close>

section \<open>Patterns\<close>

definition hex_lower :: "char \<Rightarrow> bool" where
  "hex_lower ch \<longleftrightarrow> ch \<in> set ''0123456789abcdef''"

text \<open>Five dash-separated groups of 8, 4, 4, 4 and 12 lower-case hexadecimal digits.\<close>

definition uuidPattern :: "string \<Rightarrow> bool" where
  "uuidPattern s \<longleftrightarrow>
     map length (split_on (CHR ''-'') s) = [8, 4, 4, 4, 12]
     \<and> list_all (list_all hex_lower) (split_on (CHR ''-'') s)"

definition rule_id_char :: "char \<Rightarrow> bool" where
  "rule_id_char ch \<longleftrightarrow>
     (let n = of_char ch :: nat in
      97 \<le> n \<and> n \<le> 122 \<or> 65 \<le> n \<and> n \<le> 90 \<or> 48 \<le> n \<and> n \<le> 57 \<or> ch = CHR ''_'' \<or> ch = CHR ''-'')"

definition ruleIDPattern :: "string \<Rightarrow> bool" where
  "ruleIDPattern s \<longleftrightarrow> s \<noteq> [] \<and> list_all rule_id_char s"

section \<open>The table\<close>

datatype approval_route =
    RConfig string
  | RConfigList
  | RPending string
  | RPendingList
  | RApprove string
  | RDeny string
  | RMyRequests
  | RApprovable
  | RRequiresApproval
  | RFetch string
  | RHistory

text \<open>One entry of the table: the fixed part and a test of what follows it.\<close>

definition below :: "string \<Rightarrow> (string \<Rightarrow> bool) \<Rightarrow> string \<Rightarrow> string option" where
  "below fixed ok path =
     (if has_prefix path fixed \<and> ok (trim_prefix path fixed) then Some (trim_prefix path fixed)
      else None)"

definition optional_slash :: "string \<Rightarrow> bool" where
  "optional_slash s \<longleftrightarrow> s = [] \<or> s = ''/''"

definition approvalPaths :: "(string \<Rightarrow> approval_route option) list" where
  "approvalPaths =
     [\<lambda>p. map_option RConfig (below ''approvals/config/'' ruleIDPattern p),
      \<lambda>p. map_option (\<lambda>_. RConfigList) (below ''approvals/config'' optional_slash p),
      \<lambda>p. map_option RPending (below ''approvals/pending/'' uuidPattern p),
      \<lambda>p. map_option (\<lambda>_. RPendingList) (below ''approvals/pending'' optional_slash p),
      \<lambda>p. map_option RApprove (below ''approvals/approve/'' uuidPattern p),
      \<lambda>p. map_option RDeny (below ''approvals/deny/'' uuidPattern p),
      \<lambda>p. if p = ''approvals/my-requests'' then Some RMyRequests else None,
      \<lambda>p. if p = ''approvals/approvable'' then Some RApprovable else None,
      \<lambda>p. if p = ''approvals/requires-approval'' then Some RRequiresApproval else None,
      \<lambda>p. map_option RFetch (below ''approvals/fetch/'' uuidPattern p),
      \<lambda>p. if p = ''approvals/history'' then Some RHistory else None]"

fun first_match :: "(string \<Rightarrow> 'a option) list \<Rightarrow> string \<Rightarrow> 'a option" where
  "first_match [] p = None"
| "first_match (e # es) p = (case e p of Some r \<Rightarrow> Some r | None \<Rightarrow> first_match es p)"

text \<open>
  The existence checks of the table, which decide between a create and an update.
\<close>

definition entry_exists :: "core \<Rightarrow> string \<Rightarrow> (err + bool) handler" where
  "entry_exists c key = do {
     r \<leftarrow> st_Get c key;
     ret (case r of Inl e \<Rightarrow> Inl e | Inr entry \<Rightarrow> Inr (entry \<noteq> None))
   }"

definition ExistenceCheck :: "core \<Rightarrow> approval_route \<Rightarrow> (err + bool) handler option" where
  "ExistenceCheck c r =
     (case r of
        RConfig ruleID \<Rightarrow> Some (entry_exists c (config_key ruleID))
      | RApprove rid \<Rightarrow> Some (entry_exists c (pending_key rid))
      | RDeny rid \<Rightarrow> Some (entry_exists c (pending_key rid))
      | _ \<Rightarrow> None)"

text \<open>
  The body fields of a request, converted by the framework's field schema: the message of a
  failed validation, the fields of a rule write and the \<open>path\<close> of the requires-approval check
  (empty when it is not given).
\<close>

record approval_fields =
  af_invalid :: "string option"
  af_rule :: RuleInput
  af_path :: string

text \<open>The existence check, for the operations create and update only: (found, exists) or an error.\<close>

definition HandleExistenceCheck ::
  "core \<Rightarrow> Request \<Rightarrow> approval_fields \<Rightarrow> string \<Rightarrow> (err + bool \<times> bool) handler" where
  "HandleExistenceCheck c req fd path =
     (if rq_Operation req \<notin> {CreateOperation, UpdateOperation}
      then ret (Inl (ErrBackend ''incorrect operation type for an existence check''))
      else case first_match approvalPaths path of
             None \<Rightarrow> ret (Inl ErrUnsupportedPath)
           | Some r \<Rightarrow>
               (case ExistenceCheck c r of
                  None \<Rightarrow> ret (Inr (False, False))
                | Some check \<Rightarrow>
                    (case af_invalid fd of
                       Some msg \<Rightarrow> ret (Inl (ErrBackend msg))
                     | None \<Rightarrow> do {
                         x \<leftarrow> check;
                         ret (case x of Inl e \<Rightarrow> Inl e | Inr exists \<Rightarrow> Inr (True, exists))
                       })))"

definition Callbacks ::
  "core \<Rightarrow> Request \<Rightarrow> approval_fields \<Rightarrow> approval_route \<Rightarrow> (operation \<times> result handler) list" where
  "Callbacks c req fd r =
     (case r of
        RConfig ruleID \<Rightarrow>
          [(ReadOperation, handleApprovalRuleRead c ruleID),
           (UpdateOperation, handleApprovalRuleWrite c req ruleID (af_rule fd)),
           (CreateOperation, handleApprovalRuleWrite c req ruleID (af_rule fd)),
           (DeleteOperation, handleApprovalRuleDelete c ruleID)]
      | RConfigList \<Rightarrow> [(ListOperation, handleApprovalRuleList c)]
      | RPending rid \<Rightarrow> [(ReadOperation, handleApprovalPendingRead c req rid)]
      | RPendingList \<Rightarrow> [(ListOperation, handleApprovalPendingList c req)]
      | RApprove rid \<Rightarrow> [(UpdateOperation, handleApprovalApprove c req rid)]
      | RDeny rid \<Rightarrow> [(UpdateOperation, handleApprovalDeny c req rid)]
      | RMyRequests \<Rightarrow> [(ReadOperation, handleApprovalMyRequests c req)]
      | RApprovable \<Rightarrow> [(ReadOperation, handleApprovalApprovable c req)]
      | RRequiresApproval \<Rightarrow> [(ReadOperation, handleApprovalRequiresApproval c (af_path fd))]
      | RFetch rid \<Rightarrow> [(ReadOperation, handleApprovalFetch c req rid)]
      | RHistory \<Rightarrow> [(ReadOperation, handleApprovalHistory c req)])"

text \<open>The declared fields of an entry and the fields captured from the path.\<close>

definition route_fields :: "approval_route \<Rightarrow> string list" where
  "route_fields r =
     (case r of
        RConfig _ \<Rightarrow> [''rule_id'', ''description'', ''target_mount_path'', ''authorized_approvers'',
          ''approvals_required'', ''slack_webhook_url'', ''allow_self_approval'']
      | RPending _ \<Rightarrow> [''id''] | RApprove _ \<Rightarrow> [''id''] | RDeny _ \<Rightarrow> [''id''] | RFetch _ \<Rightarrow> [''id'']
      | RRequiresApproval \<Rightarrow> [''path'']
      | _ \<Rightarrow> [])"

definition captures :: "approval_route \<Rightarrow> string list" where
  "captures r =
     (case r of
        RConfig _ \<Rightarrow> [''rule_id'']
      | RPending _ \<Rightarrow> [''id''] | RApprove _ \<Rightarrow> [''id''] | RDeny _ \<Rightarrow> [''id''] | RFetch _ \<Rightarrow> [''id'']
      | _ \<Rightarrow> [])"

definition ignored_params :: "Request \<Rightarrow> approval_route \<Rightarrow> string list" where
  "ignored_params req r = sort (filter (\<lambda>k. k \<notin> set (route_fields r)) (map fst (rq_Data req)))"

definition replaced_params :: "Request \<Rightarrow> approval_route \<Rightarrow> string list" where
  "replaced_params req r = filter (\<lambda>k. gget (rq_Data req) k \<noteq> GNil) (captures r)"

definition param_warning :: "string \<Rightarrow> string list \<Rightarrow> Response \<Rightarrow> Response" where
  "param_warning text names resp =
     (if names = [] then resp else AddWarning (text @ ''['' @ join_with '' '' names @ '']'') resp)"

definition param_warnings :: "Request \<Rightarrow> approval_route \<Rightarrow> result \<Rightarrow> result" where
  "param_warnings req r res =
     (case res of
        Inr (Some resp) \<Rightarrow> Inr (Some
          (param_warning ''Endpoint replaced the value of these parameters with the values captured from the endpoint's path: ''
             (replaced_params req r)
             (param_warning ''Endpoint ignored these unrecognized parameters: '' (ignored_params req r) resp)))
      | _ \<Rightarrow> res)"

text \<open>
  The dispatch of a request whose operation is not one of the framework's global ones (renew,
  revoke, rollback, rotation) nor help. The entries of the table are of the older form: they
  have callbacks only and require no licence feature.
\<close>

definition HandleRequest :: "core \<Rightarrow> Request \<Rightarrow> approval_fields \<Rightarrow> string \<Rightarrow> result handler" where
  "HandleRequest c req fd path =
     (case first_match approvalPaths path of
        None \<Rightarrow> ret (Inl ErrUnsupportedPath)
      | Some r \<Rightarrow>
          (case map_of (Callbacks c req fd r) (rq_Operation req) of
             None \<Rightarrow> ret (Inl ErrUnsupportedOperation)
           | Some callback \<Rightarrow>
               (case af_invalid fd of
                  Some msg \<Rightarrow> ret (error_resp ''Field validation failed: %s'' [GStr msg])
                | None \<Rightarrow> do {
                    resp \<leftarrow> callback;
                    ret (param_warnings req r resp)
                  })))"

section \<open>Captured identifiers\<close>

text \<open>
  Captured identifiers are plain ASCII without separators or dots, so they survive the JSON
  encoding and the view's check against relative keys.
\<close>

definition key_char :: "char \<Rightarrow> bool" where
  "key_char ch \<longleftrightarrow> of_char ch < (128::nat) \<and> ch \<noteq> CHR ''/'' \<and> ch \<noteq> CHR ''.''"

definition key_part :: "string \<Rightarrow> bool" where
  "key_part s \<longleftrightarrow> list_all key_char s"

lemma key_part_jstr [simp]: "key_part s \<Longrightarrow> to_valid_utf8 s = s"
  by (rule ascii_valid_utf8) (simp add: key_part_def key_char_def list_all_iff)

lemma no_dot_sane: "CHR ''.'' \<notin> set s \<Longrightarrow> SanityCheck s"
  by (auto simp: SanityCheck_def contains_sub_iff)

lemma key_part_sane [simp]:
  assumes "key_part s"
  shows "SanityCheck (config_key s)" "SanityCheck (pending_key s)" "SanityCheck (history_key s)"
proof -
  have "CHR ''.'' \<notin> set s"
    using assms by (auto simp: key_part_def key_char_def list_all_iff)
  then show "SanityCheck (config_key s)" "SanityCheck (pending_key s)" "SanityCheck (history_key s)"
    by (auto intro!: no_dot_sane simp: config_key_def pending_key_def history_key_def)
qed

lemma ruleIDPattern_key_part: "ruleIDPattern s \<Longrightarrow> key_part s"
  by (auto simp: ruleIDPattern_def key_part_def rule_id_char_def key_char_def list_all_iff Let_def)

lemma hex_lower_key_char: "hex_lower ch \<Longrightarrow> key_char ch"
  by (auto simp: hex_lower_def key_char_def)

lemma join_with_all:
  "list_all P sep \<Longrightarrow> list_all (list_all P) ws \<Longrightarrow> list_all P (join_with sep ws)"
  by (induction sep ws rule: join_with.induct) simp_all

lemma uuidPattern_key_part: "uuidPattern s \<Longrightarrow> key_part s"
proof -
  assume "uuidPattern s"
  then have "list_all (list_all hex_lower) (split_on (CHR ''-'') s)"
    unfolding uuidPattern_def by (rule conjunct2)
  then have "list_all (list_all key_char) (split_on (CHR ''-'') s)"
    by (rule list.pred_mono_strong) (erule list.pred_mono_strong, rule hex_lower_key_char)
  moreover have "list_all key_char [CHR ''-'']" by (simp add: key_char_def)
  ultimately have "list_all key_char (join_with [CHR ''-''] (split_on (CHR ''-'') s))"
    by (intro join_with_all)
  then show "key_part s" unfolding key_part_def join_split_on .
qed

lemma below_Some: "below fixed ok p = Some t \<longleftrightarrow> p = fixed @ t \<and> ok t"
  by (auto simp: below_def has_prefix_iff trim_prefix_def)

text \<open>Which paths reach which entry, and with which identifier.\<close>

fun route_path :: "approval_route \<Rightarrow> string" where
  "route_path (RConfig r) = ''approvals/config/'' @ r"
| "route_path RConfigList = ''approvals/config''"
| "route_path (RPending r) = ''approvals/pending/'' @ r"
| "route_path RPendingList = ''approvals/pending''"
| "route_path (RApprove r) = ''approvals/approve/'' @ r"
| "route_path (RDeny r) = ''approvals/deny/'' @ r"
| "route_path RMyRequests = ''approvals/my-requests''"
| "route_path RApprovable = ''approvals/approvable''"
| "route_path RRequiresApproval = ''approvals/requires-approval''"
| "route_path (RFetch r) = ''approvals/fetch/'' @ r"
| "route_path RHistory = ''approvals/history''"

fun route_ok :: "approval_route \<Rightarrow> bool" where
  "route_ok (RConfig r) = ruleIDPattern r"
| "route_ok (RPending r) = uuidPattern r"
| "route_ok (RApprove r) = uuidPattern r"
| "route_ok (RDeny r) = uuidPattern r"
| "route_ok (RFetch r) = uuidPattern r"
| "route_ok _ = True"

definition route_sound :: "(string \<Rightarrow> approval_route option) \<Rightarrow> bool" where
  "route_sound e \<longleftrightarrow> (\<forall>p r. e p = Some r \<longrightarrow> route_ok r \<and>
     (p = route_path r \<or> p = route_path r @ ''/'' \<and> r \<in> {RConfigList, RPendingList}))"

lemma route_sound_id:
  "(\<And>t. ok t \<Longrightarrow> route_ok (f t)) \<Longrightarrow> (\<And>t. route_path (f t) = fixed @ t) \<Longrightarrow>
   route_sound (\<lambda>p. map_option f (below fixed ok p))"
  by (auto simp: route_sound_def below_Some)

lemma route_sound_list:
  "r \<in> {RConfigList, RPendingList} \<Longrightarrow>
   route_sound (\<lambda>p. map_option (\<lambda>_. r) (below (route_path r) optional_slash p))"
  by (auto simp: route_sound_def below_Some optional_slash_def simp del: append_Cons)

lemma route_sound_const:
  "route_ok r \<Longrightarrow> route_path r = q \<Longrightarrow> route_sound (\<lambda>p. if p = q then Some r else None)"
  by (auto simp: route_sound_def)

lemma first_match_mem: "first_match es p = Some r \<Longrightarrow> \<exists>e \<in> set es. e p = Some r"
  by (induction es) (auto split: option.splits)

lemma approvalPaths_sound: "list_all route_sound approvalPaths"
  unfolding approvalPaths_def list.pred_inject(2)
  by (intro conjI route_sound_id route_sound_const
      route_sound_list [of RConfigList, simplified route_path.simps]
      route_sound_list [of RPendingList, simplified route_path.simps])
     (simp_all only: route_ok.simps route_path.simps list.pred_inject insert_iff simp_thms)

lemma first_match_sound:
  assumes "first_match approvalPaths p = Some r"
  shows "route_ok r"
    and "p = route_path r \<or> p = route_path r @ ''/'' \<and> r \<in> {RConfigList, RPendingList}"
  using first_match_mem [OF assms] approvalPaths_sound
  unfolding list_all_iff route_sound_def by blast+

text \<open>The table is unambiguous, so the order of its entries does not matter.\<close>

lemma route_path_inj: "route_path r = route_path r' \<Longrightarrow> r = r'"
  by (cases r; cases r') simp_all

lemma route_path_slash:
  "route_ok r \<Longrightarrow> r' \<in> {RConfigList, RPendingList} \<Longrightarrow> route_path r \<noteq> route_path r' @ ''/''"
  by (cases r) (auto simp: ruleIDPattern_def uuidPattern_def)

lemma first_match_None: "first_match es p = None \<longleftrightarrow> (\<forall>e \<in> set es. e p = None)"
  by (induction es) (auto split: option.splits)

lemma first_match_unique:
  assumes "route_ok r" "first_match approvalPaths (route_path r) = Some r'"
  shows "r' = r"
  using first_match_sound [OF assms(2)] route_path_inj route_path_slash assms(1) by metis

lemma below_append [simp]: "ok t \<Longrightarrow> below fixed ok (fixed @ t) = Some t"
  by (simp add: below_Some)

lemma approvalPaths_total: "route_ok r \<Longrightarrow> \<exists>e \<in> set approvalPaths. e (route_path r) \<noteq> None"
  using below_append [of optional_slash "[]"]
  by (cases r; simp only: approvalPaths_def list.set insert_iff bex_simps simp_thms route_path.simps
      route_ok.simps below_append option.map option.distinct append_Nil2 optional_slash_def)
    (simp_all add: optional_slash_def)

lemma first_match_complete: "route_ok r \<Longrightarrow> first_match approvalPaths (route_path r) = Some r"
  using approvalPaths_total first_match_None first_match_unique
  by (metis option.exhaust)

end
