(* ===== verification/Approval_Safety.thy ===== *)
theory Approval_Safety
  imports Approval_Logic Approval_Paths
begin

text \<open>
  The invariant of the approval storage and its preservation by every operation: rules are
  valid, parked requests carry no credential header, their justification is free of markup,
  nobody votes twice, every document lies at the key its identifier names.
\<close>

section \<open>Well-formed documents\<close>

definition https_colon :: "string \<Rightarrow> bool" where
  "https_colon s \<longleftrightarrow> map ascii_lower s = ''https:''"

definition webhook_ok :: "string \<Rightarrow> bool" where
  "webhook_ok u \<longleftrightarrow> u = [] \<or> https_colon (take 6 u)"

definition rule_ok :: "ApprovalRule \<Rightarrow> bool" where
  "rule_ok r \<longleftrightarrow> ruleIDPattern (ar_RuleID r) \<and> ar_TargetMountPath r \<noteq> [] \<and> ar_AuthorizedApprovers r \<noteq> []
     \<and> 1 \<le> ar_ApprovalsRequired r \<and> webhook_ok (ar_SlackWebhookURL r)"

definition headers_ok :: "headers \<Rightarrow> bool" where
  "headers_ok hs \<longleftrightarrow> list_all (\<lambda>(k, _). CanonicalHeaderKey k \<notin> set blockedHeaders) hs"

definition plain_char :: "char \<Rightarrow> bool" where
  "plain_char ch \<longleftrightarrow>
     (let n = of_char ch :: nat in 0x20 \<le> n \<and> n \<noteq> 0x7F \<and> n \<noteq> 0x3C \<and> n \<noteq> 0x3E)"

definition voters :: "ApprovalRecord list \<Rightarrow> string list" where
  "voters vs = filter (\<lambda>v. v \<noteq> []) (map av_ApproverEntityID vs)"

definition pending_ok :: "PendingRequest \<Rightarrow> bool" where
  "pending_ok p \<longleftrightarrow> uuidPattern (pr_RequestID p) \<and> ruleIDPattern (pr_RuleID p)
     \<and> pr_Status p \<in> set [''pending'', ''approved'', ''denied'']
     \<and> pr_ExpiresAt p = pr_CreatedAt p + approvalRequestTTL
     \<and> headers_ok (pr_OriginalHeaders p) \<and> list_all plain_char (pr_Justification p)
     \<and> distinct (voters (pr_Approvals p))
     \<and> (pr_Status p = ''approved'' \<longrightarrow> pr_Approvals p \<noteq> [])"

definition history_ok :: "ApprovalHistoryEntry \<Rightarrow> bool" where
  "history_ok h \<longleftrightarrow> uuidPattern (ah_RequestID h)
     \<and> ah_Status h \<in> set [''retrieved'', ''denied'', ''expired'']
     \<and> ah_HistoryExpiresAt h = ah_ResolvedAt h + approvalHistoryTTL
     \<and> list_all plain_char (ah_Justification h)"

fun doc_ok :: "string \<Rightarrow> doc \<Rightarrow> bool" where
  "doc_ok k (DRule r) \<longleftrightarrow> k = config_key (ar_RuleID r) \<and> rule_ok r"
| "doc_ok k (DPending p) \<longleftrightarrow> k = pending_key (pr_RequestID p) \<and> pending_ok p \<and> json_pending p = p"
| "doc_ok k (DHistory h) \<longleftrightarrow> k = history_key (ah_RequestID h) \<and> history_ok h"
| "doc_ok k (DRaw b) \<longleftrightarrow> False"

definition approval_inv :: "core \<Rightarrow> world \<Rightarrow> bool" where
  "approval_inv c = doc_inv c uuidPattern doc_ok"

section \<open>Keys\<close>

lemma key_inj [simp]:
  "config_key a = config_key b \<longleftrightarrow> a = b"
  "pending_key a = pending_key b \<longleftrightarrow> a = b"
  "history_key a = history_key b \<longleftrightarrow> a = b"
  by (simp_all add: config_key_def pending_key_def history_key_def)

lemma key_distinct [simp]:
  "config_key a \<noteq> pending_key b" "pending_key a \<noteq> config_key b"
  "config_key a \<noteq> history_key b" "history_key a \<noteq> config_key b"
  "pending_key a \<noteq> history_key b" "history_key a \<noteq> pending_key b"
  by (simp_all add: config_key_def pending_key_def history_key_def)

lemma doc_ok_config: "doc_ok (config_key rid) d \<longleftrightarrow> (\<exists>r. d = DRule r \<and> ar_RuleID r = rid \<and> rule_ok r)"
  by (cases d) auto

lemma doc_ok_pending:
  "doc_ok (pending_key rid) d \<longleftrightarrow>
   (\<exists>p. d = DPending p \<and> pr_RequestID p = rid \<and> pending_ok p \<and> json_pending p = p)"
  by (cases d) auto

lemma doc_ok_history:
  "doc_ok (history_key rid) d \<longleftrightarrow> (\<exists>h. d = DHistory h \<and> ah_RequestID h = rid \<and> history_ok h)"
  by (cases d) auto

lemmas doc_ok_keys = doc_ok_config doc_ok_pending doc_ok_history

section \<open>What the JSON encoding keeps\<close>

lemma plain_jstr: "list_all plain_char s \<Longrightarrow> list_all plain_char (to_valid_utf8 s)"
proof -
  assume s: "list_all plain_char s"
  have "plain_char ch" if "ch \<in> set (to_valid_utf8 s)" for ch
  proof (cases "of_char ch < (128::nat)")
    case True
    with that s show ?thesis using to_valid_utf8_low by (auto simp: list_all_iff)
  next
    case False
    then show ?thesis by (auto simp: plain_char_def)
  qed
  then show ?thesis by (simp add: list_all_iff)
qed

lemma canon_bytes_low: "list_all valid_header_byte s \<Longrightarrow> ch \<in> set s \<Longrightarrow> of_char ch < (128::nat)"
  by (auto simp: list_all_iff valid_header_byte_def Let_def)

lemma blocked_low: "h \<in> set blockedHeaders \<Longrightarrow> ch \<in> set h \<Longrightarrow> of_char ch < (128::nat)"
  by (auto simp: blockedHeaders_def)

lemma blocked_jstr:
  assumes "CanonicalHeaderKey (to_valid_utf8 k) \<in> set blockedHeaders"
  shows "to_valid_utf8 k = k"
proof (rule to_valid_utf8_all_low, rule ballI)
  fix ch assume ch: "ch \<in> set (to_valid_utf8 k)"
  show "of_char ch < (128::nat)"
  proof (cases "list_all valid_header_byte (to_valid_utf8 k)")
    case True
    then show ?thesis using ch by (rule canon_bytes_low)
  next
    case False
    then show ?thesis using assms ch blocked_low by (auto simp: CanonicalHeaderKey_def)
  qed
qed

lemma headers_ok_json: "headers_ok hs \<Longrightarrow> headers_ok (json_headers hs)"
  using blocked_jstr by (fastforce simp: headers_ok_def json_headers_def list_all_iff)

lemma headers_ok_safe: "headers_ok (safeHeaders hs)"
  by (auto simp: headers_ok_def safeHeaders_def list_all_iff)

lemma ascii_lower_low: "of_char (ascii_lower ch) < (128::nat) \<Longrightarrow> of_char ch < (128::nat)"
  by (cases "65 \<le> (of_char ch :: nat) \<and> (of_char ch :: nat) \<le> 90") (simp_all add: ascii_lower_def)

lemma https_low:
  assumes "https_colon s" "ch \<in> set s"
  shows "of_char ch < (128::nat)"
proof (rule ascii_lower_low)
  have "ascii_lower ch \<in> set (map ascii_lower s)" unfolding set_map using assms(2) by (rule imageI)
  then have "ascii_lower ch \<in> set ''https:''" using assms(1) by (simp only: https_colon_def)
  moreover have "\<forall>x \<in> set ''https:''. of_char x < (128::nat)" by simp
  ultimately show "of_char (ascii_lower ch) < (128::nat)" by (rule bspec [rotated])
qed

lemma https_length: "https_colon s \<Longrightarrow> length s = 6"
  unfolding https_colon_def by (drule arg_cong [of _ _ length]) simp

lemma webhook_ok_append: "https_colon s \<Longrightarrow> webhook_ok (s @ t)"
  using https_length [of s] by (simp add: webhook_ok_def)

lemma webhook_ok_jstr: "webhook_ok u \<Longrightarrow> webhook_ok (to_valid_utf8 u)"
proof (cases "u = []")
  case False
  assume "webhook_ok u"
  with False have h: "https_colon (take 6 u)" by (simp add: webhook_ok_def)
  have "to_valid_utf8 (take 6 u @ drop 6 u) = take 6 u @ to_valid_utf8 (drop 6 u)"
    using https_low [OF h] by (intro to_valid_utf8_prefix ballI)
  with webhook_ok_append [OF h] show ?thesis by simp
qed (simp add: webhook_ok_def)

lemma https_colonI: "map ascii_lower s = ''https'' \<Longrightarrow> https_colon (s @ '':'')"
  by (simp add: https_colon_def ascii_lower_def)

lemma bad_webhook_ok: "\<not> bad_webhook c u \<Longrightarrow> webhook_ok u"
proof (cases "u = []")
  case False
  assume "\<not> bad_webhook c u"
  with False have "url_scheme (c_urlRestOK c) u = Some ''https''" by (simp add: bad_webhook_def)
  then obtain sch rest where u: "u = sch @ '':'' @ rest" and s: "map ascii_lower sch = ''https''"
    by (rule url_scheme_https)
  show ?thesis
    using webhook_ok_append [OF https_colonI [OF s], of rest] unfolding u append.assoc .
qed (simp add: webhook_ok_def)

lemma status_jstr [simp]:
  "to_valid_utf8 ''pending'' = ''pending''" "to_valid_utf8 ''approved'' = ''approved''"
  "to_valid_utf8 ''denied'' = ''denied''" "to_valid_utf8 ''retrieved'' = ''retrieved''"
  "to_valid_utf8 ''expired'' = ''expired''"
  by (rule ascii_valid_utf8, simp)+

lemma uuid_jstr [simp]: "uuidPattern u \<Longrightarrow> to_valid_utf8 u = u"
  by (simp add: uuidPattern_key_part)

lemma rule_id_jstr [simp]: "ruleIDPattern r \<Longrightarrow> to_valid_utf8 r = r"
  by (simp add: ruleIDPattern_key_part)

lemma doc_ok_rule: "rule_ok r \<Longrightarrow> doc_ok (config_key (ar_RuleID r)) (DRule (json_rule r))"
  by (auto simp: rule_ok_def json_rule_def webhook_ok_jstr)

lemma doc_ok_pendingI:
  assumes "pending_ok p" "map json_vote (pr_Approvals p) = pr_Approvals p"
  shows "doc_ok (pending_key (pr_RequestID p)) (DPending (json_pending p))"
  using assms by (auto simp: pending_ok_def json_pending_def headers_ok_json plain_jstr)

lemma doc_ok_historyI:
  "history_ok h \<Longrightarrow> doc_ok (history_key (ah_RequestID h)) (DHistory (json_history h))"
  by (auto simp: history_ok_def json_history_def plain_jstr)

lemma json_pending_Approvals: "pr_Approvals (json_pending p) = map json_vote (pr_Approvals p)"
  by (simp add: json_pending_def)

lemma stored_votes: "json_pending p = p \<Longrightarrow> map json_vote (pr_Approvals p) = pr_Approvals p"
  using json_pending_Approvals [of p] by simp

section \<open>Sanitised justifications\<close>

lemma plain_sanitize_rune:
  "x \<in> set (sanitize_rune r) \<Longrightarrow> 0x20 \<le> x \<and> x \<noteq> 0x7F \<and> x \<noteq> 0x3C \<and> x \<noteq> 0x3E"
  by (auto simp: sanitize_rune_def split: if_splits)

lemma plain_encode:
  assumes "0x20 \<le> x \<and> x \<noteq> 0x7F \<and> x \<noteq> 0x3C \<and> x \<noteq> 0x3E" "b \<in> set (utf8_encode_rune x)"
  shows "plain_char (char_of b)"
proof -
  have "(of_char (char_of b :: char) :: nat) = b"
    using utf8_encode_rune_bytes [OF assms(2)] by (simp add: of_char_of)
  moreover have "b = x \<or> \<not> b < 128" using utf8_encode_rune_low [OF assms(2)] by blast
  ultimately show ?thesis using assms(1) by (auto simp: plain_char_def Let_def)
qed

lemma plain_sanitized: "list_all plain_char (sanitizeJustification s)"
proof -
  let ?rs = "trim_space (concat (map sanitize_rune (runes s)))"
  have "\<forall>x \<in> set ?rs. 0x20 \<le> x \<and> x \<noteq> 0x7F \<and> x \<noteq> 0x3C \<and> x \<noteq> 0x3E"
    using set_trim_space plain_sanitize_rune by fastforce
  then have "\<forall>ch \<in> set (string_of_runes ?rs). plain_char ch"
    using plain_encode by (auto simp: string_of_runes_def)
  then show ?thesis
    by (auto simp: sanitizeJustification_def Let_def list_all_iff dest: in_set_takeD)
qed

lemma sanitized_length: "length (sanitizeJustification s) \<le> 1000"
  by (simp add: sanitizeJustification_def Let_def)

lemma plain_request_justification: "list_all plain_char (request_justification hs)"
  by (simp add: request_justification_def plain_sanitized split: option.splits list.splits)

section \<open>Records between load and store\<close>

text \<open>
  \<open>stored_ok rid p\<close>: the record may be written under the identifier \<open>rid\<close>. The facts below say
  which changes of a record the handlers may make.
\<close>

definition stored_ok :: "string \<Rightarrow> PendingRequest \<Rightarrow> bool" where
  "stored_ok rid p \<longleftrightarrow> pending_ok p \<and> map json_vote (pr_Approvals p) = pr_Approvals p
     \<and> pr_RequestID p = rid"

lemma new_pending_ok:
  "uuidPattern rid \<Longrightarrow> rule_ok rule \<Longrightarrow> stored_ok rid (new_pending rid rule req now)"
  by (simp add: stored_ok_def pending_ok_def new_pending_def rule_ok_def headers_ok_safe
      plain_request_justification voters_def)

lemma stored_ok_capture:
  "stored_ok rid p \<Longrightarrow> stored_ok rid ((capture_response r p)\<lparr>pr_ApprovedAt := t\<rparr>)"
  by (auto simp: stored_ok_def pending_ok_def capture_response_def Let_def split: option.splits)

lemma voters_butlast: "distinct (voters vs) \<Longrightarrow> distinct (voters (butlast vs))"
  by (cases vs rule: rev_cases) (auto simp: voters_def)

lemma map_fix_butlast: "map f xs = xs \<Longrightarrow> map f (butlast xs) = butlast xs"
  by (metis map_butlast)

lemma stored_ok_rollback:
  "stored_ok rid p \<Longrightarrow>
   stored_ok rid (p\<lparr>pr_Status := ''pending'', pr_Approvals := butlast (pr_Approvals p)\<rparr>)"
  by (auto simp: stored_ok_def pending_ok_def voters_butlast map_fix_butlast)

lemma stored_ok_approved:
  "stored_ok rid p \<Longrightarrow> pr_Approvals p \<noteq> [] \<Longrightarrow> stored_ok rid (p\<lparr>pr_Status := ''approved''\<rparr>)"
  by (auto simp: stored_ok_def pending_ok_def)

text \<open>Entity identifiers are text: they survive the JSON encoding unchanged.\<close>

definition req_ok :: "Request \<Rightarrow> bool" where
  "req_ok req \<longleftrightarrow> to_valid_utf8 (rq_EntityID req) = rq_EntityID req"

lemma stored_ok_vote:
  assumes "stored_ok rid p" "approve_refusal c req p rule = None" "req_ok req"
  shows "stored_ok rid (p\<lparr>pr_Approvals := pr_Approvals p @
    [\<lparr>av_ApproverEntityID = rq_EntityID req, av_ApprovedAt = now\<rparr>]\<rparr>)"
  using assms
  by (auto simp: stored_ok_def pending_ok_def voters_def approve_refusal_def req_ok_def json_vote_def
      list_ex_iff image_iff split: if_splits)

lemma history_of_ok:
  "stored_ok rid p \<Longrightarrow> status \<in> set [''retrieved'', ''denied'', ''expired''] \<Longrightarrow>
   history_ok (history_of p status now by_id by_name)"
  by (auto simp: stored_ok_def pending_ok_def history_ok_def history_of_def)

lemma stored_ok_denied: "stored_ok rid p \<Longrightarrow> stored_ok rid (p\<lparr>pr_Status := ''denied''\<rparr>)"
  by (auto simp: stored_ok_def pending_ok_def)

lemma stored_ok_burnt: "stored_ok rid p \<Longrightarrow> stored_ok rid (p\<lparr>pr_CredentialData := None\<rparr>)"
  by (auto simp: stored_ok_def pending_ok_def)

lemma merge_rule_ok:
  assumes "merge_rule c data e = Inr r" "ruleIDPattern (ar_RuleID e)" "1 \<le> ar_ApprovalsRequired e"
    "webhook_ok (ar_SlackWebhookURL e)"
  shows "rule_ok r"
  using assms bad_webhook_ok
  by (auto simp: merge_rule_def rule_ok_def Let_def split: option.splits if_splits)

section \<open>Policies on records\<close>

text \<open>
  A parked request never changes; only its status, votes and credential do. A policy is a
  further condition on the stored records. Every handler respects a policy that leaves pending
  records free to change apart from the parked request, and that is kept by clearing the
  credential and by the JSON encoding; the interceptor needs in addition that new records
  satisfy it.
\<close>

definition same_request :: "PendingRequest \<Rightarrow> PendingRequest \<Rightarrow> bool" where
  "same_request p q \<longleftrightarrow> pr_RequestID q = pr_RequestID p \<and> pr_RuleID q = pr_RuleID p
     \<and> pr_OriginalPath q = pr_OriginalPath p \<and> pr_OriginalOperation q = pr_OriginalOperation p
     \<and> pr_OriginalData q = pr_OriginalData p \<and> pr_OriginalHeaders q = pr_OriginalHeaders p
     \<and> pr_OriginalMountPoint q = pr_OriginalMountPoint p
     \<and> pr_RequesterEntityID q = pr_RequesterEntityID p
     \<and> pr_RequesterDisplayName q = pr_RequesterDisplayName p
     \<and> pr_CreatedAt q = pr_CreatedAt p \<and> pr_ExpiresAt q = pr_ExpiresAt p
     \<and> pr_Justification q = pr_Justification p"

definition policy_doc :: "(string \<Rightarrow> PendingRequest \<Rightarrow> bool) \<Rightarrow> string \<Rightarrow> doc \<Rightarrow> bool" where
  "policy_doc E k d \<longleftrightarrow> doc_ok k d \<and> (case d of DPending p \<Rightarrow> E (pr_RequestID p) p | _ \<Rightarrow> True)"

definition policy_inv :: "core \<Rightarrow> (string \<Rightarrow> PendingRequest \<Rightarrow> bool) \<Rightarrow> world \<Rightarrow> bool" where
  "policy_inv c E = doc_inv c uuidPattern (policy_doc E)"

definition fluid :: "(string \<Rightarrow> PendingRequest \<Rightarrow> bool) \<Rightarrow> string \<Rightarrow> PendingRequest \<Rightarrow> bool" where
  "fluid E rid p \<longleftrightarrow> stored_ok rid p \<and> (\<forall>q. same_request p q \<longrightarrow> E rid q)"

lemma same_request_refl [simp]: "same_request p p"
  by (simp add: same_request_def)

lemma same_request_trans: "same_request p q \<Longrightarrow> same_request q r \<Longrightarrow> same_request p r"
  by (simp add: same_request_def)

lemma same_request_json: "json_pending p = p \<Longrightarrow> same_request p q \<Longrightarrow> same_request p (json_pending q)"
  by (cases p; cases q) (simp add: same_request_def json_pending_def)

lemma same_request_changes [simp]:
  "same_request p (q\<lparr>pr_Status := s\<rparr>) = same_request p q"
  "same_request p (q\<lparr>pr_Approvals := vs\<rparr>) = same_request p q"
  "same_request p (q\<lparr>pr_CredentialData := d\<rparr>) = same_request p q"
  "same_request p (q\<lparr>pr_ApprovedAt := t\<rparr>) = same_request p q"
  "same_request p (q\<lparr>pr_SecretTTL := m\<rparr>) = same_request p q"
  "same_request p (q\<lparr>pr_SecretMaxTTL := m\<rparr>) = same_request p q"
  by (simp_all add: same_request_def)

lemma same_request_capture [simp]: "same_request p (capture_response r q) = same_request p q"
  by (simp add: capture_response_def Let_def split: option.splits)

lemma fluid_change: "fluid E rid p \<Longrightarrow> same_request p p' \<Longrightarrow> stored_ok rid p' \<Longrightarrow> fluid E rid p'"
  unfolding fluid_def using same_request_trans by blast

lemma fluid_stored: "fluid E rid p \<Longrightarrow> stored_ok rid p \<and> E rid p"
  by (simp add: fluid_def)

lemma fluid_capture:
  "fluid E rid p \<Longrightarrow> fluid E rid ((capture_response r p)\<lparr>pr_ApprovedAt := t\<rparr>)"
  using fluid_change [of E rid p] stored_ok_capture [of rid p] fluid_stored [of E rid p] by simp

lemma fluid_rollback:
  "fluid E rid p \<Longrightarrow>
   fluid E rid (p\<lparr>pr_Status := ''pending'', pr_Approvals := butlast (pr_Approvals p)\<rparr>)"
  using fluid_change [of E rid p] stored_ok_rollback [of rid p] fluid_stored [of E rid p] by simp

lemma fluid_approved:
  "fluid E rid p \<Longrightarrow> pr_Approvals p \<noteq> [] \<Longrightarrow> fluid E rid (p\<lparr>pr_Status := ''approved''\<rparr>)"
  using fluid_change [of E rid p] stored_ok_approved [of rid p] fluid_stored [of E rid p] by simp

lemma fluid_denied: "fluid E rid p \<Longrightarrow> fluid E rid (p\<lparr>pr_Status := ''denied''\<rparr>)"
  using fluid_change [of E rid p] stored_ok_denied [of rid p] fluid_stored [of E rid p] by simp

lemma fluid_vote:
  "fluid E rid p \<Longrightarrow> approve_refusal c req p rule = None \<Longrightarrow> req_ok req \<Longrightarrow>
   fluid E rid (p\<lparr>pr_Approvals := pr_Approvals p @
     [\<lparr>av_ApproverEntityID = rq_EntityID req, av_ApprovedAt = now\<rparr>]\<rparr>)"
  using fluid_change [of E rid p] stored_ok_vote [of rid p] fluid_stored [of E rid p] by simp

lemma policy_inv_free: "policy_inv c (\<lambda>_ _. True) = approval_inv c"
proof -
  have "policy_doc (\<lambda>_ _. True) = doc_ok"
    by (auto simp: policy_doc_def fun_eq_iff split: doc.splits)
  then show ?thesis by (simp add: policy_inv_def approval_inv_def)
qed

locale record_policy =
  fixes E :: "string \<Rightarrow> PendingRequest \<Rightarrow> bool"
  assumes E_pending: "E rid p \<Longrightarrow> pr_Status p = ''pending'' \<Longrightarrow> same_request p q \<Longrightarrow> E rid q"
    and E_burn: "E rid p \<Longrightarrow> E rid (p\<lparr>pr_CredentialData := None\<rparr>)"
    and E_json: "E rid p \<Longrightarrow> E rid (json_pending p)"
begin

lemmas inv_prims = keeps_prims [where U = uuidPattern and D = "policy_doc E", folded policy_inv_def]

lemma inv_getRule:
  "keeps (policy_inv c E) (getApprovalRule c ruleID)
     (\<lambda>r. \<forall>rule. r = Inr (Some rule) \<longrightarrow> rule_ok rule \<and> ar_RuleID rule = ruleID)"
  unfolding policy_inv_def
  by (rule keeps_weaken [OF keeps_getApprovalRule]) (auto simp: doc_ok_keys policy_doc_def)

lemma inv_getPending:
  "keeps (policy_inv c E) (getPendingRequest c rid)
     (\<lambda>r. \<forall>p. r = Inr (Some p) \<longrightarrow> stored_ok rid p \<and> E rid p)"
  unfolding policy_inv_def
  by (rule keeps_weaken [OF keeps_getPendingRequest])
     (auto simp: doc_ok_keys stored_ok_def stored_votes policy_doc_def)

lemma inv_read_pending:
  "keeps (policy_inv c E) (read_pending c key) (\<lambda>r. \<forall>p. r = Some p \<longrightarrow> stored_ok key p \<and> E key p)"
  unfolding policy_inv_def
  by (rule keeps_weaken [OF keeps_read_pending])
     (auto simp: doc_ok_keys stored_ok_def stored_votes policy_doc_def)

lemma inv_putRule:
  "rule_ok rule \<Longrightarrow> keeps (policy_inv c E) (putApprovalRule c rule) (\<lambda>_. True)"
  unfolding policy_inv_def
  by (intro keeps_putApprovalRule) (use doc_ok_rule in \<open>auto simp: policy_doc_def simp del: doc_ok.simps\<close>)

lemma policy_doc_pending:
  "stored_ok rid p \<Longrightarrow> E rid p \<Longrightarrow> policy_doc E (pending_key (pr_RequestID p)) (DPending (json_pending p))"
  using doc_ok_pendingI [of p] E_json [of rid p]
  by (auto simp: policy_doc_def stored_ok_def pending_ok_def json_pending_def)

lemma inv_storePending:
  "stored_ok rid p \<and> E rid p \<Longrightarrow> keeps (policy_inv c E) (storePendingRequest c p) (\<lambda>_. True)"
  unfolding policy_inv_def by (intro keeps_storePendingRequest policy_doc_pending) auto

lemma inv_storeFluid:
  "fluid E rid p \<Longrightarrow> keeps (policy_inv c E) (storePendingRequest c p) (\<lambda>_. True)"
  by (rule inv_storePending [OF fluid_stored])

lemma inv_storeHistory:
  "history_ok h \<Longrightarrow> keeps (policy_inv c E) (storeHistoryEntry c h) (\<lambda>_. True)"
  unfolding policy_inv_def
  by (intro keeps_storeHistoryEntry)
     (use doc_ok_historyI in \<open>auto simp: policy_doc_def simp del: doc_ok.simps\<close>)

lemma inv_match:
  "keeps (policy_inv c E) (match_rule_loop c path keys)
     (\<lambda>r. \<forall>rule. r = Some rule \<longrightarrow> rule_ok rule \<and> approvalRuleMatchesPath rule path)"
  unfolding policy_inv_def
  by (rule keeps_weaken [OF keeps_match_rule_loop]) (auto simp: doc_ok_keys policy_doc_def)

lemma inv_sweep: "keeps (policy_inv c E) (sweepPendingRequestsByRule c ruleID) (\<lambda>_. True)"
  unfolding policy_inv_def by (rule keeps_sweep)

lemma inv_checkActive: "keeps (policy_inv c E) (checkActiveApprovalRequest c req) (\<lambda>_. True)"
  unfolding policy_inv_def by (rule keeps_checkActive)

lemma inv_execute:
  "fluid E rid p \<Longrightarrow>
   keeps (policy_inv c E) (executeApprovedRequest c p) (\<lambda>(_, p'). fluid E rid p')"
  unfolding executeApprovedRequest_def
  by (auto intro!: keeps_rules keeps_bind [OF inv_prims(6)] keeps_bind [OF inv_prims(7)]
      keeps_bind [OF inv_prims(4)] keeps_bind [OF inv_storeFluid] intro: fluid_capture)

lemma inv_load_decidable:
  "keeps (policy_inv c E) (load_decidable c rid)
     (\<lambda>r. \<forall>p rule. r = Inr (p, rule) \<longrightarrow> fluid E rid p \<and> rule_ok rule)"
  unfolding load_decidable_def
  by (auto intro!: keeps_rules keeps_bind [OF inv_getPending] keeps_bind [OF inv_prims(4)]
      keeps_bind [OF inv_prims(3)] keeps_bind [OF inv_getRule] simp: fluid_def intro: E_pending)

lemma inv_approve_execute:
  "fluid E rid p \<Longrightarrow> pr_Approvals p \<noteq> [] \<Longrightarrow>
   keeps (policy_inv c E) (approve_execute c rid p) (\<lambda>_. True)"
  unfolding approve_execute_def
  by (auto intro!: keeps_rules keeps_bind [OF inv_storeFluid [OF fluid_approved]]
      keeps_bind [OF inv_getPending] keeps_bind [OF inv_execute [OF fluid_approved]]
      keeps_bind [OF inv_storeFluid [OF fluid_rollback]])

lemma inv_approve:
  "req_ok req \<Longrightarrow> keeps (policy_inv c E) (handleApprovalApprove c req rid) (\<lambda>_. True)"
  unfolding handleApprovalApprove_def
  by (auto intro!: keeps_rules keeps_bind [OF inv_load_decidable] keeps_bind [OF inv_prims(4)]
      keeps_bind [OF inv_approve_execute [OF fluid_vote]]
      keeps_bind [OF inv_storeFluid [OF fluid_vote]])

lemma inv_deny: "keeps (policy_inv c E) (handleApprovalDeny c req rid) (\<lambda>_. True)"
  unfolding handleApprovalDeny_def
  by (auto intro!: keeps_rules keeps_bind [OF inv_load_decidable] keeps_bind [OF inv_prims(4)]
      keeps_bind [OF inv_storeFluid [OF fluid_denied]]
      keeps_bind [OF inv_storeHistory [OF history_of_ok [OF stored_ok_denied]]] simp: fluid_def)

lemma inv_fetch_pending:
  "stored_ok rid p \<Longrightarrow> keeps (policy_inv c E) (fetch_pending c req rid p) (\<lambda>_. True)"
  unfolding fetch_pending_def
  by (auto intro!: keeps_rules keeps_bind [OF inv_prims(4)] keeps_bind [OF inv_prims(3)]
      keeps_bind [OF inv_storeHistory [OF history_of_ok]])

lemma inv_fetch_approved:
  "stored_ok rid p \<Longrightarrow> E rid p \<Longrightarrow> keeps (policy_inv c E) (fetch_approved c rid p) (\<lambda>_. True)"
  unfolding fetch_approved_def fetch_window_expired_def fetch_burn_def
  by (auto intro!: keeps_rules keeps_bind [OF inv_prims(4)] keeps_bind [OF inv_prims(3)]
      keeps_bind [OF inv_prims(5)] keeps_bind [OF inv_storePending [of rid]] conjI stored_ok_burnt E_burn
      keeps_bind [OF inv_storeHistory [OF history_of_ok]]
      keeps_bind [OF inv_storeHistory [OF history_of_ok [OF stored_ok_burnt]]])

lemma inv_fetch: "keeps (policy_inv c E) (handleApprovalFetch c req rid) (\<lambda>_. True)"
  unfolding handleApprovalFetch_def
  by (auto intro!: keeps_rules keeps_bind [OF inv_getPending] inv_fetch_pending inv_fetch_approved)

lemma inv_rule_write:
  assumes "ruleIDPattern ruleID"
  shows "keeps (policy_inv c E) (handleApprovalRuleWrite c req ruleID data) (\<lambda>_. True)"
proof -
  have "rule_ok r" if "merge_rule c data (case found of None \<Rightarrow> new_rule ruleID req | Some e \<Rightarrow> e) = Inr r"
    and "\<forall>rule. found = Some rule \<longrightarrow> rule_ok rule \<and> ar_RuleID rule = ruleID" for found r
    using merge_rule_ok [OF that(1)] that(2) assms
    by (auto simp: rule_ok_def new_rule_def zero_rule_def webhook_ok_def split: option.splits)
  then show ?thesis
    unfolding handleApprovalRuleWrite_def Let_def
    by (auto intro!: keeps_rules keeps_bind [OF inv_getRule] keeps_bind [OF inv_putRule])
qed

lemma inv_rule_delete: "keeps (policy_inv c E) (handleApprovalRuleDelete c ruleID) (\<lambda>_. True)"
  unfolding handleApprovalRuleDelete_def
  by (auto intro!: keeps_rules keeps_bind [OF inv_sweep] keeps_bind [OF inv_prims(3)])

lemma inv_read_rule:
  "keeps (policy_inv c E) (read_rule c key)
     (\<lambda>r. \<forall>rule. r = Some rule \<longrightarrow> rule_ok rule \<and> ar_RuleID rule = key)"
  unfolding policy_inv_def
  by (rule keeps_weaken [OF keeps_read_rule]) (auto simp: doc_ok_keys policy_doc_def)

lemma inv_approver_loop: "keeps (policy_inv c E) (approver_loop c e keys) (\<lambda>_. True)"
  by (induction keys) (auto intro!: keeps_rules keeps_bind [OF inv_read_rule])

lemma inv_require_approver: "keeps (policy_inv c E) (require_approver c req) (\<lambda>_. True)"
  unfolding require_approver_def
  by (auto intro!: keeps_rules keeps_bind [OF inv_prims(2)] keeps_bind [OF inv_approver_loop])

lemma inv_pending_list: "keeps (policy_inv c E) (handleApprovalPendingList c req) (\<lambda>_. True)"
  unfolding handleApprovalPendingList_def
  by (auto intro!: keeps_rules keeps_bind [OF inv_require_approver] keeps_bind [OF inv_prims(2)])

lemma inv_pending_read: "keeps (policy_inv c E) (handleApprovalPendingRead c req rid) (\<lambda>_. True)"
  unfolding handleApprovalPendingRead_def
  by (auto intro!: keeps_rules keeps_bind [OF inv_getPending] keeps_bind [OF inv_getRule]
      keeps_bind [OF inv_prims(3)] keeps_bind [OF inv_prims(4)]
      keeps_bind [where R = "\<lambda>_. True" and Q = "\<lambda>_. True"])

lemma inv_requires: "keeps (policy_inv c E) (handleApprovalRequiresApproval c path) (\<lambda>_. True)"
  unfolding handleApprovalRequiresApproval_def
  by (auto intro!: keeps_rules keeps_bind [OF inv_prims(2)] keeps_bind [OF inv_match])

lemma inv_rule_list: "keeps (policy_inv c E) (handleApprovalRuleList c) (\<lambda>_. True)"
  unfolding handleApprovalRuleList_def by (auto intro!: keeps_rules keeps_bind [OF inv_prims(2)])

lemma inv_rule_read: "keeps (policy_inv c E) (handleApprovalRuleRead c ruleID) (\<lambda>_. True)"
  unfolding handleApprovalRuleRead_def by (auto intro!: keeps_rules keeps_bind [OF inv_getRule])

text \<open>What the approver's and the requester's listings contain.\<close>

lemma inv_approvable_loop:
  "keeps (policy_inv c E) (approvable_loop c isRoot e keys)
     (\<lambda>ps. \<forall>p \<in> set ps. pr_Status p = ''pending'' \<and> pending_ok p)"
proof (induction keys arbitrary: isRoot e)
  case (Cons key keys)
  show ?case
    by (auto intro!: keeps_rules keeps_bind [OF inv_read_pending] keeps_bind [OF inv_prims(4)]
        keeps_bind [OF inv_prims(3)] keeps_bind [OF inv_getRule] keeps_bind [OF Cons.IH] Cons.IH
        simp: stored_ok_def split: if_splits)
qed (simp add: keeps_return)

lemma inv_approvable: "keeps (policy_inv c E) (handleApprovalApprovable c req) (\<lambda>_. True)"
  unfolding handleApprovalApprovable_def
  by (auto intro!: keeps_rules keeps_bind [OF inv_prims(2)] keeps_bind [OF inv_approvable_loop])

lemma inv_my_stale: "keeps (policy_inv c E) (my_stale p) (\<lambda>_. True)"
  unfolding my_stale_def
  by (auto intro!: keeps_rules keeps_bind [OF inv_prims(4)] keeps_bind [OF inv_prims(5)]
      keeps_bind [where R = "\<lambda>_. True" and Q = "\<lambda>_. True"])

lemma inv_my_loop:
  "keeps (policy_inv c E) (my_loop c e keys) (\<lambda>ps. \<forall>p \<in> set ps. pr_RequesterEntityID p = e)"
proof (induction keys arbitrary: e)
  case (Cons key keys)
  show ?case
    by (auto intro!: keeps_rules keeps_bind [OF inv_read_pending] keeps_bind [OF inv_my_stale]
        keeps_bind [OF inv_prims(3)] keeps_bind [OF Cons.IH] Cons.IH)
qed (simp add: keeps_return)

lemma inv_history_all:
  "keeps (policy_inv c E) (listAllHistoryEntries c)
     (\<lambda>r. \<forall>hs. r = Inr hs \<longrightarrow> (\<forall>h \<in> set hs. history_ok h))"
  unfolding listAllHistoryEntries_def policy_inv_def
  by (auto intro!: keeps_rules keeps_bind [OF keeps_List] keeps_bind [OF keeps_now]
      keeps_bind [OF keeps_history_loop] simp: doc_ok_keys policy_doc_def) fastforce

lemma inv_history_user: "keeps (policy_inv c E) (listHistoryEntriesForUser c e) (\<lambda>_. True)"
  unfolding listHistoryEntriesForUser_def
  by (auto intro!: keeps_rules keeps_bind [OF inv_history_all])

lemma inv_my_requests: "keeps (policy_inv c E) (handleApprovalMyRequests c req) (\<lambda>_. True)"
  unfolding handleApprovalMyRequests_def
  by (auto intro!: keeps_rules keeps_bind [OF inv_prims(2)] keeps_bind [OF inv_my_loop]
      keeps_bind [OF inv_history_user])

lemma inv_history: "keeps (policy_inv c E) (handleApprovalHistory c req) (\<lambda>_. True)"
  unfolding handleApprovalHistory_def
  by (auto intro!: keeps_rules keeps_bind [OF inv_require_approver] keeps_bind [OF inv_history_all])

lemmas inv_handlers = inv_rule_read inv_rule_write inv_rule_delete inv_rule_list inv_pending_read
  inv_pending_list inv_approve inv_deny inv_my_requests inv_approvable inv_requires inv_fetch
  inv_history

lemma inv_Callbacks:
  assumes "route_ok r" "req_ok req" "map_of (Callbacks c req fd r) op = Some m"
  shows "keeps (policy_inv c E) m (\<lambda>_. True)"
  using assms by (cases r) (auto simp: Callbacks_def split: if_splits intro!: inv_handlers)

lemma inv_HandleRequest:
  "req_ok req \<Longrightarrow> keeps (policy_inv c E) (HandleRequest c req fd path) (\<lambda>_. True)"
  unfolding HandleRequest_def
  by (auto intro!: keeps_rules keeps_bind [where R = "\<lambda>_. True"] dest: first_match_sound
      intro: inv_Callbacks)

end

locale open_policy = record_policy +
  assumes E_new: "E rid (new_pending rid rule req now)"
begin

lemma inv_park:
  "rule_ok rule \<Longrightarrow> keeps (policy_inv c E) (park_request c req rule) (\<lambda>_. True)"
  unfolding park_request_def
  by (auto intro!: keeps_rules keeps_bind [OF inv_prims(6)] keeps_bind [OF inv_prims(4)]
      keeps_bind [OF inv_storePending] keeps_bind [OF keeps_if [OF inv_prims(8) keeps_return]]
      intro: new_pending_ok E_new)

lemma inv_checkNeedsApproval:
  "keeps (policy_inv c E) (checkNeedsApproval c req auth) (\<lambda>_. True)"
  unfolding checkNeedsApproval_def
  by (auto intro!: keeps_rules keeps_bind [OF inv_prims(2)] keeps_bind [OF inv_match]
      keeps_bind [OF inv_checkActive] inv_park
      simp del: match_rule_loop.simps)

lemma inv_handleRequest:
  "keeps (policy_inv c E) (handleRequest_route c b req auth) (\<lambda>_. True)"
  unfolding handleRequest_route_def
  by (auto intro!: keeps_rules keeps_bind [OF inv_checkNeedsApproval] inv_prims(7))

end

text \<open>Without a further condition the policy is the storage invariant itself.\<close>

interpretation free: open_policy "\<lambda>_ _. True"
  by unfold_locales simp_all

section \<open>The life of a record\<close>

text \<open>
  \<open>evolves c w rid q\<close>: the record \<open>q\<close> comes from the one stored under \<open>rid\<close> in \<open>w\<close>: the parked
  request is the same, and once it is decided its status and votes are the same too.
\<close>

definition evolves :: "core \<Rightarrow> world \<Rightarrow> string \<Rightarrow> PendingRequest \<Rightarrow> bool" where
  "evolves c w rid q \<longleftrightarrow> (\<exists>p. approvals c w (pending_key rid) = Some (DPending p) \<and> json_pending p = p
     \<and> same_request p q
     \<and> (pr_Status p = ''pending'' \<or> pr_Status q = pr_Status p \<and> pr_Approvals q = pr_Approvals p))"

lemma json_pending_status: "pr_Status (json_pending p) = to_valid_utf8 (pr_Status p)"
  by (simp add: json_pending_def)

lemma evolves_json:
  assumes "evolves c w rid q"
  shows "evolves c w rid (json_pending q)"
proof -
  from assms obtain p where p: "approvals c w (pending_key rid) = Some (DPending p)" "json_pending p = p"
    "same_request p q"
    "pr_Status p = ''pending'' \<or> pr_Status q = pr_Status p \<and> pr_Approvals q = pr_Approvals p"
    unfolding evolves_def by blast
  have "pr_Status (json_pending p) = pr_Status p" "pr_Approvals (json_pending p) = pr_Approvals p"
    using p(2) by simp_all
  with p(4) have "pr_Status p = ''pending'' \<or>
      pr_Status (json_pending q) = pr_Status p \<and> pr_Approvals (json_pending q) = pr_Approvals p"
    unfolding json_pending_status json_pending_Approvals by auto
  with p same_request_json show ?thesis unfolding evolves_def by blast
qed

interpretation life: record_policy "evolves c w" for c w
proof unfold_locales
  fix rid p q
  show "evolves c w rid p \<Longrightarrow> pr_Status p = ''pending'' \<Longrightarrow> same_request p q \<Longrightarrow> evolves c w rid q"
    unfolding evolves_def using same_request_trans by fastforce
  show "evolves c w rid p \<Longrightarrow> evolves c w rid (p\<lparr>pr_CredentialData := None\<rparr>)"
    unfolding evolves_def by auto
  show "evolves c w rid p \<Longrightarrow> evolves c w rid (json_pending p)"
    by (rule evolves_json)
qed

lemma evolves_start: "approval_inv c w \<Longrightarrow> policy_inv c (evolves c w) w"
  unfolding approval_inv_def policy_inv_def doc_inv_def policy_doc_def evolves_def
  by (fastforce split: doc.splits)

lemma evolves_HandleRequest:
  assumes "approval_inv c w" "req_ok req" "run_state (HandleRequest c req fd path) w = (r, w')"
    "approvals c w' (pending_key rid) = Some (DPending q)"
  shows "evolves c w rid q"
proof -
  have "policy_inv c (evolves c w) w'"
    using keepsD [OF life.inv_HandleRequest [OF assms(2)] evolves_start [OF assms(1)] assms(3)] by simp
  with assms(4) show ?thesis
    unfolding policy_inv_def by (auto simp: policy_doc_def dest!: doc_invD)
qed

section \<open>Frames of the handlers\<close>

context frame
begin

lemma load_decidable_steps: "steps R (load_decidable c rid)"
  unfolding load_decidable_def by (intro engine)

lemma approver_loop_steps: "steps R (approver_loop c e keys)"
  by (induction keys) (auto intro!: engine)

lemma require_approver_steps: "steps R (require_approver c req)"
  unfolding require_approver_def by (intro engine approver_loop_steps)

lemma approvable_loop_steps: "steps R (approvable_loop c isRoot e keys)"
  by (induction keys) (auto intro!: engine)

lemma my_stale_steps: "steps R (my_stale p)"
  unfolding my_stale_def by (intro engine)

lemma my_loop_steps: "steps R (my_loop c e keys)"
  by (induction keys) (auto intro!: engine my_stale_steps)

lemma rule_handler_steps:
  "steps R (handleApprovalRuleRead c ruleID)" "steps R (handleApprovalRuleWrite c req ruleID data)"
  "steps R (handleApprovalRuleDelete c ruleID)" "steps R (handleApprovalRuleList c)"
  unfolding handleApprovalRuleRead_def handleApprovalRuleWrite_def handleApprovalRuleDelete_def
    handleApprovalRuleList_def by (intro engine)+

lemma fetch_steps: "steps R (handleApprovalFetch c req rid)"
  unfolding handleApprovalFetch_def fetch_pending_def fetch_approved_def fetch_window_expired_def
    fetch_burn_def by (intro engine)

lemma deny_steps: "steps R (handleApprovalDeny c req rid)"
  unfolding handleApprovalDeny_def by (intro engine load_decidable_steps)

lemma listing_steps:
  "steps R (handleApprovalPendingRead c req rid)" "steps R (handleApprovalPendingList c req)"
  "steps R (handleApprovalMyRequests c req)" "steps R (handleApprovalApprovable c req)"
  "steps R (handleApprovalRequiresApproval c path)" "steps R (handleApprovalHistory c req)"
  unfolding handleApprovalPendingRead_def handleApprovalPendingList_def handleApprovalMyRequests_def
    handleApprovalApprovable_def handleApprovalRequiresApproval_def handleApprovalHistory_def
  by (intro engine require_approver_steps my_loop_steps approvable_loop_steps)+

lemmas handler_steps = rule_handler_steps fetch_steps deny_steps listing_steps

end

context routing_frame
begin

lemma approve_steps: "steps R (handleApprovalApprove c req rid)"
  unfolding handleApprovalApprove_def approve_execute_def
  by (intro engine load_decidable_steps execute_steps)

lemma HandleRequest_steps: "steps R (HandleRequest c req fd path)"
  unfolding HandleRequest_def
  by (auto intro!: engine simp: Callbacks_def split: option.splits approval_route.splits if_splits
      intro: handler_steps approve_steps)

end

section \<open>Runs of the system\<close>

text \<open>
  The approval workflow as a transition system: at each step a client request reaches the end
  of \<open>handleRequest\<close>, or a request below \<open>sys/\<close> reaches the path table. Each is processed to
  its end, with whatever storage faults the world holds for it.
\<close>

datatype event =
    Client Request "string list option"
  | Sys Request approval_fields string

fun event_request :: "event \<Rightarrow> Request" where
  "event_request (Client req auth) = req"
| "event_request (Sys req fd path) = req"

fun deliver :: "core \<Rightarrow> event \<Rightarrow> result handler" where
  "deliver c (Client req auth) = handleRequest_route c False req auth"
| "deliver c (Sys req fd path) = HandleRequest c req fd path"

inductive reachable :: "core \<Rightarrow> world \<Rightarrow> world \<Rightarrow> bool" for c :: core and w0 :: world where
  start: "reachable c w0 w0"
| step: "reachable c w0 w \<Longrightarrow> req_ok (event_request ev) \<Longrightarrow>
    run_state (deliver c ev) w = (r, w') \<Longrightarrow> reachable c w0 w'"

inductive_cases reachableE: "reachable c w0 w"

lemma inv_deliver: "req_ok (event_request ev) \<Longrightarrow> keeps (approval_inv c) (deliver c ev) (\<lambda>_. True)"
  using free.inv_handleRequest [unfolded policy_inv_free] free.inv_HandleRequest [unfolded policy_inv_free]
  by (cases ev) auto

lemma reachable_inv:
  "reachable c w0 w \<Longrightarrow> approval_inv c w0 \<Longrightarrow> approval_inv c w"
  by (induction rule: reachable.induct) (auto dest: keepsD [OF inv_deliver])

text \<open>A freshly initialised store satisfies the invariant.\<close>

definition fresh_world :: "bool list \<Rightarrow> (nat \<Rightarrow> time) \<Rightarrow> (nat \<Rightarrow> string option) \<Rightarrow> world" where
  "fresh_world faults clock uuids =
     \<lparr>w_store = NewInmem 0, w_faults = faults, w_clock = clock, w_ticks = 0, w_uuids = uuids,
      w_draws = 0, w_routed = [], w_slack = []\<rparr>"

lemma fresh_world_inv:
  "bv_readOnlyErr (c_systemBarrierView c) = None \<Longrightarrow> (\<And>n u. uuids n = Some u \<Longrightarrow> uuidPattern u) \<Longrightarrow>
   approval_inv c (fresh_world faults clock uuids)"
  by (simp add: approval_inv_def doc_inv_def world_ok_def approvals_def view_ok_def view_abs_def
      inmem_ok_def fresh_world_def NewInmem_def approvalStorage_def bv_SubView_def)

end
