(* ===== verification/Approval_Spec.thy ===== *)
theory Approval_Spec
  imports Approval_Safety
begin

text \<open>
  The behaviour of the approval operations while the storage works: every primitive operation
  is a total function on the contents of the view, the loops over listings are list functions,
  and each handler has a closed description of its result and of the documents it leaves.
\<close>

section \<open>Working storage\<close>

definition healthy :: "core \<Rightarrow> world \<Rightarrow> bool" where
  "healthy c w \<longleftrightarrow> approval_inv c w \<and> w_faults w = []"

definition put_world :: "core \<Rightarrow> string \<Rightarrow> doc \<Rightarrow> world \<Rightarrow> world" where
  "put_world c k d w = snd (run_state (st_Put c k d) w)"

definition del_world :: "core \<Rightarrow> string \<Rightarrow> world \<Rightarrow> world" where
  "del_world c k w = snd (run_state (st_Delete c k) w)"

lemma healthy_ok: "healthy c w \<Longrightarrow> world_ok c w" "healthy c w \<Longrightarrow> \<not> faulty w"
  by (simp_all add: healthy_def approval_inv_def doc_inv_def faulty_def)

lemma healthy_pop: "healthy c w \<Longrightarrow> pop_fault w = w"
  by (cases w) (simp add: healthy_def pop_fault_def)

lemma healthy_simps [simp]:
  "healthy c (w\<lparr>w_ticks := t\<rparr>) = healthy c w"
  "healthy c (w\<lparr>w_draws := n\<rparr>) = healthy c w"
  "healthy c (w\<lparr>w_routed := rs\<rparr>) = healthy c w"
  "healthy c (w\<lparr>w_slack := m\<rparr>) = healthy c w"
  by (simp_all add: healthy_def approval_inv_def)

lemma run_Get_ok:
  "healthy c w \<Longrightarrow> SanityCheck k \<Longrightarrow>
   run_state (st_Get c k) w = (Inr (map_option (Pair k) (approvals c w k)), w)"
  by (simp add: run_Get healthy_ok healthy_pop)

lemma run_Put_ok:
  assumes "healthy c w" "SanityCheck k"
  shows "run_state (st_Put c k d) w = (Inr (), put_world c k d w)"
    and "approvals c (put_world c k d w) = (approvals c w)(k \<mapsto> d)"
    and "doc_ok k d \<Longrightarrow> healthy c (put_world c k d w)"
proof -
  have "run_state (st_Put c k d) w = (Inr (), put_world c k d w) \<and>
      approvals c (put_world c k d w) = (approvals c w)(k \<mapsto> d)"
    using healthy_ok(1) [OF assms(1)] assms(2)
    by (rule run_Put [where d = d]) (use healthy_ok(2) [OF assms(1)] in \<open>simp_all add: put_world_def\<close>)
  then show "run_state (st_Put c k d) w = (Inr (), put_world c k d w)"
    and "approvals c (put_world c k d w) = (approvals c w)(k \<mapsto> d)" by blast+
  show "healthy c (put_world c k d w)" if "doc_ok k d"
    using assms(1) keeps_state [OF keeps_Put [of doc_ok, OF that], of c uuidPattern w]
    by (simp add: healthy_def approval_inv_def put_world_def st_Put_fields)
qed

lemma run_Delete_ok:
  assumes "healthy c w" "SanityCheck k"
  shows "run_state (st_Delete c k) w = (Inr (), del_world c k w)"
    and "approvals c (del_world c k w) = (approvals c w)(k := None)"
    and "healthy c (del_world c k w)"
proof -
  have "run_state (st_Delete c k) w = (Inr (), del_world c k w) \<and>
      approvals c (del_world c k w) = (approvals c w)(k := None)"
    using healthy_ok(1) [OF assms(1)] assms(2)
    by (rule run_Delete) (use healthy_ok(2) [OF assms(1)] in \<open>simp_all add: del_world_def\<close>)
  then show "run_state (st_Delete c k) w = (Inr (), del_world c k w)"
    and "approvals c (del_world c k w) = (approvals c w)(k := None)" by blast+
  show "healthy c (del_world c k w)"
    using assms(1) keeps_state [OF keeps_Delete, of c uuidPattern doc_ok w k]
    by (simp add: healthy_def approval_inv_def del_world_def st_Delete_fields)
qed

lemma world_fields [simp]:
  "w_routed (put_world c k d w) = w_routed w" "w_slack (put_world c k d w) = w_slack w"
  "w_clock (put_world c k d w) = w_clock w" "w_ticks (put_world c k d w) = w_ticks w"
  "w_uuids (put_world c k d w) = w_uuids w" "w_draws (put_world c k d w) = w_draws w"
  "w_routed (del_world c k w) = w_routed w" "w_slack (del_world c k w) = w_slack w"
  "w_clock (del_world c k w) = w_clock w" "w_ticks (del_world c k w) = w_ticks w"
  "w_uuids (del_world c k w) = w_uuids w" "w_draws (del_world c k w) = w_draws w"
  by (simp_all add: put_world_def del_world_def st_Put_fields st_Delete_fields)

lemma run_now: "run_state now_UTC w = (w_clock w (w_ticks w), w\<lparr>w_ticks := Suc (w_ticks w)\<rparr>)"
  by (simp add: now_UTC_def)

lemma run_Since:
  "run_state (time_Since t) w =
   (time_sub (w_clock w (w_ticks w)) t, w\<lparr>w_ticks := Suc (w_ticks w)\<rparr>)"
  by (simp add: time_Since_def now_UTC_def)

lemma run_UUID:
  "run_state GenerateUUID w = (w_uuids w (w_draws w), w\<lparr>w_draws := Suc (w_draws w)\<rparr>)"
  by (simp add: GenerateUUID_def)

section \<open>Listings\<close>

definition keys_of :: "core \<Rightarrow> string \<Rightarrow> world \<Rightarrow> string list" where
  "keys_of c p w = (case fst (run_state (st_List c p) w) of Inr ks \<Rightarrow> ks | Inl _ \<Rightarrow> [])"

lemma run_List_ok:
  assumes "healthy c w" "SanityCheck p"
  shows "run_state (st_List c p) w = (Inr (keys_of c p w), w)"
    and "set (keys_of c p w) = children (dom (approvals c w)) p"
proof -
  obtain ks where "run_state (st_List c p) w = (Inr ks, pop_fault w)"
    "set ks = children (dom (approvals c w)) p"
    using run_List [OF healthy_ok(1) [OF assms(1)] assms(2) healthy_ok(2) [OF assms(1)]] .
  then show "run_state (st_List c p) w = (Inr (keys_of c p w), w)"
    "set (keys_of c p w) = children (dom (approvals c w)) p"
    using healthy_pop [OF assms(1)] by (simp_all add: keys_of_def)
qed

lemma sane_prefixes [simp]:
  "SanityCheck ''config/''" "SanityCheck ''pending/''" "SanityCheck ''history/''"
  by (rule no_dot_sane, simp)+

text \<open>Identifiers hold no separator, so a listing returns exactly the stored identifiers.\<close>

lemma child_id: "CHR ''/'' \<notin> set r \<Longrightarrow> child p (p @ r) = r"
  by (rule child_cases [of p r]) auto

lemma key_part_no_slash: "key_part r \<Longrightarrow> CHR ''/'' \<notin> set r"
  by (auto simp: key_part_def key_char_def list_all_iff)

lemma children_ids:
  assumes "\<And>r. p @ r \<in> D \<Longrightarrow> key_part r"
  shows "children D p = {r. p @ r \<in> D}"
proof -
  have "{s \<in> D. has_prefix s p} = (@) p ` {r. p @ r \<in> D}"
    by (auto simp: has_prefix_iff)
  then show ?thesis
    unfolding children_def using assms child_id key_part_no_slash
    by (auto simp: image_image image_iff)
qed

lemma healthy_doc: "healthy c w \<Longrightarrow> approvals c w k = Some d \<Longrightarrow> doc_ok k d"
  unfolding healthy_def approval_inv_def by (blast dest: doc_invD)

lemma doc_ok_key_part:
  "doc_ok (config_key r) d \<Longrightarrow> key_part r" "doc_ok (pending_key r) d \<Longrightarrow> key_part r"
  "doc_ok (history_key r) d \<Longrightarrow> key_part r"
  unfolding doc_ok_keys rule_ok_def pending_ok_def history_ok_def
  using ruleIDPattern_key_part uuidPattern_key_part by blast+

lemma healthy_key_part:
  assumes "healthy c w"
  shows "config_key r \<in> dom (approvals c w) \<Longrightarrow> key_part r"
    and "pending_key r \<in> dom (approvals c w) \<Longrightarrow> key_part r"
    and "history_key r \<in> dom (approvals c w) \<Longrightarrow> key_part r"
  using healthy_doc [OF assms] doc_ok_key_part by blast+

lemma set_keys:
  assumes "healthy c w"
  shows "set (keys_of c ''config/'' w) = {r. config_key r \<in> dom (approvals c w)}"
    and "set (keys_of c ''pending/'' w) = {r. pending_key r \<in> dom (approvals c w)}"
    and "set (keys_of c ''history/'' w) = {r. history_key r \<in> dom (approvals c w)}"
proof -
  show "set (keys_of c ''config/'' w) = {r. config_key r \<in> dom (approvals c w)}"
    using children_ids healthy_key_part(1) [OF assms] unfolding config_key_def
      run_List_ok(2) [OF assms sane_prefixes(1)] by blast
  show "set (keys_of c ''pending/'' w) = {r. pending_key r \<in> dom (approvals c w)}"
    using children_ids healthy_key_part(2) [OF assms] unfolding pending_key_def
      run_List_ok(2) [OF assms sane_prefixes(2)] by blast
  show "set (keys_of c ''history/'' w) = {r. history_key r \<in> dom (approvals c w)}"
    using children_ids healthy_key_part(3) [OF assms] unfolding history_key_def
      run_List_ok(2) [OF assms sane_prefixes(3)] by blast
qed

section \<open>Reading documents\<close>

definition rule_at :: "core \<Rightarrow> world \<Rightarrow> string \<Rightarrow> ApprovalRule option" where
  "rule_at c w r = (case approvals c w (config_key r) of Some (DRule rule) \<Rightarrow> Some rule | _ \<Rightarrow> None)"

definition pending_at :: "core \<Rightarrow> world \<Rightarrow> string \<Rightarrow> PendingRequest option" where
  "pending_at c w r = (case approvals c w (pending_key r) of Some (DPending p) \<Rightarrow> Some p | _ \<Rightarrow> None)"

definition history_at :: "core \<Rightarrow> world \<Rightarrow> string \<Rightarrow> ApprovalHistoryEntry option" where
  "history_at c w r = (case approvals c w (history_key r) of Some (DHistory h) \<Rightarrow> Some h | _ \<Rightarrow> None)"

lemma at_simps [simp]:
  "rule_at c (w\<lparr>w_ticks := t\<rparr>) = rule_at c w" "rule_at c (w\<lparr>w_draws := n\<rparr>) = rule_at c w"
  "rule_at c (w\<lparr>w_routed := rs\<rparr>) = rule_at c w" "rule_at c (w\<lparr>w_slack := m\<rparr>) = rule_at c w"
  "pending_at c (w\<lparr>w_ticks := t\<rparr>) = pending_at c w" "pending_at c (w\<lparr>w_draws := n\<rparr>) = pending_at c w"
  "pending_at c (w\<lparr>w_routed := rs\<rparr>) = pending_at c w" "pending_at c (w\<lparr>w_slack := m\<rparr>) = pending_at c w"
  "history_at c (w\<lparr>w_ticks := t\<rparr>) = history_at c w" "history_at c (w\<lparr>w_draws := n\<rparr>) = history_at c w"
  "history_at c (w\<lparr>w_routed := rs\<rparr>) = history_at c w" "history_at c (w\<lparr>w_slack := m\<rparr>) = history_at c w"
  by (simp_all add: rule_at_def pending_at_def history_at_def fun_eq_iff)

lemma at_put:
  assumes "healthy c w"
  shows "key_part r' \<Longrightarrow> rule_at c (put_world c (config_key r') (DRule x) w) r =
      (if r = r' then Some x else rule_at c w r)"
    and "key_part r' \<Longrightarrow> rule_at c (put_world c (pending_key r') d w) r = rule_at c w r"
    and "key_part r' \<Longrightarrow> rule_at c (put_world c (history_key r') d w) r = rule_at c w r"
    and "key_part r' \<Longrightarrow> pending_at c (put_world c (pending_key r') (DPending p) w) r =
      (if r = r' then Some p else pending_at c w r)"
    and "key_part r' \<Longrightarrow> pending_at c (put_world c (config_key r') d w) r = pending_at c w r"
    and "key_part r' \<Longrightarrow> pending_at c (put_world c (history_key r') d w) r = pending_at c w r"
    and "key_part r' \<Longrightarrow> history_at c (put_world c (history_key r') (DHistory h) w) r =
      (if r = r' then Some h else history_at c w r)"
    and "key_part r' \<Longrightarrow> history_at c (put_world c (pending_key r') d w) r = history_at c w r"
    and "key_part r' \<Longrightarrow> history_at c (put_world c (config_key r') d w) r = history_at c w r"
  using assms by (simp_all add: rule_at_def pending_at_def history_at_def run_Put_ok(2))

lemma at_del:
  assumes "healthy c w"
  shows "key_part r' \<Longrightarrow> rule_at c (del_world c (config_key r') w) r =
      (if r = r' then None else rule_at c w r)"
    and "key_part r' \<Longrightarrow> rule_at c (del_world c (pending_key r') w) r = rule_at c w r"
    and "key_part r' \<Longrightarrow> pending_at c (del_world c (pending_key r') w) r =
      (if r = r' then None else pending_at c w r)"
    and "key_part r' \<Longrightarrow> pending_at c (del_world c (config_key r') w) r = pending_at c w r"
    and "key_part r' \<Longrightarrow> history_at c (del_world c (pending_key r') w) r = history_at c w r"
    and "key_part r' \<Longrightarrow> history_at c (del_world c (config_key r') w) r = history_at c w r"
  using assms by (simp_all add: rule_at_def pending_at_def history_at_def run_Delete_ok(2))

lemma approvals_at:
  assumes "healthy c w"
  shows "approvals c w (config_key r) = map_option DRule (rule_at c w r)"
    and "approvals c w (pending_key r) = map_option DPending (pending_at c w r)"
    and "approvals c w (history_key r) = map_option DHistory (history_at c w r)"
proof -
  show "approvals c w (config_key r) = map_option DRule (rule_at c w r)"
    using healthy_doc [OF assms, of "config_key r"]
    by (cases "approvals c w (config_key r)") (auto simp: rule_at_def doc_ok_keys)
  show "approvals c w (pending_key r) = map_option DPending (pending_at c w r)"
    using healthy_doc [OF assms, of "pending_key r"]
    by (cases "approvals c w (pending_key r)") (auto simp: pending_at_def doc_ok_keys)
  show "approvals c w (history_key r) = map_option DHistory (history_at c w r)"
    using healthy_doc [OF assms, of "history_key r"]
    by (cases "approvals c w (history_key r)") (auto simp: history_at_def doc_ok_keys)
qed

lemma rule_atD:
  assumes "healthy c w" "rule_at c w r = Some rule"
  shows "rule_ok rule" "ar_RuleID rule = r" "key_part r"
  using healthy_doc [OF assms(1), of "config_key r" "DRule rule"] approvals_at(1) [OF assms(1)] assms(2)
    doc_ok_key_part(1) by (auto simp: doc_ok_keys)

lemma pending_atD:
  assumes "healthy c w" "pending_at c w r = Some p"
  shows "pending_ok p" "pr_RequestID p = r" "key_part r" "json_pending p = p" "stored_ok r p"
  using healthy_doc [OF assms(1), of "pending_key r" "DPending p"] approvals_at(2) [OF assms(1)] assms(2)
    doc_ok_key_part(2) stored_votes by (auto simp: doc_ok_keys stored_ok_def)

lemma run_getRule:
  assumes "healthy c w" "key_part r"
  shows "run_state (getApprovalRule c r) w = (Inr (rule_at c w r), w)"
  using assms
  by (simp add: getApprovalRule_def run_Get_ok approvals_at option.map_comp comp_def split: option.splits)

lemma run_getPending:
  assumes "healthy c w" "key_part r"
  shows "run_state (getPendingRequest c r) w = (Inr (pending_at c w r), w)"
  using assms
  by (simp add: getPendingRequest_def run_Get_ok approvals_at split: option.splits)

lemma run_read_rule:
  assumes "healthy c w" "key_part r"
  shows "run_state (read_rule c r) w = (rule_at c w r, w)"
  using assms by (simp add: read_rule_def run_Get_ok approvals_at split: option.splits)

lemma run_read_pending:
  assumes "healthy c w" "key_part r"
  shows "run_state (read_pending c r) w = (pending_at c w r, w)"
  using assms by (simp add: read_pending_def run_Get_ok approvals_at split: option.splits)

text \<open>The interceptor's search is the first match in listing order.\<close>

lemma run_match:
  assumes "healthy c w" "\<forall>k \<in> set ks. key_part k"
  shows "run_state (match_rule_loop c path ks) w =
    (find (\<lambda>rule. approvalRuleMatchesPath rule path) (List.map_filter (rule_at c w) ks), w)"
  using assms
  by (induction ks) (auto simp: run_read_rule List.map_filter_simps split: option.splits)

section \<open>Readings, draws and dispatches\<close>

definition tick :: "world \<Rightarrow> world" where
  "tick w = w\<lparr>w_ticks := Suc (w_ticks w)\<rparr>"

definition draw :: "world \<Rightarrow> world" where
  "draw w = w\<lparr>w_draws := Suc (w_draws w)\<rparr>"

definition dispatch :: "Request \<Rightarrow> world \<Rightarrow> world" where
  "dispatch req w = w\<lparr>w_routed := w_routed w @ [req]\<rparr>"

lemma tick_simps [simp]:
  "healthy c (tick w) = healthy c w" "approvals c (tick w) = approvals c w"
  "pending_at c (tick w) = pending_at c w" "rule_at c (tick w) = rule_at c w"
  "history_at c (tick w) = history_at c w"
  "w_clock (tick w) = w_clock w" "w_ticks (tick w) = Suc (w_ticks w)"
  "w_uuids (tick w) = w_uuids w" "w_draws (tick w) = w_draws w"
  "w_routed (tick w) = w_routed w" "w_slack (tick w) = w_slack w"
  by (simp_all add: tick_def)

lemma draw_simps [simp]:
  "healthy c (draw w) = healthy c w" "approvals c (draw w) = approvals c w"
  "w_clock (draw w) = w_clock w" "w_ticks (draw w) = w_ticks w"
  "w_uuids (draw w) = w_uuids w" "w_draws (draw w) = Suc (w_draws w)"
  "w_routed (draw w) = w_routed w" "w_slack (draw w) = w_slack w"
  by (simp_all add: draw_def)

lemma dispatch_simps [simp]:
  "healthy c (dispatch req w) = healthy c w" "approvals c (dispatch req w) = approvals c w"
  "w_clock (dispatch req w) = w_clock w" "w_ticks (dispatch req w) = w_ticks w"
  "w_uuids (dispatch req w) = w_uuids w" "w_draws (dispatch req w) = w_draws w"
  "w_routed (dispatch req w) = w_routed w @ [req]" "w_slack (dispatch req w) = w_slack w"
  by (simp_all add: dispatch_def)

lemma run_prims:
  "run_state now_UTC w = (w_clock w (w_ticks w), tick w)"
  "run_state (time_Since t) w = (time_sub (w_clock w (w_ticks w)) t, tick w)"
  "run_state GenerateUUID w = (w_uuids w (w_draws w), draw w)"
  "run_state (doRouting c req) w = (c_route c (length (w_routed w)) req, dispatch req w)"
  by (simp_all add: run_now run_Since run_UUID tick_def draw_def dispatch_def doRouting_def)

end
