(* ===== verification/Approval_Intercept.thy ===== *)
theory Approval_Intercept
  imports Approval_Spec
begin

text \<open>
  The interceptor: which requests reach a backend without approval, what a parked request
  stores, and when the deduplication guard refuses a second request.
\<close>

section \<open>Which requests need approval\<close>

text \<open>
  Which requests need approval, in the words of the documentation: a rule covers the one path it
  names, or with \<open>/*\<close> at its end a path and all paths below it, or with \<open>*\<close> every path.
\<close>

definition exempt :: "Request \<Rightarrow> string list option \<Rightarrow> bool" where
  "exempt req auth \<longleftrightarrow>
     (\<exists>pfx \<in> {''sys/'', ''auth/'', ''cubbyhole/'', ''identity/''}. has_prefix (rq_Path req) pfx)
     \<or> rq_Operation req \<notin> {ReadOperation, UpdateOperation, CreateOperation}
     \<or> (\<exists>policies. auth = Some policies \<and> ''root'' \<in> set policies)"

definition rule_covers :: "ApprovalRule \<Rightarrow> string \<Rightarrow> bool" where
  "rule_covers rule path \<longleftrightarrow> ar_TargetMountPath rule = ''*'' \<or> ar_TargetMountPath rule = path
     \<or> (\<exists>pfx. ar_TargetMountPath rule = pfx @ ''/*'' \<and> (path = pfx \<or> (\<exists>rest. path = pfx @ ''/'' @ rest)))"

definition needs_approval :: "core \<Rightarrow> world \<Rightarrow> Request \<Rightarrow> string list option \<Rightarrow> bool" where
  "needs_approval c w req auth \<longleftrightarrow> \<not> exempt req auth
     \<and> (\<exists>r rule. rule_at c w r = Some rule \<and> rule_covers rule (rq_Path req))"

lemma exempt_code:
  "exempt req auth \<longleftrightarrow> \<not> intercept_path (rq_Path req) \<or> \<not> intercept_op (rq_Operation req)
     \<or> (case auth of None \<Rightarrow> False | Some policies \<Rightarrow> ''root'' \<in> set policies)"
  by (auto simp: exempt_def intercept_path_def intercept_op_def split: option.splits)

lemma rule_covers_code: "rule_covers rule path \<longleftrightarrow> approvalRuleMatchesPath rule path"
proof (cases "has_suffix (ar_TargetMountPath rule) ''/*''")
  case True
  then obtain pfx where "ar_TargetMountPath rule = pfx @ ''/*''" by (auto simp: has_suffix_iff)
  then show ?thesis
    using trim_suffix_append [of pfx "''/*''"]
    by (auto simp: rule_covers_def approvalRuleMatchesPath_def has_suffix_iff has_prefix_iff Let_def)
next
  case False
  then show ?thesis
    by (auto simp: rule_covers_def approvalRuleMatchesPath_def has_suffix_iff Let_def)
qed

definition matched_rule :: "core \<Rightarrow> world \<Rightarrow> string \<Rightarrow> ApprovalRule option" where
  "matched_rule c w path =
     find (\<lambda>rule. approvalRuleMatchesPath rule path)
       (List.map_filter (rule_at c w) (keys_of c ''config/'' w))"

lemma set_map_filter: "set (List.map_filter f xs) = {y. \<exists>x \<in> set xs. f x = Some y}"
  by (induction xs) (auto simp: List.map_filter_simps split: option.splits)

lemma set_map_filter_rules:
  assumes "healthy c w"
  shows "set (List.map_filter (rule_at c w) (keys_of c ''config/'' w)) = {x. \<exists>r. rule_at c w r = Some x}"
  unfolding set_map_filter set_keys [OF assms] by (auto simp: dom_def approvals_at [OF assms])

lemma matched_rule_None:
  "healthy c w \<Longrightarrow> matched_rule c w path = None \<longleftrightarrow>
   (\<forall>r rule. rule_at c w r = Some rule \<longrightarrow> \<not> approvalRuleMatchesPath rule path)"
  unfolding matched_rule_def find_eq_None_iff by (auto simp: set_map_filter_rules)

lemma matched_rule_Some:
  assumes "healthy c w" "matched_rule c w path = Some rule"
  shows "approvalRuleMatchesPath rule path" "rule_at c w (ar_RuleID rule) = Some rule" "rule_ok rule"
proof -
  from find_SomeD [OF assms(2) [unfolded matched_rule_def]] set_map_filter_rules [OF assms(1)]
  obtain r where "approvalRuleMatchesPath rule path" "rule_at c w r = Some rule" by blast
  with rule_atD [OF assms(1)] show "approvalRuleMatchesPath rule path"
    "rule_at c w (ar_RuleID rule) = Some rule" "rule_ok rule" by auto
qed

lemma needs_approval_iff:
  "healthy c w \<Longrightarrow> needs_approval c w req auth \<longleftrightarrow>
   \<not> exempt req auth \<and> matched_rule c w (rq_Path req) \<noteq> None"
  by (simp add: needs_approval_def matched_rule_None rule_covers_code)

lemma run_matches:
  assumes "healthy c w"
  shows "run_state (match_rule_loop c path (keys_of c ''config/'' w)) w = (matched_rule c w path, w)"
  unfolding matched_rule_def
  by (rule run_match [OF assms]) (use set_keys(1) [OF assms] healthy_key_part(1) [OF assms] in blast)

section \<open>The interceptor on a working storage\<close>

definition intercept ::
  "core \<Rightarrow> Request \<Rightarrow> ApprovalRule \<Rightarrow> (world, Response option \<times> bool \<times> err option) state" where
  "intercept c req rule = do {
     blocked \<leftarrow> (if rq_EntityID req \<noteq> [] then checkActiveApprovalRequest c req else ret None);
     (case blocked of Some resp \<Rightarrow> ret (Some resp, True, None) | None \<Rightarrow> park_request c req rule)
   }"

lemma run_checkNeedsApproval:
  assumes "healthy c w"
  shows "run_state (checkNeedsApproval c req auth) w =
    (if exempt req auth then ((None, False, None), w)
     else case matched_rule c w (rq_Path req) of
            None \<Rightarrow> ((None, False, None), w)
          | Some rule \<Rightarrow> run_state (intercept c req rule) w)"
proof (cases "keys_of c ''config/'' w")
  case Nil
  then have "matched_rule c w (rq_Path req) = None"
    by (simp add: matched_rule_def List.map_filter_simps)
  with Nil assms show ?thesis
    by (auto simp: checkNeedsApproval_def exempt_code run_List_ok(1))
next
  case (Cons k ks)
  then show ?thesis
    using run_matches [OF assms, of "rq_Path req"] assms
    by (auto simp: checkNeedsApproval_def exempt_code run_List_ok(1) intercept_def
        simp del: match_rule_loop.simps split: option.splits)
qed

lemma keeps_TrueI: "(\<And>s. Q (fst (run_state m s))) \<Longrightarrow> keeps (\<lambda>_. True) m Q"
  by (simp add: keeps_def)

lemma intercept_stops:
  "keeps (\<lambda>_. True) (intercept c req rule) (\<lambda>(_, intercepted, e). intercepted \<or> e \<noteq> None)"
  unfolding intercept_def park_request_def
  by (auto intro!: keeps_rules keeps_bind [where R = "\<lambda>_. True" and m = GenerateUUID]
      keeps_bind [where R = "\<lambda>_. True" and m = now_UTC]
      keeps_bind [where R = "\<lambda>_. True" and m = "storePendingRequest _ _"]
      keeps_bind [where R = "\<lambda>_. True" and m = "checkActiveApprovalRequest _ _"]
      keeps_bind [where R = "\<lambda>_. True" and m = "sendApprovalSlackNotification _ _ _ _"]
      intro: keeps_TrueI)

lemma intercept_unrouted: "steps same_routed (intercept c req rule)"
  unfolding intercept_def by (intro unrouted.engine unrouted.park_steps)

lemma run_handleRequest:
  assumes "healthy c w"
  shows "run_state (handleRequest_route c False req auth) w =
    (if needs_approval c w req auth
     then case run_state (intercept c req (the (matched_rule c w (rq_Path req)))) w of
            ((resp, _, e), w') \<Rightarrow> ((case e of Some e \<Rightarrow> Inl e | None \<Rightarrow> Inr resp), w')
     else run_state (doRouting c req) w)"
proof (cases "needs_approval c w req auth")
  case True
  then obtain rule where m: "matched_rule c w (rq_Path req) = Some rule" "\<not> exempt req auth"
    using needs_approval_iff [OF assms] by auto
  obtain resp i e w' where run: "run_state (intercept c req rule) w = ((resp, i, e), w')"
    by (cases "run_state (intercept c req rule) w") auto
  have "i \<or> e \<noteq> None"
    using keepsD [OF intercept_stops _ run] by auto
  with True m run show ?thesis
    by (auto simp: handleRequest_route_def run_checkNeedsApproval [OF assms] split: option.splits)
next
  case False
  then show ?thesis
    using needs_approval_iff [OF assms, of req auth]
    by (auto simp: handleRequest_route_def run_checkNeedsApproval [OF assms])
qed

lemma mediation_run:
  assumes "healthy c w" "run_state (handleRequest_route c False req auth) w = (r, w')"
  shows "w_routed w' = (if needs_approval c w req auth then w_routed w else w_routed w @ [req])"
proof (cases "needs_approval c w req auth")
  case True
  have "same_routed w (snd (run_state (intercept c req (the (matched_rule c w (rq_Path req)))) w))"
    using intercept_unrouted by (simp add: steps_def)
  with True assms show ?thesis
    by (auto simp: run_handleRequest same_routed_def split: prod.splits)
next
  case False
  with assms show ?thesis by (auto simp: run_handleRequest doRouting_def)
qed

text \<open>
  C4. Complete mediation. While the storage works, a client request is dispatched to a backend
  exactly when no readable rule covers it (or it is exempt: a system path, another operation
  than read, update or create, or a root token); a covered request leaves the dispatch log
  unchanged.
\<close>

theorem complete_mediation:
  assumes "healthy c w" "run_state (handleRequest_route c False req auth) w = (r, w')"
  shows "w_routed w' = (if needs_approval c w req auth then w_routed w else w_routed w @ [req])"
  by (rule mediation_run [OF assms])

section \<open>Parking\<close>

lemma park_result:
  assumes "healthy c w" "rule_ok rule" "w_uuids w (w_draws w) = Some rid"
    and w1: "w1 = w\<lparr>w_draws := Suc (w_draws w), w_ticks := Suc (w_ticks w)\<rparr>"
    and p: "p = new_pending rid rule req (w_clock w (w_ticks w))"
    and w2: "w2 = put_world c (pending_key rid) (DPending (json_pending p)) w1"
  shows "run_state (park_request c req rule) w =
    ((Some (RespondWithStatusCode
        (Some (dataResponse [(''status'', GStr ''pending''), (''request_id'', GStr rid),
           (''message'', GStr ''Request is pending approval'')])) (Some req) 202), True, None),
     if ar_SlackWebhookURL rule = [] then w2
     else w2\<lparr>w_slack := w_slack w2 @ [(ar_SlackWebhookURL rule,
       slackMessage rule p (map (approver_name c) (ar_AuthorizedApprovers rule)) (c_redirectAddr c))]\<rparr>)"
proof -
  have u: "uuidPattern rid"
    using assms(1,3) by (simp add: healthy_def approval_inv_def doc_inv_def)
  have h: "healthy c w1" using assms(1) by (simp add: w1)
  have "pr_RequestID p = rid" by (simp add: p new_pending_def)
  then show ?thesis
    using run_Put_ok(1) [OF h, of "pending_key rid"] u assms
    by (simp add: park_request_def run_UUID run_now storePendingRequest_def uuidPattern_key_part
        sendApprovalSlackNotification_def Let_def)
qed

definition own_record :: "Request \<Rightarrow> PendingRequest \<Rightarrow> bool" where
  "own_record req p \<longleftrightarrow> pr_RequesterEntityID p = rq_EntityID req \<and> pr_OriginalPath p = rq_Path req"

lemma run_active_none:
  assumes "healthy c w" "\<forall>k \<in> set ks. key_part k"
    "\<forall>k p. pending_at c w k = Some p \<longrightarrow> \<not> own_record req p"
  shows "run_state (active_loop c req ks) w = (None, w)"
  using assms
  by (induction ks) (auto simp: run_read_pending own_record_def split: option.splits)

lemma pending_keys_part: "healthy c w \<Longrightarrow> k \<in> set (keys_of c ''pending/'' w) \<Longrightarrow> key_part k"
  using set_keys(2) healthy_key_part(2) by blast

lemma run_checkActive_none:
  assumes "healthy c w" "\<forall>k p. pending_at c w k = Some p \<longrightarrow> \<not> own_record req p"
  shows "run_state (checkActiveApprovalRequest c req) w = (None, w)"
  using assms
  by (simp add: checkActiveApprovalRequest_def run_List_ok(1) run_active_none pending_keys_part)

text \<open>
  The record that parking makes of a request, field by field: the request as JSON keeps it, with
  every header but those that carry credentials or redirect the execution, the reading of the
  clock, and one hour to decide.
\<close>

definition secret_headers :: "string set" where
  "secret_headers = {''X-Vault-Token'', ''Authorization'', ''X-Vault-Wrap-Ttl'', ''X-Vault-Wrap-Format'',
     ''X-Vault-Namespace'', ''X-Vault-Mfa''}"

definition parked_record :: "string \<Rightarrow> ApprovalRule \<Rightarrow> Request \<Rightarrow> time \<Rightarrow> PendingRequest \<Rightarrow> bool" where
  "parked_record rid rule req now p \<longleftrightarrow>
     pr_RequestID p = rid \<and> pr_RuleID p = ar_RuleID rule \<and> pr_Status p = ''pending''
     \<and> pr_Approvals p = [] \<and> pr_CredentialData p = None
     \<and> pr_OriginalPath p = to_valid_utf8 (rq_Path req) \<and> pr_OriginalOperation p = rq_Operation req
     \<and> pr_OriginalData p = json_rt_map (rq_Data req)
     \<and> set (pr_OriginalHeaders p) = {(to_valid_utf8 k, map to_valid_utf8 vs) | k vs.
          (k, vs) \<in> set (rq_Headers req) \<and> CanonicalHeaderKey k \<notin> secret_headers}
     \<and> pr_OriginalMountPoint p = to_valid_utf8 (rq_MountPoint req)
     \<and> pr_RequesterEntityID p = to_valid_utf8 (rq_EntityID req)
     \<and> pr_RequesterDisplayName p = to_valid_utf8 (rq_DisplayName req)
     \<and> pr_CreatedAt p = now \<and> pr_ExpiresAt p = now + 3600 * 1000000000"

lemma secret_headers_code: "secret_headers = set blockedHeaders"
  by (simp add: secret_headers_def blockedHeaders_def)

lemma new_pending_parked:
  assumes "uuidPattern rid" "rule_ok rule"
  shows "parked_record rid rule req now (json_pending (new_pending rid rule req now))"
proof -
  have id: "to_valid_utf8 rid = rid" "to_valid_utf8 (ar_RuleID rule) = ar_RuleID rule"
    using assms by (simp_all add: rule_ok_def)
  have "set (json_headers (safeHeaders hs)) = {(to_valid_utf8 k, map to_valid_utf8 vs) | k vs.
      (k, vs) \<in> set hs \<and> CanonicalHeaderKey k \<notin> secret_headers}" for hs
    unfolding secret_headers_code json_headers_def safeHeaders_def by (force simp: image_iff)
  with id show ?thesis
    by (simp add: parked_record_def json_pending_def new_pending_def json_cred_def ascii_valid_utf8
        approval_ttl_defs)
qed

text \<open>
  C10. Parking. While the storage works and an identifier can be drawn, a covered request of a
  caller who has no earlier record for the same path is not dispatched. It is answered with
  status 202 and the identifier, and exactly one document is added to the storage: under that
  identifier the pending record of the request (\<open>parked_record\<close>), under a stored rule that covers
  its path.
\<close>

theorem request_parked:
  assumes "healthy c w" "needs_approval c w req auth" "w_uuids w (w_draws w) = Some rid"
    and "\<forall>k p. pending_at c w k = Some p \<longrightarrow> \<not> own_record req p"
    and "run_state (handleRequest_route c False req auth) w = (r, w')"
  shows "(\<exists>resp. r = Inr (Some resp) \<and> resp_code resp = Some 202
      \<and> resp = RespondWithStatusCode (Some (dataResponse [(''status'', GStr ''pending''),
          (''request_id'', GStr rid), (''message'', GStr ''Request is pending approval'')])) (Some req) 202)
    \<and> w_routed w' = w_routed w
    \<and> (\<exists>rule p. rule_at c w (ar_RuleID rule) = Some rule \<and> rule_covers rule (rq_Path req)
         \<and> parked_record rid rule req (w_clock w (w_ticks w)) p
         \<and> approvals c w' = (approvals c w)(pending_key rid \<mapsto> DPending p))"
proof -
  obtain rule where m: "matched_rule c w (rq_Path req) = Some rule"
    using assms(2) needs_approval_iff [OF assms(1)] by blast
  note rule = matched_rule_Some [OF assms(1) m]
  have u: "uuidPattern rid"
    using assms(1,3) by (auto simp: healthy_def approval_inv_def doc_inv_def)
  have i: "run_state (intercept c req rule) w = run_state (park_request c req rule) w"
    by (simp add: intercept_def run_checkActive_none [OF assms(1,4)])
  note park = park_result [OF assms(1) rule(3) assms(3) refl refl refl]
  have run: "(r, w') = (case run_state (park_request c req rule) w of
      ((resp, _, e), w') \<Rightarrow> ((case e of Some e \<Rightarrow> Inl e | None \<Rightarrow> Inr resp), w'))"
    using assms(2,5) i m by (simp add: run_handleRequest [OF assms(1)])
  have "approvals c w' = (approvals c w)(pending_key rid \<mapsto>
      DPending (json_pending (new_pending rid rule req (w_clock w (w_ticks w)))))"
    using run uuidPattern_key_part [OF u] unfolding park
    by (auto simp: run_Put_ok(2) assms(1) split: if_splits)
  moreover have "w_routed w' = w_routed w" using mediation_run [OF assms(1,5)] assms(2) by simp
  moreover have "\<exists>resp. r = Inr (Some resp) \<and> resp_code resp = Some 202
      \<and> resp = RespondWithStatusCode (Some (dataResponse [(''status'', GStr ''pending''),
          (''request_id'', GStr rid), (''message'', GStr ''Request is pending approval'')])) (Some req) 202"
    using run unfolding park by auto
  ultimately show ?thesis
    using rule(1,2) new_pending_parked [OF u rule(3)] unfolding rule_covers_code by blast
qed

section \<open>Deduplication\<close>

text \<open>One turn of the loop refuses the request, or goes on, perhaps after a reading or a removal.\<close>

lemma active_loop_head:
  assumes "healthy c w" "key_part k"
  shows "(\<exists>resp. fst (run_state (active_loop c req (k # ks)) w) = Some resp \<and> resp_code resp = Some 400)
    \<or> (\<exists>v \<in> {w, tick w, del_world c (pending_key k) w, del_world c (pending_key k) (tick w)}.
         run_state (active_loop c req (k # ks)) w = run_state (active_loop c req ks) v)"
proof (cases "pending_at c w k")
  case None
  then show ?thesis by (simp add: run_read_pending [OF assms])
next
  case (Some p)
  have h: "healthy c (tick w)" using assms(1) by simp
  note del = run_Delete_ok(1) [OF assms(1), of "pending_key k"] run_Delete_ok(1) [OF h, of "pending_key k"]
  show ?thesis
  proof (cases "own_record req p")
    case True
    then have "pr_RequesterEntityID p = rq_EntityID req" "pr_OriginalPath p = rq_Path req"
      by (simp_all add: own_record_def)
    with Some assms(2) del show ?thesis
      by (simp add: run_read_pending [OF assms] run_prims)
  next
    case False
    with Some show ?thesis by (auto simp: run_read_pending [OF assms] own_record_def)
  qed
qed

lemma active_loop_blocks:
  assumes "healthy c w" "rid \<in> set ks" "\<forall>k \<in> set ks. key_part k"
    "pending_at c w rid = Some p" "own_record req p" "pr_Status p = ''pending''"
    "\<forall>t. w_ticks w \<le> t \<and> t < w_ticks (snd (run_state (active_loop c req ks) w)) \<longrightarrow> w_clock w t < pr_ExpiresAt p"
  shows "\<exists>resp. fst (run_state (active_loop c req ks) w) = Some resp \<and> resp_code resp = Some 400"
  using assms
proof (induction ks arbitrary: w)
  case (Cons k ks)
  have k: "key_part k" using Cons.prems(3) by simp
  have mono: "w_ticks v \<le> w_ticks (snd (run_state (active_loop c req ks) v))" for v
    using growing.active_loop_steps [of c req ks] by (simp add: steps_def grows_def)
  show ?case
  proof (cases "k = rid")
    case True
    let ?v = "del_world c (pending_key rid) (tick w)"
    have own: "pr_RequesterEntityID p = rq_EntityID req" "pr_OriginalPath p = rq_Path req"
      using Cons.prems(5) by (simp_all add: own_record_def)
    have h: "healthy c (tick w)" using Cons.prems(1) by (simp add: tick_def)
    have "w_clock w (w_ticks w) < pr_ExpiresAt p"
    proof (rule ccontr)
      assume late: "\<not> w_clock w (w_ticks w) < pr_ExpiresAt p"
      then have "run_state (active_loop c req (k # ks)) w = run_state (active_loop c req ks) ?v"
        using True Cons.prems(4,6) own k run_Delete_ok(1) [OF h, of "pending_key rid"]
        by (simp add: run_read_pending [OF Cons.prems(1)] run_now tick_def)
      with mono [of ?v] Cons.prems(7) have "w_clock w (w_ticks w) < pr_ExpiresAt p"
        by (simp add: tick_def Suc_le_eq)
      with late show False ..
    qed
    with True Cons.prems(1,4,6) own k show ?thesis by (simp add: run_read_pending run_now)
  next
    case False
    have IH: "\<exists>resp. fst (run_state (active_loop c req ks) v) = Some resp \<and> resp_code resp = Some 400"
      if "run_state (active_loop c req (k # ks)) w = run_state (active_loop c req ks) v"
        "healthy c v" "pending_at c v rid = Some p" "w_clock v = w_clock w" "w_ticks w \<le> w_ticks v" for v
      using that Cons.prems False by (intro Cons.IH) auto
    have del: "healthy c (del_world c (pending_key k) v)" "pending_at c (del_world c (pending_key k) v) rid = Some p"
      if "healthy c v" "pending_at c v rid = Some p" for v
      using that k False by (simp_all add: run_Delete_ok at_del)
    show ?thesis
      using active_loop_head [OF Cons.prems(1) k, of req ks]
    proof
      assume "\<exists>v \<in> {w, tick w, del_world c (pending_key k) w, del_world c (pending_key k) (tick w)}.
        run_state (active_loop c req (k # ks)) w = run_state (active_loop c req ks) v"
      then obtain v where v: "v \<in> {w, tick w, del_world c (pending_key k) w, del_world c (pending_key k) (tick w)}"
        "run_state (active_loop c req (k # ks)) w = run_state (active_loop c req ks) v" by blast
      from v(1) have "healthy c v" "pending_at c v rid = Some p" "w_clock v = w_clock w" "w_ticks w \<le> w_ticks v"
        using Cons.prems(1,4) del [of w] del [of "tick w"] by auto
      from IH [OF v(2) this] v(2) show ?thesis by simp
    qed
  qed
qed simp

lemma checkActive_blocks:
  assumes "healthy c w" "pending_at c w rid = Some p" "own_record req p" "pr_Status p = ''pending''"
    "\<forall>t. w_ticks w \<le> t \<and> t < w_ticks (snd (run_state (checkActiveApprovalRequest c req) w))
       \<longrightarrow> w_clock w t < pr_ExpiresAt p"
  shows "\<exists>resp. fst (run_state (checkActiveApprovalRequest c req) w) = Some resp
    \<and> resp_code resp = Some 400"
proof -
  have run: "run_state (checkActiveApprovalRequest c req) w =
      run_state (active_loop c req (keys_of c ''pending/'' w)) w"
    by (simp add: checkActiveApprovalRequest_def run_List_ok(1) [OF assms(1)])
  have "rid \<in> set (keys_of c ''pending/'' w)"
    using assms(2) approvals_at(2) [OF assms(1), of rid] by (simp add: set_keys(2) [OF assms(1)] dom_def)
  then show ?thesis
    using active_loop_blocks [OF assms(1) _ _ assms(2-4)] pending_keys_part [OF assms(1)] assms(5)
    unfolding run by blast
qed

text \<open>What only deletes leaves a part of the documents.\<close>

lemma checkActive_shrinks:
  assumes "healthy c w" "run_state (checkActiveApprovalRequest c req) w = (r, w')"
  shows "approvals c w' \<subseteq>\<^sub>m approvals c w"
proof -
  have "doc_inv c (\<lambda>_. True) (\<lambda>k d. approvals c w k = Some d) w"
    using assms(1) by (simp add: doc_inv_def healthy_ok)
  then have "doc_inv c (\<lambda>_. True) (\<lambda>k d. approvals c w k = Some d) w'"
    using keepsD [OF keeps_checkActive _ assms(2)] by blast
  then show ?thesis by (auto simp: doc_inv_def map_le_def dom_def)
qed

text \<open>
  C11. One active request per caller and path. While the storage works, an identified caller has
  a pending request for the same path, and no reading of the clock made while the new request is
  handled reaches the expiry of that one, the new request is refused with status 400. It is
  neither dispatched nor stored.
\<close>

theorem duplicate_refused:
  assumes "healthy c w" "needs_approval c w req auth" "rq_EntityID req \<noteq> []"
    and "pending_at c w rid = Some p" "own_record req p" "pr_Status p = ''pending''"
    and "run_state (handleRequest_route c False req auth) w = (r, w')"
    and "\<forall>t. w_ticks w \<le> t \<and> t < w_ticks w' \<longrightarrow> w_clock w t < pr_ExpiresAt p"
  shows "(\<exists>resp. r = Inr (Some resp) \<and> resp_code resp = Some 400) \<and>
    approvals c w' \<subseteq>\<^sub>m approvals c w \<and> w_routed w' = w_routed w"
proof -
  let ?rule = "the (matched_rule c w (rq_Path req))"
  obtain b w1 where run1: "run_state (checkActiveApprovalRequest c req) w = (b, w1)" by fastforce
  obtain x w2 where run2: "run_state (intercept c req ?rule) w = (x, w2)" by fastforce
  have w': "w' = w2"
    using assms(2,7) run2 by (auto simp: run_handleRequest [OF assms(1)] split: prod.splits)
  have "w_ticks w1 \<le> w_ticks w2"
    using run2 run1 assms(3) stepsD [OF growing.park_steps]
    by (auto simp: intercept_def grows_def split: option.splits)
  then have "\<exists>resp. b = Some resp \<and> resp_code resp = Some 400"
    using checkActive_blocks [OF assms(1,4-6)] assms(8) run1 unfolding w' by auto
  then obtain resp where b: "b = Some resp" "resp_code resp = Some 400" by blast
  then have "run_state (intercept c req ?rule) w = ((Some resp, True, None), w1)"
    using assms(3) run1 by (simp add: intercept_def)
  with assms(2,7) have "r = Inr (Some resp)" "w' = w1"
    by (simp_all add: run_handleRequest [OF assms(1)])
  moreover have "same_routed w w1"
    using stepsD [OF unrouted.checkActive_steps run1] .
  ultimately show ?thesis
    using b checkActive_shrinks [OF assms(1) run1] by (simp add: same_routed_def)
qed

end
