(* ===== verification/Approval_Decide.thy ===== *)
theory Approval_Decide
  imports Approval_Spec
begin

text \<open>
  Approve, deny and fetch: who may decide, when the parked request is executed, what is stored
  and given back, and that a credential is handed out once.
\<close>

section \<open>Loading the record and its rule\<close>

lemma pending_rule_key_part: "pending_ok p \<Longrightarrow> key_part (pr_RuleID p)"
  by (simp add: pending_ok_def ruleIDPattern_key_part)

text \<open>With any storage faults: a record that is loaded is stored, pending, unexpired and has its rule.\<close>

lemma load_decidable_Inr:
  assumes "approval_inv c w" "run_state (load_decidable c rid) w = (Inr (p, rule), w1)"
  shows "pending_at c w rid = Some p" "rule_at c w (pr_RuleID p) = Some rule"
    "pr_Status p = ''pending''" "w_clock w (w_ticks w) \<le> pr_ExpiresAt p"
    "approvals c w1 = approvals c w" "w_routed w1 = w_routed w"
proof -
  have ok: "world_ok c w" using assms(1) by (simp add: approval_inv_def doc_inv_def)
  have get: "\<And>d. approvals c w (pending_key rid) = Some d \<Longrightarrow> doc_ok (pending_key rid) d"
    "\<And>r d. approvals c w (config_key r) = Some d \<Longrightarrow> doc_ok (config_key r) d"
    using assms(1) unfolding approval_inv_def by (blast dest: doc_invD)+
  from assms(2) have f: "(\<exists>d. approvals c w (pending_key rid) = Some d \<and> decode_pending d = Some p) \<and>
      (\<exists>d. approvals c w (config_key (pr_RuleID p)) = Some d \<and> decode_rule d = Some rule) \<and>
      pr_Status p = ''pending'' \<and> w_clock w (w_ticks w) \<le> pr_ExpiresAt p \<and>
      approvals c w1 = approvals c w \<and> w_routed w1 = w_routed w"
    unfolding load_decidable_def getPendingRequest_def getApprovalRule_def
    by (auto simp: run_Get ok now_UTC_def split: if_splits option.splits prod.splits)
  then obtain d e where d: "approvals c w (pending_key rid) = Some d" "decode_pending d = Some p"
    and e: "approvals c w (config_key (pr_RuleID p)) = Some e" "decode_rule e = Some rule" by blast
  from get(1) [OF d(1)] d show "pending_at c w rid = Some p"
    by (auto simp: pending_at_def doc_ok_keys)
  from get(2) [OF e(1)] e show "rule_at c w (pr_RuleID p) = Some rule"
    by (auto simp: rule_at_def doc_ok_keys)
  from f show "pr_Status p = ''pending''" "w_clock w (w_ticks w) \<le> pr_ExpiresAt p"
    "approvals c w1 = approvals c w" "w_routed w1 = w_routed w" by blast+
qed

lemma run_load:
  assumes "healthy c w" "key_part rid"
  defines "w1 \<equiv> w\<lparr>w_ticks := Suc (w_ticks w)\<rparr>"
  shows "run_state (load_decidable c rid) w =
    (case pending_at c w rid of
       None \<Rightarrow> (Inl (error_resp ''no approval request found with ID %q'' [GStr rid]), w)
     | Some p \<Rightarrow>
         if pr_Status p \<noteq> ''pending'' then
           (Inl (error_resp ''request %q is not pending (current status: %s)''
              [GStr rid, GStr (pr_Status p)]), w)
         else if w_clock w (w_ticks w) > pr_ExpiresAt p then
           (Inl (error_resp ''request %q has expired and has been removed'' [GStr rid]),
            del_world c (pending_key rid) w1)
         else case rule_at c w (pr_RuleID p) of
                None \<Rightarrow>
                  (Inl (error_resp ''approval rule %q no longer exists; orphaned request has been removed''
                     [GStr (pr_RuleID p)]), del_world c (pending_key rid) w1)
              | Some rule \<Rightarrow> (Inr (p, rule), w1))"
proof (cases "pending_at c w rid")
  case (Some p)
  have "key_part (pr_RuleID p)" using pending_atD(1) [OF assms(1) Some] by (rule pending_rule_key_part)
  with Some assms show ?thesis
    by (auto simp: load_decidable_def run_getPending run_now run_getRule run_Delete_ok(1)
        split: option.splits)
qed (use assms in \<open>simp add: load_decidable_def run_getPending\<close>)

section \<open>Execution only after approval\<close>

lemma execute_routes:
  assumes "run_state (executeApprovedRequest c p) w = (x, w')"
  shows "w_routed w' = w_routed w \<or> (\<exists>u. w_routed w' = w_routed w @ [reconstruct_request u p])"
  using assms stepsD [OF unrouted.storePendingRequest_steps]
  by (auto simp: executeApprovedRequest_def GenerateUUID_def doRouting_def now_UTC_def same_routed_def
      Let_def split: option.splits sum.splits prod.splits)

lemma approve_execute_routes:
  assumes "run_state (approve_execute c rid p) w = (x, w')"
  shows "w_routed w' = w_routed w \<or>
    (\<exists>u. w_routed w' = w_routed w @ [reconstruct_request u (p\<lparr>pr_Status := ''approved''\<rparr>)])"
proof -
  note st = stepsD [OF unrouted.storePendingRequest_steps, unfolded same_routed_def]
  note gt = stepsD [OF unrouted.getPendingRequest_steps, unfolded same_routed_def]
  show ?thesis
    using assms
    by (auto simp: approve_execute_def Let_def split: prod.splits sum.splits if_splits
        dest!: st gt execute_routes)
qed

definition may_approve :: "core \<Rightarrow> Request \<Rightarrow> PendingRequest \<Rightarrow> ApprovalRule \<Rightarrow> bool" where
  "may_approve c req p rule \<longleftrightarrow>
     (callerIsRoot c req \<or>
        approvalEntityIsAuthorized (rq_EntityID req) (ar_AuthorizedApprovers rule)
        \<and> (ar_AllowSelfApproval rule \<or> rq_EntityID req \<noteq> pr_RequesterEntityID p))
     \<and> rq_EntityID req \<notin> set (voters (pr_Approvals p))"

lemma mem_voters: "e \<in> set (voters vs) \<longleftrightarrow> e \<noteq> [] \<and> (\<exists>a \<in> set vs. av_ApproverEntityID a = e)"
  by (auto simp: voters_def)

lemma approve_refusal_None: "approve_refusal c req p rule = None \<longleftrightarrow> may_approve c req p rule"
  by (auto simp: approve_refusal_def may_approve_def mem_voters list_ex_iff approvalEntityIsAuthorized_def)

lemma execution_run:
  assumes "approval_inv c w" "run_state (handleApprovalApprove c req rid) w = (r, w')"
    "w_routed w' \<noteq> w_routed w"
  shows "\<exists>p rule u. pending_at c w rid = Some p \<and> rule_at c w (pr_RuleID p) = Some rule
    \<and> pr_Status p = ''pending'' \<and> w_clock w (w_ticks w) \<le> pr_ExpiresAt p
    \<and> may_approve c req p rule
    \<and> ar_ApprovalsRequired rule \<le> int (length (pr_Approvals p)) + 1
    \<and> w_routed w' = w_routed w @ [reconstruct_request u p]"
proof -
  obtain l w1 where l: "run_state (load_decidable c rid) w = (l, w1)" by fastforce
  show ?thesis
  proof (cases l)
    case (Inl x)
    have "same_routed w w1"
      using l unfolding load_decidable_def by (rule stepsD [rotated]) (intro unrouted.calls)
    with Inl l assms show ?thesis by (auto simp: handleApprovalApprove_def same_routed_def)
  next
    case (Inr pr)
    then obtain p rule where pr: "l = Inr (p, rule)" by (cases pr) auto
    note facts = load_decidable_Inr [OF assms(1) l [unfolded pr]]
    let ?v = "p\<lparr>pr_Approvals := pr_Approvals p @
      [\<lparr>av_ApproverEntityID = rq_EntityID req, av_ApprovedAt = w_clock w1 (w_ticks w1)\<rparr>]\<rparr>"
    have rr: "reconstruct_request u (?v\<lparr>pr_Status := ''approved''\<rparr>) = reconstruct_request u p" for u
      by (simp add: reconstruct_request_def)
    have none: "approve_refusal c req p rule = None"
      and q: "ar_ApprovalsRequired rule \<le> int (length (pr_Approvals p)) + 1"
      and "\<exists>u. w_routed w' = w_routed w1 @ [reconstruct_request u p]"
      using assms(2,3) l pr facts(6) approve_execute_routes
        stepsD [OF unrouted.storePendingRequest_steps, unfolded same_routed_def]
      by (fastforce simp: handleApprovalApprove_def run_now Let_def rr
          split: option.splits if_splits prod.splits)+
    then show ?thesis
      using facts approve_refusal_None by auto
  qed
qed

text \<open>
  C5. No execution without quorum. Whatever storage faults occur, when an approve request makes
  the backend run, then the record was pending and not expired, its rule existed, the caller
  was a root token or an authorised approver other than the requester (unless the rule allows
  self-approval) who had not voted yet, with this vote the required number is reached, and
  what is dispatched is the parked request.
\<close>

theorem execution_needs_quorum:
  assumes "approval_inv c w" "run_state (handleApprovalApprove c req rid) w = (r, w')"
    "w_routed w' \<noteq> w_routed w"
  shows "\<exists>p rule u. pending_at c w rid = Some p \<and> rule_at c w (pr_RuleID p) = Some rule
    \<and> pr_Status p = ''pending'' \<and> w_clock w (w_ticks w) \<le> pr_ExpiresAt p
    \<and> may_approve c req p rule
    \<and> ar_ApprovalsRequired rule \<le> int (length (pr_Approvals p)) + 1
    \<and> w_routed w' = w_routed w @ [reconstruct_request u p]"
  by (rule execution_run [OF assms])

section \<open>Approve on a working storage\<close>

text \<open>A record that can be decided now: pending, not expired at the next reading, with its rule.\<close>

definition decidable :: "core \<Rightarrow> world \<Rightarrow> string \<Rightarrow> PendingRequest \<Rightarrow> ApprovalRule \<Rightarrow> bool" where
  "decidable c w rid p rule \<longleftrightarrow> healthy c w \<and> pending_at c w rid = Some p
     \<and> pr_Status p = ''pending'' \<and> w_clock w (w_ticks w) \<le> pr_ExpiresAt p
     \<and> rule_at c w (pr_RuleID p) = Some rule"

lemma decidableD:
  assumes "decidable c w rid p rule"
  shows "healthy c w" "key_part rid" "pending_at c w rid = Some p" "pr_RequestID p = rid"
    "stored_ok rid p" "json_pending p = p" "rule_ok rule"
    "run_state (load_decidable c rid) w = (Inr (p, rule), tick w)"
proof -
  show h: "healthy c w" and p: "pending_at c w rid = Some p"
    using assms by (simp_all add: decidable_def)
  note pa = pending_atD [OF h p]
  from pa show k: "key_part rid" and "pr_RequestID p = rid" "stored_ok rid p" "json_pending p = p"
    by simp_all
  from assms rule_atD(1) [OF h] show "rule_ok rule" by (auto simp: decidable_def)
  from assms p show "run_state (load_decidable c rid) w = (Inr (p, rule), tick w)"
    by (simp add: run_load [OF h k] decidable_def tick_def)
qed

definition with_vote :: "Request \<Rightarrow> time \<Rightarrow> PendingRequest \<Rightarrow> PendingRequest" where
  "with_vote req now p = p\<lparr>pr_Approvals := pr_Approvals p @
     [\<lparr>av_ApproverEntityID = rq_EntityID req, av_ApprovedAt = now\<rparr>]\<rparr>"

lemma run_store:
  assumes "healthy c w" "stored_ok rid p"
  shows "run_state (storePendingRequest c p) w =
      (Inr (), put_world c (pending_key rid) (DPending (json_pending p)) w)"
    and "healthy c (put_world c (pending_key rid) (DPending (json_pending p)) w)"
    and "approvals c (put_world c (pending_key rid) (DPending (json_pending p)) w) =
      (approvals c w)(pending_key rid \<mapsto> DPending (json_pending p))"
proof -
  have k: "key_part rid" "pr_RequestID p = rid" "doc_ok (pending_key rid) (DPending (json_pending p))"
    using assms(2) doc_ok_pendingI uuidPattern_key_part by (auto simp: stored_ok_def pending_ok_def)
  then have s: "SanityCheck (pending_key rid)" by simp
  show "run_state (storePendingRequest c p) w =
      (Inr (), put_world c (pending_key rid) (DPending (json_pending p)) w)"
    using run_Put_ok(1) [OF assms(1) s] k by (simp add: storePendingRequest_def)
  show "healthy c (put_world c (pending_key rid) (DPending (json_pending p)) w)"
    using run_Put_ok(3) [OF assms(1) s k(3)] .
  show "approvals c (put_world c (pending_key rid) (DPending (json_pending p)) w) =
      (approvals c w)(pending_key rid \<mapsto> DPending (json_pending p))"
    using run_Put_ok(2) [OF assms(1) s] .
qed

lemma run_approve:
  assumes "decidable c w rid p rule"
  shows "run_state (handleApprovalApprove c req rid) w =
    (case approve_refusal c req p rule of
       Some r \<Rightarrow> (r, tick w)
     | None \<Rightarrow>
         (let v = with_vote req (w_clock w (Suc (w_ticks w))) p; w2 = tick (tick w) in
          if ar_ApprovalsRequired rule \<le> int (length (pr_Approvals p)) + 1
          then case run_state (approve_execute c rid v) w2 of
                 (Inl e, w3) \<Rightarrow> (Inl e, w3)
               | (Inr v', w3) \<Rightarrow> (approve_response rid v' rule True, w3)
          else case run_state (storePendingRequest c v) w2 of
                 (Inl e, w3) \<Rightarrow> (Inl e, w3)
               | (Inr _, w3) \<Rightarrow> (approve_response rid v rule False, w3)))"
  using decidableD(8) [OF assms]
  by (auto simp: handleApprovalApprove_def run_prims with_vote_def Let_def
      split: option.splits prod.splits sum.splits)

lemma stored_ok_with_vote:
  "stored_ok rid p \<Longrightarrow> approve_refusal c req p rule = None \<Longrightarrow> req_ok req \<Longrightarrow>
   stored_ok rid (with_vote req now p)"
  unfolding with_vote_def by (rule stored_ok_vote)

lemma json_with_vote:
  "json_pending p = p \<Longrightarrow> req_ok req \<Longrightarrow> json_pending (with_vote req now p) = with_vote req now p"
  by (cases p) (auto simp: json_pending_def with_vote_def req_ok_def json_vote_def)

text \<open>
  C6. Separation of duties. Without a root token and unless the rule allows it, the requester's
  approval of their own request is refused, with status 403 when they are an authorised
  approver; no document changes and nothing is executed.
\<close>

theorem self_approval_refused:
  assumes "decidable c w rid p rule" "\<not> callerIsRoot c req" "\<not> ar_AllowSelfApproval rule"
    "rq_EntityID req = pr_RequesterEntityID p"
    "run_state (handleApprovalApprove c req rid) w = (r, w')"
  shows "(if approvalEntityIsAuthorized (rq_EntityID req) (ar_AuthorizedApprovers rule)
          then \<exists>resp. r = Inr (Some resp) \<and> resp_code resp = Some 403
          else r = Inl ErrPermissionDenied)
    \<and> approvals c w' = approvals c w \<and> w_routed w' = w_routed w"
proof (cases "approvalEntityIsAuthorized (rq_EntityID req) (ar_AuthorizedApprovers rule)")
  case True
  then have "rq_EntityID req \<noteq> []" by (auto simp: approvalEntityIsAuthorized_def)
  with True assms show ?thesis by (auto simp: run_approve approve_refusal_def)
next
  case False
  with assms show ?thesis by (auto simp: run_approve approve_refusal_def)
qed

lemma vote_recorded_run:
  assumes "decidable c w rid p rule" "req_ok req" "may_approve c req p rule"
    "int (length (pr_Approvals p)) + 1 < ar_ApprovalsRequired rule"
    "v = with_vote req (w_clock w (Suc (w_ticks w))) p"
    "run_state (handleApprovalApprove c req rid) w = (r, w')"
  shows "r = approve_response rid v rule False
    \<and> approvals c w' = (approvals c w)(pending_key rid \<mapsto> DPending v)
    \<and> w_routed w' = w_routed w"
proof -
  note d = decidableD [OF assms(1)]
  have none: "approve_refusal c req p rule = None" using assms(3) by (simp add: approve_refusal_None)
  have h: "healthy c (tick (tick w))" using d(1) by simp
  have ok: "stored_ok rid v" unfolding assms(5) by (rule stored_ok_with_vote [OF d(5) none assms(2)])
  have "json_pending v = v" unfolding assms(5) by (rule json_with_vote [OF d(6) assms(2)])
  then show ?thesis
    using assms(4,6) none run_store [OF h ok]
    by (auto simp: run_approve [OF assms(1)] Let_def assms(5) [symmetric])
qed

text \<open>
  C15. Recording a vote. An accepted approval below the required number stores exactly the
  record with the vote appended, stays pending, and reports the new count.
\<close>

theorem vote_recorded:
  assumes "decidable c w rid p rule" "req_ok req" "may_approve c req p rule"
    "int (length (pr_Approvals p)) + 1 < ar_ApprovalsRequired rule"
    "v = with_vote req (w_clock w (Suc (w_ticks w))) p"
    "run_state (handleApprovalApprove c req rid) w = (r, w')"
  shows "r = approve_response rid v rule False
    \<and> approvals c w' = (approvals c w)(pending_key rid \<mapsto> DPending v)
    \<and> w_routed w' = w_routed w"
  by (rule vote_recorded_run [OF assms])

lemma run_execute:
  assumes "healthy c w" "stored_ok rid p" "w_uuids w (w_draws w) = Some u"
    "c_route c (length (w_routed w)) (reconstruct_request u p) = Inr resp"
    "p' = (capture_response resp p)\<lparr>pr_ApprovedAt := w_clock w (w_ticks w)\<rparr>"
  shows "run_state (executeApprovedRequest c p) w =
    ((Inr (), p'), put_world c (pending_key rid) (DPending (json_pending p'))
       (tick (dispatch (reconstruct_request u p) (draw w))))"
proof -
  have "stored_ok rid p'" unfolding assms(5) by (rule stored_ok_capture [OF assms(2)])
  moreover have "healthy c (tick (dispatch (reconstruct_request u p) (draw w)))"
    using assms(1) by simp
  ultimately show ?thesis
    using assms run_store(1) by (simp add: executeApprovedRequest_def run_prims Let_def)
qed

text \<open>The re-read record is the one just written, so its credential decides about execution.\<close>

lemma run_approve_execute:
  assumes "healthy c w" "stored_ok rid v" "pr_Approvals v \<noteq> []" "pr_CredentialData v = None"
    "va = v\<lparr>pr_Status := ''approved''\<rparr>"
    "w1 = put_world c (pending_key rid) (DPending (json_pending va)) w"
  shows "healthy c w1"
    and "run_state (approve_execute c rid v) w =
    (case run_state (executeApprovedRequest c va) w1 of
       ((Inr _, v'), w2) \<Rightarrow> (Inr v', w2)
     | ((Inl e, v'), w2) \<Rightarrow>
         (Inl (ErrWrap ''approval execution failed'' e),
          snd (run_state (storePendingRequest c (v'\<lparr>pr_Status := ''pending'',
            pr_Approvals := butlast (pr_Approvals v')\<rparr>)) w2)))"
proof -
  have ok: "stored_ok rid va" unfolding assms(5) by (rule stored_ok_approved [OF assms(2,3)])
  have k: "key_part rid" using assms(2) by (auto simp: stored_ok_def pending_ok_def uuidPattern_key_part)
  show h: "healthy c w1" unfolding assms(6) by (rule run_store(2) [OF assms(1) ok])
  have "pending_at c w1 rid = Some (json_pending va)"
    unfolding assms(6) using assms(1) k by (simp add: at_put)
  moreover have "pr_CredentialData (json_pending va) = None"
    using assms(4,5) by (simp add: json_pending_def json_cred_def)
  ultimately show "run_state (approve_execute c rid v) w =
    (case run_state (executeApprovedRequest c va) w1 of
       ((Inr _, v'), w2) \<Rightarrow> (Inr v', w2)
     | ((Inl e, v'), w2) \<Rightarrow>
         (Inl (ErrWrap ''approval execution failed'' e),
          snd (run_state (storePendingRequest c (v'\<lparr>pr_Status := ''pending'',
            pr_Approvals := butlast (pr_Approvals v')\<rparr>)) w2)))"
    using run_store(1) [OF assms(1) ok] run_getPending [OF h k] assms(5,6)
    by (auto simp: approve_execute_def Let_def split: prod.splits sum.splits)
qed

lemma approved_vote:
  assumes "decidable c w rid p rule" "req_ok req" "may_approve c req p rule" "pr_CredentialData p = None"
  defines "v \<equiv> with_vote req (w_clock w (Suc (w_ticks w))) p"
  defines "va \<equiv> v\<lparr>pr_Status := ''approved''\<rparr>"
  defines "w1 \<equiv> put_world c (pending_key rid) (DPending (json_pending va)) (tick (tick w))"
  shows "approve_refusal c req p rule = None" "stored_ok rid v" "stored_ok rid va" "healthy c w1"
    "run_state (approve_execute c rid v) (tick (tick w)) =
    (case run_state (executeApprovedRequest c va) w1 of
       ((Inr _, v'), w2) \<Rightarrow> (Inr v', w2)
     | ((Inl e, v'), w2) \<Rightarrow>
         (Inl (ErrWrap ''approval execution failed'' e),
          snd (run_state (storePendingRequest c (v'\<lparr>pr_Status := ''pending'',
            pr_Approvals := butlast (pr_Approvals v')\<rparr>)) w2)))"
    "approvals c w1 = (approvals c w)(pending_key rid \<mapsto> DPending (json_pending va))"
    "reconstruct_request u va = reconstruct_request u p"
proof -
  note d = decidableD [OF assms(1)]
  show none: "approve_refusal c req p rule = None" using assms(3) by (simp add: approve_refusal_None)
  show ok: "stored_ok rid v"
    unfolding v_def by (rule stored_ok_with_vote [OF d(5) none assms(2)])
  have ne: "pr_Approvals v \<noteq> []" and cr: "pr_CredentialData v = None"
    using assms(4) by (simp_all add: v_def with_vote_def)
  show oka: "stored_ok rid va" unfolding va_def by (rule stored_ok_approved [OF ok ne])
  have h: "healthy c (tick (tick w))" using d(1) by simp
  note ex = run_approve_execute [OF h ok ne cr va_def [THEN meta_eq_to_obj_eq] w1_def [THEN meta_eq_to_obj_eq]]
  show "healthy c w1" by (rule ex(1))
  show "run_state (approve_execute c rid v) (tick (tick w)) =
    (case run_state (executeApprovedRequest c va) w1 of
       ((Inr _, v'), w2) \<Rightarrow> (Inr v', w2)
     | ((Inl e, v'), w2) \<Rightarrow>
         (Inl (ErrWrap ''approval execution failed'' e),
          snd (run_state (storePendingRequest c (v'\<lparr>pr_Status := ''pending'',
            pr_Approvals := butlast (pr_Approvals v')\<rparr>)) w2)))" by (rule ex(2))
  show "approvals c w1 = (approvals c w)(pending_key rid \<mapsto> DPending (json_pending va))"
    unfolding w1_def using run_store(3) [OF h oka] by simp
  show "reconstruct_request u va = reconstruct_request u p"
    by (simp add: va_def v_def with_vote_def reconstruct_request_def)
qed

lemma quorum_executes_run:
  assumes "decidable c w rid p rule" "req_ok req" "may_approve c req p rule"
    "ar_ApprovalsRequired rule \<le> int (length (pr_Approvals p)) + 1" "pr_CredentialData p = None"
    "w_uuids w (w_draws w) = Some u"
    "c_route c (length (w_routed w)) (reconstruct_request u p) = Inr resp"
    "v = (capture_response resp ((with_vote req (w_clock w (Suc (w_ticks w))) p)\<lparr>pr_Status := ''approved''\<rparr>))
           \<lparr>pr_ApprovedAt := w_clock w (Suc (Suc (w_ticks w)))\<rparr>"
    "run_state (handleApprovalApprove c req rid) w = (r, w')"
  shows "r = approve_response rid v rule True
    \<and> approvals c w' = (approvals c w)(pending_key rid \<mapsto> DPending (json_pending v))
    \<and> w_routed w' = w_routed w @ [reconstruct_request u p]"
proof -
  note a = approved_vote [OF assms(1-3,5)]
  have "stored_ok rid v" unfolding assms(8) by (rule stored_ok_capture [OF a(3)])
  moreover note x = run_execute [OF a(4,3), of u resp v]
  ultimately show ?thesis
    using assms a run_store
    by (auto simp: run_approve [OF assms(1)] Let_def)
qed

text \<open>What the stored record says after execution, in terms of the backend's answer.\<close>

definition response_data :: "Response option \<Rightarrow> gmap" where
  "response_data resp = (case resp of None \<Rightarrow> [] | Some r \<Rightarrow> rs_Data r)"

definition response_secret :: "Response option \<Rightarrow> Secret option" where
  "response_secret resp = (case resp of None \<Rightarrow> None | Some r \<Rightarrow> rs_Secret r)"

lemma capture_fields:
  "pr_CredentialData (capture_response resp p) = Some (response_data resp)"
  "pr_SecretTTL (capture_response resp p) = (case response_secret resp of None \<Rightarrow> pr_SecretTTL p | Some s \<Rightarrow> lo_TTL s)"
  "pr_SecretMaxTTL (capture_response resp p) =
     (case response_secret resp of None \<Rightarrow> pr_SecretMaxTTL p | Some s \<Rightarrow> lo_MaxTTL s)"
  "pr_Status (capture_response resp p) = pr_Status p" "pr_Approvals (capture_response resp p) = pr_Approvals p"
  "same_request (capture_response resp p) q = same_request p q"
  by (auto simp: capture_response_def response_data_def response_secret_def same_request_def Let_def
      split: option.splits)

text \<open>
  C12. Execution at quorum. While the storage works and the backend answers, the vote that
  reaches the required number runs the parked request once, with its path, operation and data,
  and reports the new state. The stored record is then approved, with the vote appended, the time
  of approval, the lease times of the answer, and the data of the answer as the credential. An
  answer without data leaves no credential.
\<close>

theorem quorum_executes:
  assumes "decidable c w rid p rule" "req_ok req" "may_approve c req p rule"
    "ar_ApprovalsRequired rule \<le> int (length (pr_Approvals p)) + 1" "pr_CredentialData p = None"
    "w_uuids w (w_draws w) = Some u" "q = reconstruct_request u p"
    "c_route c (length (w_routed w)) q = Inr resp"
    "run_state (handleApprovalApprove c req rid) w = (r, w')"
  shows "r = data_resp [(''status'', GStr ''approved''), (''request_id'', GStr rid),
        (''approvals_recorded'', GInt (int (length (pr_Approvals p)) + 1)),
        (''approvals_required'', GInt (ar_ApprovalsRequired rule)), (''threshold_met'', GBool True)]
    \<and> w_routed w' = w_routed w @ [q] \<and> rq_Path q = pr_OriginalPath p
    \<and> rq_Operation q = pr_OriginalOperation p \<and> rq_Data q = pr_OriginalData p
    \<and> (\<exists>v. approvals c w' = (approvals c w)(pending_key rid \<mapsto> DPending v) \<and> same_request p v
        \<and> pr_Status v = ''approved'' \<and> pr_ApprovedAt v = w_clock w (Suc (Suc (w_ticks w)))
        \<and> pr_Approvals v = pr_Approvals p @
            [\<lparr>av_ApproverEntityID = rq_EntityID req, av_ApprovedAt = w_clock w (Suc (w_ticks w))\<rparr>]
        \<and> pr_CredentialData v =
            (if response_data resp = [] then None else Some (json_rt_map (response_data resp)))
        \<and> pr_SecretTTL v = (case response_secret resp of None \<Rightarrow> pr_SecretTTL p | Some s \<Rightarrow> lo_TTL s)
        \<and> pr_SecretMaxTTL v = (case response_secret resp of None \<Rightarrow> pr_SecretMaxTTL p | Some s \<Rightarrow> lo_MaxTTL s))"
proof -
  let ?p = "(with_vote req (w_clock w (Suc (w_ticks w))) p)\<lparr>pr_Status := ''approved''\<rparr>"
  let ?v = "(capture_response resp ?p)\<lparr>pr_ApprovedAt := w_clock w (Suc (Suc (w_ticks w)))\<rparr>"
  note x = quorum_executes_run [OF assms(1-6) assms(8) [unfolded assms(7)] refl assms(9)]
  have j: "json_pending p = p" by (rule decidableD(6) [OF assms(1)])
  have votes: "map json_vote (pr_Approvals ?p) = pr_Approvals ?p"
    using json_with_vote [OF j assms(2), of "w_clock w (Suc (w_ticks w))"]
    by (cases p) (simp add: json_pending_def with_vote_def)
  have same: "same_request p (json_pending ?v)"
    using j by (cases p) (simp add: same_request_def json_pending_def capture_response_def with_vote_def
        Let_def split: option.splits)
  have "r = data_resp [(''status'', GStr ''approved''), (''request_id'', GStr rid),
        (''approvals_recorded'', GInt (int (length (pr_Approvals p)) + 1)),
        (''approvals_required'', GInt (ar_ApprovalsRequired rule)), (''threshold_met'', GBool True)]"
    using x by (simp add: approve_response_def capture_fields with_vote_def add.commute)
  moreover have "rq_Path q = pr_OriginalPath p \<and> rq_Operation q = pr_OriginalOperation p
      \<and> rq_Data q = pr_OriginalData p"
    by (simp add: assms(7) reconstruct_request_def)
  moreover have "pr_Approvals (json_pending ?v) = pr_Approvals p @
      [\<lparr>av_ApproverEntityID = rq_EntityID req, av_ApprovedAt = w_clock w (Suc (w_ticks w))\<rparr>]"
    using votes by (simp add: json_pending_def capture_fields with_vote_def)
  moreover have "pr_Status (json_pending ?v) = ''approved''"
    "pr_ApprovedAt (json_pending ?v) = w_clock w (Suc (Suc (w_ticks w)))"
    "pr_CredentialData (json_pending ?v) =
       (if response_data resp = [] then None else Some (json_rt_map (response_data resp)))"
    "pr_SecretTTL (json_pending ?v) = (case response_secret resp of None \<Rightarrow> pr_SecretTTL p | Some s \<Rightarrow> lo_TTL s)"
    "pr_SecretMaxTTL (json_pending ?v) =
       (case response_secret resp of None \<Rightarrow> pr_SecretMaxTTL p | Some s \<Rightarrow> lo_MaxTTL s)"
    by (simp_all add: json_pending_def capture_fields json_cred_def with_vote_def ascii_valid_utf8 split: option.split)
  moreover have "w_routed w' = w_routed w @ [q]" using x assms(7) by simp
  ultimately show ?thesis using x same by blast
qed

text \<open>
  C14. Rollback. When the backend fails, the error is returned and the stored documents are
  exactly those from before the vote, so that the approver can retry.
\<close>

theorem failed_execution_rolls_back:
  assumes "decidable c w rid p rule" "req_ok req" "may_approve c req p rule"
    "ar_ApprovalsRequired rule \<le> int (length (pr_Approvals p)) + 1" "pr_CredentialData p = None"
    "w_uuids w (w_draws w) = Some u"
    "c_route c (length (w_routed w)) (reconstruct_request u p) = Inl e"
    "run_state (handleApprovalApprove c req rid) w = (r, w')"
  shows "r = Inl (ErrWrap ''approval execution failed'' (ErrWrap ''approval: backend execution failed'' e))
    \<and> approvals c w' = approvals c w"
proof -
  note d = decidableD [OF assms(1)]
  note a = approved_vote [OF assms(1-3,5)]
  let ?v = "with_vote req (w_clock w (Suc (w_ticks w))) p"
  let ?va = "?v\<lparr>pr_Status := ''approved''\<rparr>"
  let ?w1 = "put_world c (pending_key rid) (DPending (json_pending ?va)) (tick (tick w))"
  let ?w2 = "dispatch (reconstruct_request u p) (draw ?w1)"
  have x: "run_state (executeApprovedRequest c ?va) ?w1 =
      ((Inl (ErrWrap ''approval: backend execution failed'' e), ?va), ?w2)"
    using assms(6,7) a(7) by (simp add: executeApprovedRequest_def run_prims)
  have rolled: "?va\<lparr>pr_Status := ''pending'', pr_Approvals := butlast (pr_Approvals ?va)\<rparr> = p"
    using assms(1) by (cases p) (simp add: with_vote_def decidable_def)
  have "approvals c (snd (run_state (storePendingRequest c p) ?w2)) = approvals c w"
    using run_store [OF _ d(5), of c ?w2] a(4,6) d(3,6) approvals_at(2) [OF d(1)]
    by (simp add: fun_eq_iff)
  with assms(4,8) a(1,5) x rolled show ?thesis
    by (simp add: run_approve [OF assms(1)] Let_def)
qed

section \<open>Deny\<close>

lemma run_storeHistory:
  assumes "healthy c w" "history_ok h" "ah_RequestID h = rid"
  shows "run_state (storeHistoryEntry c h) w =
      (Inr (), put_world c (history_key rid) (DHistory (json_history h)) w)"
    and "healthy c (put_world c (history_key rid) (DHistory (json_history h)) w)"
    and "approvals c (put_world c (history_key rid) (DHistory (json_history h)) w) =
      (approvals c w)(history_key rid \<mapsto> DHistory (json_history h))"
proof -
  have "key_part rid" "doc_ok (history_key rid) (DHistory (json_history h))"
    using assms(2,3) doc_ok_historyI uuidPattern_key_part by (auto simp: history_ok_def)
  then show "run_state (storeHistoryEntry c h) w =
      (Inr (), put_world c (history_key rid) (DHistory (json_history h)) w)"
    and "healthy c (put_world c (history_key rid) (DHistory (json_history h)) w)"
    and "approvals c (put_world c (history_key rid) (DHistory (json_history h)) w) =
      (approvals c w)(history_key rid \<mapsto> DHistory (json_history h))"
    using run_Put_ok [OF assms(1), of "history_key rid"] assms(3)
    by (simp_all add: storeHistoryEntry_def)
qed

lemma json_denied: "json_pending p = p \<Longrightarrow> json_pending (p\<lparr>pr_Status := ''denied''\<rparr>) = p\<lparr>pr_Status := ''denied''\<rparr>"
  by (cases p) (auto simp: json_pending_def)

lemma history_of_id: "stored_ok rid p \<Longrightarrow> ah_RequestID (history_of p st t i n) = rid"
  by (simp add: history_of_def stored_ok_def)

lemma deny_allowed_iff:
  "deny_allowed c req p rule \<longleftrightarrow>
   callerIsRoot c req \<or> rq_EntityID req \<noteq> [] \<and> (rq_EntityID req = pr_RequesterEntityID p
     \<or> (\<exists>a. a \<in> set (ar_AuthorizedApprovers rule) \<and> equal_fold a (rq_EntityID req)))"
  by (auto simp: deny_allowed_def approvalEntityIsAuthorized_def list_ex_iff)

lemma deny_run:
  assumes "decidable c w rid p rule" "pd = p\<lparr>pr_Status := ''denied''\<rparr>"
    "h = history_of pd ''denied'' (w_clock w (Suc (w_ticks w))) (rq_EntityID req)
           (entity_name c (rq_EntityID req))"
    "run_state (handleApprovalDeny c req rid) w = (r, w')"
  shows "if deny_allowed c req p rule
    then r = data_resp [(''status'', GStr ''denied''), (''request_id'', GStr rid)]
      \<and> approvals c w' = (approvals c w)(pending_key rid \<mapsto> DPending pd,
          history_key rid \<mapsto> DHistory (json_history h))
    else r = Inl ErrPermissionDenied \<and> approvals c w' = approvals c w"
proof (cases "deny_allowed c req p rule")
  case True
  note d = decidableD [OF assms(1)]
  have h1: "healthy c (tick w)" using d(1) by simp
  have ok: "stored_ok rid pd" unfolding assms(2) by (rule stored_ok_denied [OF d(5)])
  have j: "json_pending pd = pd" unfolding assms(2) by (rule json_denied [OF d(6)])
  note st = run_store [OF h1 ok, unfolded j]
  let ?w2 = "tick (put_world c (pending_key rid) (DPending pd) (tick w))"
  have h2: "healthy c ?w2" using st(2) by simp
  have ok2: "history_ok h" unfolding assms(3) by (rule history_of_ok [OF ok]) simp
  have "ah_RequestID h = rid" unfolding assms(3) by (rule history_of_id [OF ok])
  note sh = run_storeHistory [OF h2 ok2 this]
  show ?thesis
    using True assms(4) st(3) sh(3)
    by (simp add: handleApprovalDeny_def run_prims d(8) st(1) sh(1) assms(2) [symmetric]
        assms(3) [symmetric])
qed (use assms(4) decidableD(8) [OF assms(1)] in \<open>auto simp: handleApprovalDeny_def\<close>)

text \<open>
  C16. Deny. A root token, an authorised approver or the requester may deny a pending request:
  the record is kept as denied, a history entry naming who decided is added, and nothing else
  changes. Everybody else is refused and changes nothing.
\<close>

theorem deny_decides:
  assumes "decidable c w rid p rule" "pd = p\<lparr>pr_Status := ''denied''\<rparr>"
    "h = history_of pd ''denied'' (w_clock w (Suc (w_ticks w))) (rq_EntityID req)
           (entity_name c (rq_EntityID req))"
    "run_state (handleApprovalDeny c req rid) w = (r, w')"
  shows "if callerIsRoot c req \<or> rq_EntityID req \<noteq> [] \<and> (rq_EntityID req = pr_RequesterEntityID p
        \<or> (\<exists>a. a \<in> set (ar_AuthorizedApprovers rule) \<and> equal_fold a (rq_EntityID req)))
    then r = data_resp [(''status'', GStr ''denied''), (''request_id'', GStr rid)]
      \<and> approvals c w' = (approvals c w)(pending_key rid \<mapsto> DPending pd,
          history_key rid \<mapsto> DHistory (json_history h))
    else r = Inl ErrPermissionDenied \<and> approvals c w' = approvals c w"
  by (rule deny_run [OF assms, unfolded deny_allowed_iff])

section \<open>Fetch\<close>

lemma getPending_faulty:
  assumes "approval_inv c w" "pending_at c w rid = Some p"
  shows "(\<exists>e. run_state (getPendingRequest c rid) w = (Inl e, pop_fault w))
    \<or> run_state (getPendingRequest c rid) w = (Inr (Some p), pop_fault w)"
proof -
  have "world_ok c w" using assms(1) by (simp add: approval_inv_def doc_inv_def)
  moreover have "approvals c w (pending_key rid) = Some (DPending p)"
    using assms(2) by (auto simp: pending_at_def split: option.splits doc.splits)
  ultimately show ?thesis by (auto simp: getPendingRequest_def run_Get)
qed

text \<open>
  C8. Only the requester fetches. Whatever storage faults occur, a caller who is not the
  requester (or, for a request without an entity, has no root token) gets an error, and the
  stored documents stay as they are.
\<close>

theorem fetch_protected:
  assumes "approval_inv c w" "pending_at c w rid = Some p"
    "if pr_RequesterEntityID p = [] then \<not> callerIsRoot c req else rq_EntityID req \<noteq> pr_RequesterEntityID p"
    "run_state (handleApprovalFetch c req rid) w = (r, w')"
  shows "(\<exists>e. r = Inl e) \<and> approvals c w' = approvals c w \<and> w_routed w' = w_routed w"
  using getPending_faulty [OF assms(1,2)] assms(3,4)
  by (auto simp: handleApprovalFetch_def fetch_allowed_def split: if_splits)

lemma run_delete:
  assumes "healthy c w" "key_part rid"
  shows "run_state (st_Delete c (pending_key rid)) w = (Inr (), del_world c (pending_key rid) w)"
    and "healthy c (del_world c (pending_key rid) w)"
    and "approvals c (del_world c (pending_key rid) w) = (approvals c w)(pending_key rid := None)"
  using run_Delete_ok [OF assms(1), of "pending_key rid"] assms(2) by simp_all


definition in_window :: "world \<Rightarrow> PendingRequest \<Rightarrow> bool" where
  "in_window w p \<longleftrightarrow> is_zero (pr_ApprovedAt p)
     \<or> time_sub (w_clock w (w_ticks w)) (pr_ApprovedAt p) \<le> approvalCredentialTTL"

lemma run_fetch_approved:
  assumes "healthy c w" "pending_at c w rid = Some p" "pr_Status p = ''approved''" "fetch_allowed c req p"
    "pr_CredentialData p = Some cred"
  shows "run_state (handleApprovalFetch c req rid) w =
    (let w1 = (if is_zero (pr_ApprovedAt p) then w else tick w) in
     if in_window w p then run_state (fetch_burn c rid p cred) w1
     else run_state (fetch_window_expired c rid p) w1)"
  using assms pending_atD(3) [OF assms(1,2)]
  by (auto simp: handleApprovalFetch_def run_getPending fetch_approved_def run_prims in_window_def Let_def)



text \<open>With storage faults: what a successful delete and an arbitrary put leave.\<close>

lemma delete_any:
  assumes "world_ok c w" "SanityCheck k" "run_state (st_Delete c k) w = (Inr (), w')"
  shows "world_ok c w' \<and> approvals c w' = (approvals c w)(k := None)"
  using assms(1,2) by (rule run_Delete) (use assms(3) in simp_all)

lemma put_any:
  assumes "world_ok c w" "run_state (st_Put c k d) w = (x, w')"
  shows "world_ok c w' \<and> (\<forall>k'. k' \<noteq> k \<longrightarrow> approvals c w' k' = approvals c w k')"
proof (cases "SanityCheck k")
  case True
  with assms(1) show ?thesis by (rule run_Put [where d = d]) (use assms in simp_all)
qed (use assms in \<open>auto simp: st_Put_insane\<close>)

lemma fetch_burn_deletes:
  assumes "world_ok c w" "key_part rid" "run_state (fetch_burn c rid p cred) w = (r, w')"
  shows "(\<exists>e. r = Inl e) \<or> approvals c w' (pending_key rid) = None"
proof -
  obtain x w1 where s: "run_state (storePendingRequest c (p\<lparr>pr_CredentialData := None\<rparr>)) w = (x, w1)"
    by fastforce
  have ok1: "world_ok c w1"
    using put_any [OF assms(1) s [unfolded storePendingRequest_def]] by simp
  obtain y w2 where d: "run_state (st_Delete c (pending_key rid)) w1 = (y, w2)" by fastforce
  show ?thesis
  proof (cases y)
    case (Inl e)
    with assms(3) s d show ?thesis by (auto simp: fetch_burn_def Let_def)
  next
    case (Inr u)
    with d ok1 assms(2) have a: "world_ok c w2 \<and> approvals c w2 = (approvals c w1)(pending_key rid := None)"
      by (intro delete_any) simp_all
    obtain h z w3 where h: "run_state (storeHistoryEntry c h) (tick w2) = (z, w3)"
      and w': "w' = w3"
      using assms(3) s d Inr by (auto simp: fetch_burn_def run_prims Let_def split: prod.splits)
    have "world_ok c (tick w2)" using a by (simp add: tick_def)
    from put_any [OF this h [unfolded storeHistoryEntry_def]] a w' show ?thesis by simp
  qed
qed

text \<open>
  C9. A credential leaves only with its record. Whatever storage faults occur, a fetch of an
  approved request returns an error, an error response without the credential, or else its
  record is no longer stored.
\<close>

theorem credential_leaves_once:
  assumes "approval_inv c w" "pending_at c w rid = Some p" "pr_Status p = ''approved''" "key_part rid"
    "run_state (handleApprovalFetch c req rid) w = (r, w')"
  shows "(\<exists>e. r = Inl e) \<or> (\<exists>text. r = error_resp text [GStr rid]) \<or> pending_at c w' rid = None"
proof -
  have ok: "world_ok c w" using assms(1) by (simp add: approval_inv_def doc_inv_def)
  consider e where "run_state (getPendingRequest c rid) w = (Inl e, pop_fault w)"
    | "run_state (getPendingRequest c rid) w = (Inr (Some p), pop_fault w)"
    using getPending_faulty [OF assms(1,2)] by blast
  then show ?thesis
  proof cases
    case 1
    with assms(5) show ?thesis by (auto simp: handleApprovalFetch_def)
  next
    case 2
    show ?thesis
    proof (cases "fetch_allowed c req p \<and> pr_CredentialData p \<noteq> None")
      case True
      then obtain cred where cred: "pr_CredentialData p = Some cred" by blast
      define v where "v = (if is_zero (pr_ApprovedAt p) then pop_fault w else tick (pop_fault w))"
      have okv: "world_ok c v" using ok by (simp add: v_def tick_def)
      have "run_state (fetch_burn c rid p cred) v = (r, w')
          \<or> run_state (fetch_window_expired c rid p) v = (r, w')"
        using 2 assms(3,5) True cred
        by (auto simp: handleApprovalFetch_def fetch_approved_def run_prims v_def split: if_splits)
      then show ?thesis
        using fetch_burn_deletes [OF okv assms(4), of p cred r w']
        by (auto simp: fetch_window_expired_def pending_at_def run_prims split: prod.splits)
    qed (use 2 assms(3,5) in \<open>auto simp: handleApprovalFetch_def fetch_approved_def split: if_splits\<close>)
  qed
qed

text \<open>
  C17. Closed window. More than 90 minutes after the approval the credential is not returned: the
  requester gets an error, the record is removed and the history says that it expired.
\<close>

theorem window_closed:
  assumes "healthy c w" "pending_at c w rid = Some p" "pr_Status p = ''approved''" "fetch_allowed c req p"
    "pr_CredentialData p = Some cred" "pr_ApprovedAt p \<noteq> 0"
    "w_clock w (w_ticks w) - pr_ApprovedAt p > 90 * 60 * 1000000000"
    "run_state (handleApprovalFetch c req rid) w = (r, w')"
  shows "r = error_resp ''credential for request %q has expired (90-minute retrieval window passed)''
      [GStr rid]
    \<and> pending_at c w' rid = None \<and> (\<exists>h. history_at c w' rid = Some h \<and> ah_Status h = ''expired'')"
proof -
  note pa = pending_atD [OF assms(1,2)]
  have late: "\<not> in_window w p"
    using assms(6,7) time_sub_greater [of approvalCredentialTTL "w_clock w (w_ticks w)" "pr_ApprovedAt p"]
    by (simp add: in_window_def is_zero_def approval_ttl_defs)
  have h1: "healthy c (tick w)" using assms(1) by simp
  note dl = run_delete [OF h1 pa(3)]
  let ?w2 = "tick (del_world c (pending_key rid) (tick w))"
  let ?h = "history_of p ''expired'' (w_clock w (Suc (w_ticks w))) (last_approver p)
    (entity_name c (last_approver p))"
  have h2: "healthy c ?w2" using dl(2) by simp
  note sh = run_storeHistory [OF h2 history_of_ok [OF pa(5)] history_of_id [OF pa(5)]]
  have "(r, w') = (error_resp ''credential for request %q has expired (90-minute retrieval window passed)''
      [GStr rid], put_world c (history_key rid) (DHistory (json_history ?h)) ?w2)"
    using run_fetch_approved [OF assms(1-5)] assms(6,8) late
    by (simp add: fetch_window_expired_def run_prims dl(1) sh(1) is_zero_def Let_def)
  then show ?thesis
    using sh(3) [of "''expired''"] dl(3)
    by (simp add: pending_at_def history_at_def json_history_def history_of_def)
qed

end
