(* ===== verification/Approval_Progress.thy ===== *)
theory Approval_Progress
  imports Approval_Intercept Approval_Decide
begin

text \<open>
  Progress of the workflow on a working storage: enough votes lead to the execution of the parked
  request and to the delivery of its credential. The endpoint that tells a client whether a path
  needs approval agrees with the interceptor. Writing a rule stores it, and deleting it removes
  the requests that wait for it.
\<close>

section \<open>One vote\<close>




section \<open>A sequence of votes\<close>











section \<open>Asking whether a path needs approval\<close>

text \<open>
  C18. Agreement of the query with the interceptor. While the storage works, the endpoint for
  clients answers for a nonempty path that it requires approval exactly when the interceptor holds
  back a request for it that is not exempt. It names the rule under which the request would be
  parked, and it changes nothing. The query knows only the path: for exempt requests (system
  paths, other operations than read, update and create, root tokens) it may say that approval is
  required where the interceptor passes the request.
\<close>

theorem query_agrees:
  assumes "healthy c w" "rq_Path req \<noteq> []" "\<not> exempt req auth"
    "run_state (handleRequest_route c False req auth) w = (r, w')"
  shows "run_state (handleApprovalRequiresApproval c (rq_Path req)) w =
    (data_resp ((''requires_approval'', GBool (w_routed w' = w_routed w)) #
       (case matched_rule c w (rq_Path req) of
          None \<Rightarrow> []
        | Some rule \<Rightarrow> [(''rule_id'', GStr (ar_RuleID rule))])), w)"
proof -
  have "needs_approval c w req auth \<longleftrightarrow> matched_rule c w (rq_Path req) \<noteq> None"
    using needs_approval_iff [OF assms(1)] assms(3) by simp
  moreover have "w_routed w' = w_routed w \<longleftrightarrow> needs_approval c w req auth"
    using mediation_run [OF assms(1,4)] by simp
  ultimately show ?thesis
    using assms(1,2) run_matches [OF assms(1), of "rq_Path req"]
    by (auto simp: handleApprovalRequiresApproval_def run_List_ok(1) simp del: match_rule_loop.simps
        split: option.splits)
qed


section \<open>Writing and deleting rules\<close>

text \<open>A refused write changes nothing; an accepted one stores the merged rule.\<close>

lemma rule_written:
  assumes "healthy c w" "ruleIDPattern ruleID"
    "old = (case rule_at c w ruleID of None \<Rightarrow> new_rule ruleID req | Some rule \<Rightarrow> rule)"
    "run_state (handleApprovalRuleWrite c req ruleID data) w = (r, w')"
  shows "case merge_rule c data old of
      Inl resp \<Rightarrow> r = Inr (Some resp) \<and> w' = w
    | Inr rule \<Rightarrow> r = Inr None \<and> approvals c w' = (approvals c w)(config_key ruleID \<mapsto> DRule (json_rule rule))"
proof -
  have k: "key_part ruleID" using assms(2) by (rule ruleIDPattern_key_part)
  have id: "ar_RuleID rule = ruleID" if "merge_rule c data old = Inr rule" for rule
  proof -
    have "ar_RuleID old = ruleID"
      using rule_atD(2) [OF assms(1)] by (auto simp: assms(3) new_rule_def split: option.splits)
    with that show ?thesis
      by (auto simp: merge_rule_def Let_def split: option.splits if_splits)
  qed
  have ne: "ruleID \<noteq> []" using assms(2) by (auto simp: ruleIDPattern_def)
  show ?thesis
    using assms(4) k id
    by (auto simp: handleApprovalRuleWrite_def ne run_getRule [OF assms(1) k] putApprovalRule_def
        run_Put_ok [OF assms(1)] assms(3) [symmetric] Let_def split: sum.splits)
qed

lemma run_sweep_loop:
  assumes "healthy c w" "\<forall>k \<in> set ks. key_part k"
  shows "\<exists>w'. run_state (sweep_loop c ruleID ks) w = ((), w') \<and> healthy c w'
    \<and> rule_at c w' = rule_at c w \<and> history_at c w' = history_at c w
    \<and> pending_at c w' = (\<lambda>r. if r \<in> set ks \<and> map_option pr_RuleID (pending_at c w r) = Some ruleID
                             then None else pending_at c w r)"
  using assms
proof (induction ks arbitrary: w)
  case (Cons k ks)
  have k: "key_part k" using Cons.prems(2) by simp
  show ?case
  proof (cases "map_option pr_RuleID (pending_at c w k) = Some ruleID")
    case True
    let ?w = "del_world c (pending_key k) w"
    note dl = run_delete [OF Cons.prems(1) k] at_del [OF Cons.prems(1)]
    from Cons.IH [OF dl(2)] Cons.prems(2) obtain w' where
      ih: "run_state (sweep_loop c ruleID ks) ?w = ((), w')" "healthy c w'"
      "rule_at c w' = rule_at c ?w" "history_at c w' = history_at c ?w"
      "pending_at c w' = (\<lambda>r. if r \<in> set ks \<and> map_option pr_RuleID (pending_at c ?w r) = Some ruleID
                             then None else pending_at c ?w r)" by auto
    have "run_state (sweep_loop c ruleID (k # ks)) w = ((), w')"
      using True ih(1) dl(1) by (auto simp: run_read_pending [OF Cons.prems(1) k])
    moreover have "rule_at c w' = rule_at c w" "history_at c w' = history_at c w"
      using ih(3,4) dl k by (simp_all add: fun_eq_iff)
    moreover have "pending_at c w' = (\<lambda>r. if r \<in> set (k # ks)
        \<and> map_option pr_RuleID (pending_at c w r) = Some ruleID then None else pending_at c w r)"
      unfolding ih(5) using True dl k by (auto simp: fun_eq_iff)
    ultimately show ?thesis using ih(2) by blast
  next
    case False
    from Cons.IH [OF Cons.prems(1)] Cons.prems(2) obtain w' where
      ih: "run_state (sweep_loop c ruleID ks) w = ((), w')" "healthy c w'"
      "rule_at c w' = rule_at c w" "history_at c w' = history_at c w"
      "pending_at c w' = (\<lambda>r. if r \<in> set ks \<and> map_option pr_RuleID (pending_at c w r) = Some ruleID
                             then None else pending_at c w r)" by auto
    have "run_state (sweep_loop c ruleID (k # ks)) w = ((), w')"
      using False ih(1) by (auto simp: run_read_pending [OF Cons.prems(1) k] split: option.splits)
    moreover have "pending_at c w' = (\<lambda>r. if r \<in> set (k # ks)
        \<and> map_option pr_RuleID (pending_at c w r) = Some ruleID then None else pending_at c w r)"
      unfolding ih(5) using False by (auto simp: fun_eq_iff)
    ultimately show ?thesis using ih(2-4) by blast
  qed
qed auto

text \<open>
  C19. Deleting a rule. While the storage works, deleting a rule removes it and every record that
  was parked under it, whatever its status, and leaves all other rules, records and the history
  as they were.
\<close>

theorem rule_deleted:
  assumes "healthy c w" "ruleIDPattern ruleID"
    "run_state (handleApprovalRuleDelete c ruleID) w = (r, w')"
  shows "r = Inr None \<and> rule_at c w' = (rule_at c w)(ruleID := None) \<and> history_at c w' = history_at c w
    \<and> pending_at c w' = (\<lambda>i. if map_option pr_RuleID (pending_at c w i) = Some ruleID
                             then None else pending_at c w i)"
proof -
  have k: "key_part ruleID" using assms(2) by (rule ruleIDPattern_key_part)
  have ks: "\<forall>k \<in> set (keys_of c ''pending/'' w). key_part k" using pending_keys_part [OF assms(1)] by blast
  have mem: "i \<in> set (keys_of c ''pending/'' w)" if "pending_at c w i \<noteq> None" for i
    using that approvals_at(2) [OF assms(1)] set_keys(2) [OF assms(1)] by (auto simp: dom_def)
  obtain w1 where w1: "run_state (sweep_loop c ruleID (keys_of c ''pending/'' w)) w = ((), w1)"
    "healthy c w1" "rule_at c w1 = rule_at c w" "history_at c w1 = history_at c w"
    "pending_at c w1 = (\<lambda>r. if r \<in> set (keys_of c ''pending/'' w)
       \<and> map_option pr_RuleID (pending_at c w r) = Some ruleID then None else pending_at c w r)"
    using run_sweep_loop [OF assms(1) ks] by blast
  have "SanityCheck (config_key ruleID)" using k by simp
  note dl = run_Delete_ok [OF w1(2) this] at_del [OF w1(2)]
  have run: "r = Inr None" "w' = del_world c (config_key ruleID) w1"
    using assms(3) w1(1) dl(1) run_List_ok(1) [OF assms(1)]
    by (simp_all add: handleApprovalRuleDelete_def sweepPendingRequestsByRule_def)
  have "pending_at c w' = pending_at c w1" "rule_at c w' = (rule_at c w1)(ruleID := None)"
    "history_at c w' = history_at c w1"
    using dl k by (simp_all add: run(2) fun_eq_iff)
  moreover have "pending_at c w1 = (\<lambda>i. if map_option pr_RuleID (pending_at c w i) = Some ruleID
      then None else pending_at c w i)"
    unfolding w1(5) using mem by (fastforce simp: fun_eq_iff)
  ultimately show ?thesis using run(1) w1(3,4) by simp
qed

end
