(* ===== verification/Approval_Demo.thy ===== *)
theory Approval_Demo
  imports Approval_Progress
begin

text \<open>
  A concrete deployment: one rule over a database mount that two approvers guard, and one
  request parked under it. Its worlds satisfy the invariant, so the theorems of the components
  apply to it; the theorems at the end do that.
\<close>

definition demo_core :: "(nat \<Rightarrow> Request \<Rightarrow> err + Response option) \<Rightarrow> core" where
  "demo_core backend =
     \<lparr>c_systemBarrierView = NewBarrierView ''sys/'', c_identityStore = None,
      c_tokenLookup = (\<lambda>t. Inr (Some (if t = ''r'' then [''root''] else [''default'']))),
      c_route = backend,
      c_redirectAddr = [], c_urlRestOK = (\<lambda>_. True)\<rparr>"

definition demo_up :: "nat \<Rightarrow> Request \<Rightarrow> err + Response option" where
  "demo_up n req = Inr (Some (dataResponse [(''password'', GStr ''s3cr3t'')]))"

definition demo_down :: "nat \<Rightarrow> Request \<Rightarrow> err + Response option" where
  "demo_down n req = Inl (ErrBackend ''down'')"

definition demo_uuid :: string where
  "demo_uuid = ''00000000-0000-4000-8000-000000000001''"

definition demo_uuid2 :: string where
  "demo_uuid2 = ''00000000-0000-4000-8000-000000000002''"

definition demo_rule :: ApprovalRule where
  "demo_rule =
     \<lparr>ar_RuleID = ''db'', ar_Description = [], ar_TargetMountPath = ''database/creds/*'',
      ar_AuthorizedApprovers = [''alice'', ''bob''], ar_ApprovalsRequired = 2,
      ar_SlackWebhookURL = [], ar_CreatedByEntityID = [], ar_AllowSelfApproval = False\<rparr>"

definition demo_request :: "string \<Rightarrow> Request" where
  "demo_request entity =
     \<lparr>rq_ID = [], rq_Operation = ReadOperation, rq_Path = ''database/creds/app'', rq_Data = [],
      rq_Headers = [(''X-Vault-Token'', [''t''])], rq_ClientToken = ''t'', rq_DisplayName = ''Eve'',
      rq_MountPoint = ''database/'', rq_WrapInfo = None, rq_EntityID = entity\<rparr>"

definition demo_pending :: PendingRequest where
  "demo_pending = json_pending (new_pending demo_uuid demo_rule (demo_request ''eve'') 1000)"

text \<open>A world with given documents and a clock that stands still.\<close>

definition demo_world :: "time \<Rightarrow> (string \<times> doc) list \<Rightarrow> world" where
  "demo_world t docs =
     \<lparr>w_store = (NewInmem 0)\<lparr>root := map (map_prod (append ''sys/approvals/'') id) docs\<rparr>,
      w_faults = [], w_clock = (\<lambda>_. t), w_ticks = 0, w_uuids = (\<lambda>_. Some demo_uuid2), w_draws = 0,
      w_routed = [], w_slack = []\<rparr>"

lemma demo_world_simps [simp]:
  "w_faults (demo_world t docs) = []" "w_clock (demo_world t docs) = (\<lambda>_. t)"
  "w_ticks (demo_world t docs) = 0" "w_uuids (demo_world t docs) = (\<lambda>_. Some demo_uuid2)"
  "w_draws (demo_world t docs) = 0" "w_routed (demo_world t docs) = []"
  "w_slack (demo_world t docs) = []"
  by (simp_all add: demo_world_def)

lemma map_of_prefixed: "map_of (map (map_prod (append p) id) xs) (p @ k) = map_of xs k"
  by (induction xs) auto

lemma demo_prefix: "sv_prefix (bv_storage (approvalStorage (demo_core b))) = ''sys/approvals/''"
  by (simp add: demo_core_def approvalStorage_def approvalStoragePrefix_def NewBarrierView_def
      bv_SubView_def sv_SubView_def ExpandKey_def)

lemma demo_approvals: "approvals (demo_core b) (demo_world t docs) = map_of docs"
  by (rule ext)
     (simp add: approvals_def view_abs_def demo_prefix demo_world_def map_of_prefixed del: append_Cons)

lemma demo_uuid_ok: "uuidPattern demo_uuid" "uuidPattern demo_uuid2"
  unfolding demo_uuid_def demo_uuid2_def by code_simp+

lemma demo_healthy:
  assumes "olist_ok (map (map_prod (append ''sys/approvals/'') id) docs)"
    "list_all (\<lambda>(k, d). doc_ok k d) docs"
  shows "healthy (demo_core b) (demo_world t docs)"
proof -
  have "world_ok (demo_core b) (demo_world t docs)"
    using assms(1)
    by (simp add: world_ok_def view_ok_def inmem_ok_def demo_world_def NewInmem_def demo_core_def
        approvalStorage_def NewBarrierView_def bv_SubView_def)
  then show ?thesis
    using assms(2) demo_uuid_ok
    by (auto simp: healthy_def approval_inv_def doc_inv_def demo_approvals list_all_iff
        dest!: map_of_SomeD)
qed

lemma demo_rule_ok: "rule_ok demo_rule"
  unfolding demo_rule_def by code_simp

lemma demo_rule_doc: "doc_ok (config_key ''db'') (DRule demo_rule)"
  using demo_rule_ok by (simp add: demo_rule_def)

lemma demo_pending_ok: "stored_ok demo_uuid (new_pending demo_uuid demo_rule (demo_request ''eve'') 1000)"
  by (rule new_pending_ok [OF demo_uuid_ok(1) demo_rule_ok])

lemma demo_pending_doc: "doc_ok (pending_key demo_uuid) (DPending demo_pending)"
proof -
  have "pr_RequestID (new_pending demo_uuid demo_rule (demo_request ''eve'') 1000) = demo_uuid"
    by (simp add: new_pending_def)
  then show ?thesis
    using doc_ok_pendingI [of "new_pending demo_uuid demo_rule (demo_request ''eve'') 1000"]
      demo_pending_ok unfolding demo_pending_def stored_ok_def by metis
qed

definition demo_w1 :: world where
  "demo_w1 = demo_world 2000 [(config_key ''db'', DRule demo_rule)]"

definition demo_w2 :: "time \<Rightarrow> PendingRequest \<Rightarrow> world" where
  "demo_w2 t p = demo_world t [(config_key ''db'', DRule demo_rule), (pending_key demo_uuid, DPending p)]"

lemma demo_order: "''sys/approvals/'' @ config_key ''db'' < ''sys/approvals/'' @ pending_key demo_uuid"
  unfolding config_key_def pending_key_def demo_uuid_def by code_simp

lemma demo_w1_healthy: "healthy (demo_core b) demo_w1"
  unfolding demo_w1_def using demo_rule_doc by (intro demo_healthy) simp_all

lemma demo_w2_healthy:
  "doc_ok (pending_key demo_uuid) (DPending p) \<Longrightarrow> healthy (demo_core b) (demo_w2 t p)"
  unfolding demo_w2_def using demo_rule_doc demo_order
  by (intro demo_healthy) (simp_all del: append_Cons doc_ok.simps)

lemma demo_at:
  "rule_at (demo_core b) demo_w1 ''db'' = Some demo_rule"
  "rule_at (demo_core b) (demo_w2 t p) ''db'' = Some demo_rule"
  "pending_at (demo_core b) (demo_w2 t p) demo_uuid = Some p"
  "pending_at (demo_core b) demo_w1 r = None"
  by (simp_all add: rule_at_def pending_at_def demo_w1_def demo_w2_def demo_approvals)

lemma demo_matches: "rule_covers demo_rule ''database/creds/app''"
  unfolding rule_covers_code demo_rule_def by code_simp

lemma demo_exempt: "\<not> exempt (demo_request e) (Some [''default''])"
  unfolding exempt_code demo_request_def by simp code_simp

lemma demo_needs:
  "needs_approval (demo_core b) demo_w1 (demo_request e) (Some [''default''])"
  "needs_approval (demo_core b) (demo_w2 t p) (demo_request e) (Some [''default''])"
  using demo_at(1) [of b] demo_at(2) [of b t p] demo_matches demo_exempt [of e]
  unfolding needs_approval_def by (auto simp: demo_request_def)

section \<open>The theorems on the interceptor, applied\<close>

theorem complete_mediation_witness:
  "needs_approval (demo_core demo_up) demo_w1 (demo_request ''eve'') (Some [''default''])
   \<and> w_routed (snd (run_state (handleRequest_route (demo_core demo_up) False (demo_request ''eve'')
       (Some [''default''])) demo_w1)) = []"
  using complete_mediation [OF demo_w1_healthy prod.collapse [symmetric],
      of demo_up "demo_request ''eve''" "Some [''default'']"] demo_needs(1) [of demo_up "''eve''"]
  by (simp add: demo_w1_def)

lemma demo_matched: "\<exists>rule. matched_rule (demo_core demo_up) demo_w1 (rq_Path (demo_request e)) = Some rule"
  using demo_needs(1) [of demo_up e] needs_approval_iff [OF demo_w1_healthy] by blast

theorem request_parked_witness:
  "\<exists>rule p. parked_record demo_uuid2 rule (demo_request ''eve'') 2000 p
    \<and> approvals (demo_core demo_up) (snd (run_state (handleRequest_route (demo_core demo_up) False (demo_request ''eve'')
       (Some [''default''])) demo_w1)) =
     (approvals (demo_core demo_up) demo_w1)(pending_key demo_uuid2 \<mapsto> DPending p)"
proof -
  have u: "w_uuids demo_w1 (w_draws demo_w1) = Some demo_uuid2" "w_clock demo_w1 (w_ticks demo_w1) = 2000"
    by (simp_all add: demo_w1_def)
  show ?thesis
    using request_parked [where c = "demo_core demo_up", OF demo_w1_healthy demo_needs(1) u(1) _ prod.collapse [symmetric],
        of "''eve''"] u(2) demo_at(4) [of demo_up] by auto
qed

lemma demo_own: "own_record (demo_request ''eve'') demo_pending"
  by (simp add: own_record_def demo_pending_def json_pending_def new_pending_def demo_request_def
      ascii_valid_utf8)

lemma demo_pending_fields:
  "pr_Status demo_pending = ''pending''" "pr_ExpiresAt demo_pending = 3600000001000"
  "pr_RuleID demo_pending = ''db''" "pr_Approvals demo_pending = []"
  "pr_CredentialData demo_pending = None" "pr_RequesterEntityID demo_pending = ''eve''"
  by (simp_all add: demo_pending_def json_pending_def new_pending_def demo_request_def demo_rule_def
      ascii_valid_utf8 json_cred_def approval_ttl_defs)

text \<open>The same world with a clock that advances a quarter of an hour with each reading.\<close>

definition demo_late :: world where
  "demo_late = (demo_w2 2000 demo_pending)\<lparr>w_clock := (\<lambda>n. 2000 + 900 * 1000000000 * int n)\<rparr>"

lemma demo_late_same:
  "healthy (demo_core b) demo_late" "pending_at (demo_core b) demo_late = pending_at (demo_core b) (demo_w2 2000 demo_pending)"
  "rule_at (demo_core b) demo_late = rule_at (demo_core b) (demo_w2 2000 demo_pending)"
proof -
  have "healthy c (w\<lparr>w_clock := f\<rparr>) = healthy c w" for c w f
    by (simp add: healthy_def approval_inv_def doc_inv_def world_ok_def approvals_def)
  then show "healthy (demo_core b) demo_late" using demo_w2_healthy [OF demo_pending_doc] by (simp add: demo_late_def)
qed (simp_all add: demo_late_def pending_at_def rule_at_def approvals_def fun_eq_iff)

lemma demo_late_run:
  assumes "run_state (handleRequest_route (demo_core b) False (demo_request ''eve'') (Some [''default''])) demo_late = (r, w')"
  shows "w_ticks w' = 1"
proof -
  let ?c = "demo_core b" and ?req = "demo_request ''eve''"
  have set: "set (keys_of ?c ''pending/'' demo_late) = {k. pending_at ?c demo_late k \<noteq> None}"
    using approvals_at(2) [OF demo_late_same(1)] by (auto simp: set_keys(2) [OF demo_late_same(1)] dom_def)
  have at: "pending_at ?c demo_late k = (if k = demo_uuid then Some demo_pending else None)" for k
    by (simp add: demo_late_same(2) pending_at_def demo_w2_def demo_approvals)
  with set have "set (keys_of ?c ''pending/'' demo_late) = {demo_uuid}" by auto
  then obtain ks where keys: "keys_of ?c ''pending/'' demo_late = demo_uuid # ks"
    by (cases "keys_of ?c ''pending/'' demo_late") auto
  have "w_clock demo_late (w_ticks demo_late) = 2000" by (simp add: demo_late_def demo_w2_def)
  then have "\<exists>resp. run_state (checkActiveApprovalRequest ?c ?req) demo_late = (Some resp, tick demo_late)"
    using keys at [of demo_uuid] demo_own demo_pending_fields(1,2)
    by (simp add: checkActiveApprovalRequest_def run_List_ok(1) [OF demo_late_same(1)] own_record_def
        run_read_pending [OF demo_late_same(1) uuidPattern_key_part [OF demo_uuid_ok(1)]] run_prims)
  then have "snd (run_state (intercept ?c ?req rule) demo_late) = tick demo_late" for rule
    by (auto simp: intercept_def demo_request_def)
  moreover have "needs_approval ?c demo_late ?req (Some [''default''])"
    using demo_needs(2) [of b 2000 demo_pending "''eve''"] by (simp add: needs_approval_def demo_late_same(3))
  ultimately have "w' = tick demo_late"
    using assms by (simp add: run_handleRequest [OF demo_late_same(1)] case_prod_unfold)
  then show ?thesis by (simp add: demo_late_def demo_w2_def)
qed

theorem duplicate_refused_witness:
  "\<exists>resp. fst (run_state (handleRequest_route (demo_core demo_up) False (demo_request ''eve'')
     (Some [''default''])) demo_late) = Inr (Some resp) \<and> resp_code resp = Some 400"
proof -
  have at: "pending_at (demo_core demo_up) demo_late demo_uuid = Some demo_pending"
    by (simp add: demo_late_same(2) demo_at)
  have needs: "needs_approval (demo_core demo_up) demo_late (demo_request ''eve'') (Some [''default''])"
    using demo_needs(2) [of demo_up 2000 demo_pending "''eve''"] by (simp add: needs_approval_def demo_late_same(3))
  obtain r w' where run: "run_state (handleRequest_route (demo_core demo_up) False (demo_request ''eve'')
      (Some [''default''])) demo_late = (r, w')" by fastforce
  have clock: "\<forall>t. w_ticks demo_late \<le> t \<and> t < w_ticks w' \<longrightarrow> w_clock demo_late t < pr_ExpiresAt demo_pending"
    using demo_late_run [OF run] by (simp add: demo_late_def demo_pending_fields)
  have "rq_EntityID (demo_request ''eve'') \<noteq> []" by (simp add: demo_request_def)
  from duplicate_refused [OF demo_late_same(1) needs this at demo_own demo_pending_fields(1) run clock]
  show ?thesis using run by simp
qed

section \<open>The theorems on decisions, applied\<close>

text \<open>The record with the vote of alice, and the record approved by alice and bob.\<close>

definition demo_voted :: PendingRequest where
  "demo_voted = with_vote (demo_request ''alice'') 1500 demo_pending"

definition demo_approved :: PendingRequest where
  "demo_approved = json_pending ((with_vote (demo_request ''bob'') 1600 demo_voted)
     \<lparr>pr_Status := ''approved'', pr_ApprovedAt := 1700,
      pr_CredentialData := Some [(''password'', GStr ''s3cr3t'')]\<rparr>)"

lemma demo_req_ok: "req_ok (demo_request ''alice'')" "req_ok (demo_request ''bob'')"
  by (simp_all add: req_ok_def demo_request_def ascii_valid_utf8)

lemma demo_not_root: "\<not> callerIsRoot (demo_core b) (demo_request e)"
  by (simp add: callerIsRoot_def demo_core_def demo_request_def)

lemma demo_entity [simp]: "rq_EntityID (demo_request e) = e"
  by (simp add: demo_request_def)

lemma demo_authorized:
  "approvalEntityIsAuthorized ''alice'' (ar_AuthorizedApprovers demo_rule)"
  "approvalEntityIsAuthorized ''bob'' (ar_AuthorizedApprovers demo_rule)"
  by (simp_all add: approvalEntityIsAuthorized_def demo_rule_def)

lemma demo_may:
  "may_approve (demo_core b) (demo_request ''alice'') demo_pending demo_rule"
  "may_approve (demo_core b) (demo_request ''bob'') demo_voted demo_rule"
  using demo_authorized
  by (simp_all add: may_approve_def demo_pending_fields demo_voted_def with_vote_def voters_def)

lemma demo_pending_stored: "stored_ok demo_uuid demo_pending" "json_pending demo_pending = demo_pending"
  using demo_pending_doc by (simp_all add: stored_ok_def demo_pending_fields)

lemma demo_voted_stored: "stored_ok demo_uuid demo_voted" "json_pending demo_voted = demo_voted"
  using stored_ok_with_vote [OF demo_pending_stored(1) _ demo_req_ok(1)]
    json_with_vote [OF demo_pending_stored(2) demo_req_ok(1)] demo_may(1) approve_refusal_None
  unfolding demo_voted_def by blast+

lemma stored_doc:
  "stored_ok rid p \<Longrightarrow> json_pending p = p \<Longrightarrow> doc_ok (pending_key rid) (DPending p)"
  by (simp add: stored_ok_def)

lemma stored_json_doc: "stored_ok rid p \<Longrightarrow> doc_ok (pending_key rid) (DPending (json_pending p))"
  unfolding stored_ok_def using doc_ok_pendingI by blast

lemma demo_approved_doc: "doc_ok (pending_key demo_uuid) (DPending demo_approved)"
proof -
  have "stored_ok demo_uuid (with_vote (demo_request ''bob'') 1600 demo_voted)"
    using stored_ok_with_vote [OF demo_voted_stored(1) _ demo_req_ok(2)] demo_may(2)
      approve_refusal_None by blast
  then have "stored_ok demo_uuid ((with_vote (demo_request ''bob'') 1600 demo_voted)
     \<lparr>pr_Status := ''approved'', pr_ApprovedAt := 1700,
      pr_CredentialData := Some [(''password'', GStr ''s3cr3t'')]\<rparr>)"
    by (auto simp: stored_ok_def pending_ok_def with_vote_def)
  then show ?thesis
    unfolding demo_approved_def by (rule stored_json_doc)
qed

lemma demo_credential: "json_rt_map [(''password'', GStr ''s3cr3t'')] = [(''password'', GStr ''s3cr3t'')]"
  by (simp add: json_rt_map_def ascii_valid_utf8)

lemma demo_approved_fields:
  "pr_Status demo_approved = ''approved''" "pr_ApprovedAt demo_approved = 1700"
  "pr_CredentialData demo_approved = Some [(''password'', GStr ''s3cr3t'')]"
  "pr_RequesterEntityID demo_approved = ''eve''"
  by (simp_all add: demo_approved_def json_pending_def json_cred_def with_vote_def demo_voted_def
      ascii_valid_utf8 demo_pending_fields demo_credential)

lemma demo_voted_fields:
  "pr_Status demo_voted = ''pending''" "pr_ExpiresAt demo_voted = 3600000001000"
  "pr_RuleID demo_voted = ''db''" "length (pr_Approvals demo_voted) = 1"
  "pr_CredentialData demo_voted = None" "pr_RequesterEntityID demo_voted = ''eve''"
  by (simp_all add: demo_voted_def with_vote_def demo_pending_fields)

lemma demo_healthy2:
  "healthy (demo_core b) (demo_w2 t demo_pending)" "healthy (demo_core b) (demo_w2 t demo_voted)"
  "healthy (demo_core b) (demo_w2 t demo_approved)"
  using demo_w2_healthy demo_pending_doc demo_approved_doc stored_doc demo_voted_stored by blast+

lemma demo_decidable:
  "decidable (demo_core b) (demo_w2 2000 demo_pending) demo_uuid demo_pending demo_rule"
  "decidable (demo_core b) (demo_w2 2000 demo_voted) demo_uuid demo_voted demo_rule"
  using demo_healthy2
  by (simp_all add: decidable_def demo_at demo_pending_fields demo_voted_fields)
     (simp_all add: demo_w2_def)

lemma demo_rule_fields: "ar_ApprovalsRequired demo_rule = 2" "\<not> ar_AllowSelfApproval demo_rule"
  by (simp_all add: demo_rule_def)

lemma demo_w2_world [simp]:
  "w_routed (demo_w2 t p) = []" "w_draws (demo_w2 t p) = 0" "w_ticks (demo_w2 t p) = 0"
  "w_uuids (demo_w2 t p) = (\<lambda>_. Some demo_uuid2)" "w_clock (demo_w2 t p) = (\<lambda>_. t)"
  by (simp_all add: demo_w2_def)

theorem self_approval_refused_witness:
  "w_routed (snd (run_state (handleApprovalApprove (demo_core demo_up) (demo_request ''eve'') demo_uuid)
     (demo_w2 2000 demo_pending))) = []"
  using self_approval_refused [where c = "demo_core demo_up" and req = "demo_request ''eve''",
      OF demo_decidable(1) demo_not_root demo_rule_fields(2) _ prod.collapse [symmetric]] demo_pending_fields(6) by simp

theorem vote_recorded_witness:
  "fst (run_state (handleApprovalApprove (demo_core demo_up) (demo_request ''alice'') demo_uuid)
       (demo_w2 2000 demo_pending)) =
     approve_response demo_uuid (with_vote (demo_request ''alice'') 2000 demo_pending) demo_rule False"
proof -
  have "int (length (pr_Approvals demo_pending)) + 1 < ar_ApprovalsRequired demo_rule"
    by (simp add: demo_rule_fields demo_pending_fields)
  from vote_recorded [OF demo_decidable(1) demo_req_ok(1) demo_may(1) this refl prod.collapse [symmetric]]
  show ?thesis by simp
qed

lemma demo_inv: "approval_inv (demo_core b) (demo_w2 t demo_approved)"
  "approval_inv (demo_core b) (demo_w2 t demo_voted)"
  using demo_healthy2 by (simp_all add: healthy_def)

lemma demo_quorum: "ar_ApprovalsRequired demo_rule \<le> int (length (pr_Approvals demo_voted)) + 1"
  by (simp add: demo_rule_fields demo_voted_fields)

lemma demo_draw: "w_uuids (demo_w2 t p) (w_draws (demo_w2 t p)) = Some demo_uuid2"
  by simp

theorem quorum_executes_witness:
  "\<exists>v. pending_at (demo_core demo_up) (snd (run_state (handleApprovalApprove (demo_core demo_up)
       (demo_request ''bob'') demo_uuid) (demo_w2 2000 demo_voted))) demo_uuid = Some v
     \<and> pr_CredentialData v = Some [(''password'', GStr ''s3cr3t'')]"
proof -
  have "c_route (demo_core demo_up) (length (w_routed (demo_w2 2000 demo_voted)))
      (reconstruct_request demo_uuid2 demo_voted) =
    Inr (Some (dataResponse [(''password'', GStr ''s3cr3t'')]))"
    by (simp add: demo_core_def demo_up_def)
  from quorum_executes [OF demo_decidable(2) demo_req_ok(2) demo_may(2) demo_quorum demo_voted_fields(5)
      demo_draw refl this prod.collapse [symmetric]]
  show ?thesis
    by (auto simp: pending_at_def response_data_def dataResponse_def demo_credential)
qed

theorem failed_execution_rolls_back_witness:
  "approvals (demo_core demo_down) (snd (run_state (handleApprovalApprove (demo_core demo_down)
     (demo_request ''bob'') demo_uuid) (demo_w2 2000 demo_voted))) =
   approvals (demo_core demo_down) (demo_w2 2000 demo_voted)"
proof -
  have "c_route (demo_core demo_down) (length (w_routed (demo_w2 2000 demo_voted)))
      (reconstruct_request demo_uuid2 demo_voted) = Inl (ErrBackend ''down'')"
    by (simp add: demo_core_def demo_down_def)
  from failed_execution_rolls_back [OF demo_decidable(2) demo_req_ok(2) demo_may(2) demo_quorum
      demo_voted_fields(5) demo_draw this prod.collapse [symmetric]]
  show ?thesis by simp
qed

theorem execution_needs_quorum_witness:
  "may_approve (demo_core demo_up) (demo_request ''bob'') demo_voted demo_rule
   \<and> w_routed (snd (run_state (handleApprovalApprove (demo_core demo_up) (demo_request ''bob'') demo_uuid)
       (demo_w2 2000 demo_voted))) \<noteq> w_routed (demo_w2 2000 demo_voted)"
proof -
  have up: "c_route (demo_core demo_up) (length (w_routed (demo_w2 2000 demo_voted)))
      (reconstruct_request demo_uuid2 demo_voted) =
    Inr (Some (dataResponse [(''password'', GStr ''s3cr3t'')]))"
    by (simp add: demo_core_def demo_up_def)
  have ran: "w_routed (snd (run_state (handleApprovalApprove (demo_core demo_up) (demo_request ''bob'')
      demo_uuid) (demo_w2 2000 demo_voted))) \<noteq> w_routed (demo_w2 2000 demo_voted)"
    using quorum_executes_run [OF demo_decidable(2) demo_req_ok(2) demo_may(2) demo_quorum
        demo_voted_fields(5) demo_draw up refl prod.collapse [symmetric]] by simp
  from execution_needs_quorum [OF demo_inv(2) prod.collapse [symmetric] ran]
  show ?thesis using ran by (simp add: demo_at demo_voted_fields)
qed

theorem deny_decides_witness:
  "deny_allowed (demo_core demo_up) (demo_request ''alice'') demo_pending demo_rule
   \<and> fst (run_state (handleApprovalDeny (demo_core demo_up) (demo_request ''alice'') demo_uuid)
       (demo_w2 2000 demo_pending)) = data_resp [(''status'', GStr ''denied''), (''request_id'', GStr demo_uuid)]"
  using deny_decides [where c = "demo_core demo_up" and req = "demo_request ''alice''",
      OF demo_decidable(1) refl refl prod.collapse [symmetric], folded deny_allowed_iff] demo_authorized(1)
  by (simp add: deny_allowed_def)

theorem fetch_protected_witness:
  "\<exists>e. fst (run_state (handleApprovalFetch (demo_core demo_up) (demo_request ''bob'') demo_uuid)
     (demo_w2 2000 demo_approved)) = Inl e"
  using fetch_protected [where c = "demo_core demo_up" and req = "demo_request ''bob''",
      OF demo_inv(1) [of _ 2000] demo_at(3) _ prod.collapse [symmetric]] demo_approved_fields(4)
  by (simp add: fetch_allowed_def)

lemma demo_fetch_allowed: "fetch_allowed (demo_core b) (demo_request ''eve'') demo_approved"
  by (simp add: fetch_allowed_def demo_approved_fields)


theorem window_closed_witness:
  "pending_at (demo_core demo_up) (snd (run_state (handleApprovalFetch (demo_core demo_up)
     (demo_request ''eve'') demo_uuid) (demo_w2 6000000000000 demo_approved))) demo_uuid = None"
  using window_closed [where c = "demo_core demo_up", OF demo_healthy2(3) [of _ 6000000000000] demo_at(3)
      demo_approved_fields(1) demo_fetch_allowed demo_approved_fields(3) _ _ prod.collapse [symmetric]]
  by (simp add: demo_approved_fields)

lemma demo_key_part: "key_part demo_uuid"
  using demo_uuid_ok(1) by (rule uuidPattern_key_part)

theorem credential_leaves_once_witness:
  "let (r, w') = run_state (handleApprovalFetch (demo_core demo_up) (demo_request ''eve'') demo_uuid)
     (demo_w2 2000 demo_approved) in
   (\<exists>e. r = Inl e) \<or> (\<exists>text. r = error_resp text [GStr demo_uuid])
   \<or> pending_at (demo_core demo_up) w' demo_uuid = None"
  using credential_leaves_once [where c = "demo_core demo_up" and req = "demo_request ''eve''",
      OF demo_inv(1) [of _ 2000] demo_at(3) demo_approved_fields(1) demo_key_part prod.collapse [symmetric]]
  by (simp add: case_prod_unfold)

section \<open>The theorems on progress and rules, applied\<close>



theorem query_agrees_witness:
  "\<exists>rule :: ApprovalRule. fst (run_state (handleApprovalRequiresApproval (demo_core demo_up)
     (rq_Path (demo_request ''eve''))) demo_w1) =
   data_resp [(''requires_approval'', GBool True), (''rule_id'', GStr (ar_RuleID rule))]"
proof -
  have ex: "\<not> exempt (demo_request ''eve'') (Some [''default''])" "rq_Path (demo_request ''eve'') \<noteq> []"
    using demo_needs(1) by (auto simp: needs_approval_def demo_request_def)
  obtain rule where m: "matched_rule (demo_core demo_up) demo_w1 (rq_Path (demo_request ''eve'')) = Some rule"
    using demo_matched by blast
  show ?thesis
    using query_agrees [where c = "demo_core demo_up", OF demo_w1_healthy ex(2,1) prod.collapse [symmetric]]
      mediation_run [where c = "demo_core demo_up" and req = "demo_request ''eve''" and auth = "Some [''default'']",
        OF demo_w1_healthy prod.collapse [symmetric]]
      demo_needs(1) m by auto
qed

theorem rule_deleted_witness:
  "pending_at (demo_core demo_up) (snd (run_state (handleApprovalRuleDelete (demo_core demo_up) ''db'')
     (demo_w2 2000 demo_pending))) demo_uuid = None"
proof -
  have "ruleIDPattern ''db''" by code_simp
  from rule_deleted [OF demo_healthy2(1) [of _ 2000] this prod.collapse [symmetric]]
  show ?thesis by (simp add: demo_at demo_pending_fields)
qed

section \<open>Calls through the path table\<close>

definition demo_fields :: approval_fields where
  "demo_fields =
     \<lparr>af_invalid = None,
      af_rule = \<lparr>fd_description = None, fd_target_mount_path = None, fd_authorized_approvers = None,
        fd_approvals_required = None, fd_slack_webhook_url = None, fd_allow_self_approval = None\<rparr>,
      af_path = []\<rparr>"

definition demo_voter :: "string \<Rightarrow> Request" where
  "demo_voter e = (demo_request e)\<lparr>rq_Operation := UpdateOperation\<rparr>"

definition demo_approve_path :: string where
  "demo_approve_path = ''approvals/approve/'' @ demo_uuid"

lemma demo_approve_call:
  "HandleRequest (demo_core b) (demo_voter e) demo_fields demo_approve_path =
   handleApprovalApprove (demo_core b) (demo_voter e) demo_uuid \<bind>
     (\<lambda>resp. ret (param_warnings (demo_voter e) (RApprove demo_uuid) resp))"
  using first_match_complete [of "RApprove demo_uuid"] demo_uuid_ok
  by (simp add: HandleRequest_def Callbacks_def demo_voter_def demo_approve_path_def demo_fields_def)

lemma demo_voter_ok: "req_ok (demo_voter ''alice'')" "req_ok (demo_voter ''bob'')"
  using demo_req_ok by (simp_all add: req_ok_def demo_voter_def)

lemma demo_voter_may:
  "may_approve (demo_core b) (demo_voter ''alice'') demo_pending demo_rule"
  "may_approve (demo_core b) (demo_voter ''bob'') demo_voted demo_rule"
  using demo_authorized
  by (simp_all add: may_approve_def demo_voter_def demo_pending_fields demo_voted_def with_vote_def
      voters_def)

lemma demo_approve_runs:
  "w_routed (snd (run_state (HandleRequest (demo_core demo_up) (demo_voter ''bob'') demo_fields
     demo_approve_path) (demo_w2 2000 demo_voted))) = [reconstruct_request demo_uuid2 demo_voted]"
proof -
  have "c_route (demo_core demo_up) (length (w_routed (demo_w2 2000 demo_voted)))
      (reconstruct_request demo_uuid2 demo_voted) =
    Inr (Some (dataResponse [(''password'', GStr ''s3cr3t'')]))"
    by (simp add: demo_core_def demo_up_def)
  from quorum_executes_run [OF demo_decidable(2) demo_voter_ok(2) demo_voter_may(2) demo_quorum
      demo_voted_fields(5) demo_draw this refl prod.collapse [symmetric]]
  show ?thesis by (simp add: demo_approve_call case_prod_unfold)
qed

lemma demo_vote_stored:
  "pending_at (demo_core b) (snd (run_state (HandleRequest (demo_core b) (demo_voter ''alice'')
     demo_fields demo_approve_path) (demo_w2 2000 demo_pending))) demo_uuid =
   Some (with_vote (demo_voter ''alice'') 2000 demo_pending)"
proof -
  have "int (length (pr_Approvals demo_pending)) + 1 < ar_ApprovalsRequired demo_rule"
    by (simp add: demo_rule_fields demo_pending_fields)
  from vote_recorded_run [OF demo_decidable(1) demo_voter_ok(1) demo_voter_may(1) this refl
      prod.collapse [symmetric]]
  show ?thesis by (simp add: demo_approve_call pending_at_def case_prod_unfold)
qed

lemma demo_vote_unrouted:
  "w_routed (snd (run_state (HandleRequest (demo_core b) (demo_voter ''alice'') demo_fields
     demo_approve_path) (demo_w2 2000 demo_pending))) = []"
proof -
  have "int (length (pr_Approvals demo_pending)) + 1 < ar_ApprovalsRequired demo_rule"
    by (simp add: demo_rule_fields demo_pending_fields)
  from vote_recorded_run [OF demo_decidable(1) demo_voter_ok(1) demo_voter_may(1) this refl
      prod.collapse [symmetric]]
  show ?thesis by (simp add: demo_approve_call case_prod_unfold)
qed

end
