(* ===== verification/Policy.thy ===== *)
theory Policy
  imports Logical "HOL-Library.Word"
begin

text \<open>
  Policies of \<open>vault/policy.go\<close>: capabilities as bits of a 32-bit word, the permissions of a path,
  and the translation of a decoded policy document into path rules. The HCL parser, the
  templating of identity values and the parsing of durations are parameters (\<open>policy_env\<close>).
\<close>

unbundle bit_operations_syntax

section \<open>Capabilities\<close>

definition DenyCapability :: string where "DenyCapability = ''deny''"
definition CreateCapability :: string where "CreateCapability = ''create''"
definition ReadCapability :: string where "ReadCapability = ''read''"
definition UpdateCapability :: string where "UpdateCapability = ''update''"
definition DeleteCapability :: string where "DeleteCapability = ''delete''"
definition ListCapability :: string where "ListCapability = ''list''"
definition SudoCapability :: string where "SudoCapability = ''sudo''"
definition RootCapability :: string where "RootCapability = ''root''"
definition PatchCapability :: string where "PatchCapability = ''patch''"
definition SubscribeCapability :: string where "SubscribeCapability = ''subscribe''"
definition RecoverCapability :: string where "RecoverCapability = ''recover''"

lemmas capability_names = DenyCapability_def CreateCapability_def ReadCapability_def
  UpdateCapability_def DeleteCapability_def ListCapability_def SudoCapability_def RootCapability_def
  PatchCapability_def SubscribeCapability_def RecoverCapability_def

type_synonym bitmap = "32 word"

definition DenyCapabilityInt :: bitmap where "DenyCapabilityInt = push_bit 0 1"
definition CreateCapabilityInt :: bitmap where "CreateCapabilityInt = push_bit 1 1"
definition ReadCapabilityInt :: bitmap where "ReadCapabilityInt = push_bit 2 1"
definition UpdateCapabilityInt :: bitmap where "UpdateCapabilityInt = push_bit 3 1"
definition DeleteCapabilityInt :: bitmap where "DeleteCapabilityInt = push_bit 4 1"
definition ListCapabilityInt :: bitmap where "ListCapabilityInt = push_bit 5 1"
definition SudoCapabilityInt :: bitmap where "SudoCapabilityInt = push_bit 6 1"
definition PatchCapabilityInt :: bitmap where "PatchCapabilityInt = push_bit 7 1"
definition SubscribeCapabilityInt :: bitmap where "SubscribeCapabilityInt = push_bit 8 1"
definition RecoverCapabilityInt :: bitmap where "RecoverCapabilityInt = push_bit 9 1"

lemmas capability_bits = DenyCapabilityInt_def CreateCapabilityInt_def ReadCapabilityInt_def
  UpdateCapabilityInt_def DeleteCapabilityInt_def ListCapabilityInt_def SudoCapabilityInt_def
  PatchCapabilityInt_def SubscribeCapabilityInt_def RecoverCapabilityInt_def

definition cap2Int :: "(string \<times> bitmap) list" where
  "cap2Int =
     [(DenyCapability, DenyCapabilityInt), (CreateCapability, CreateCapabilityInt),
      (ReadCapability, ReadCapabilityInt), (UpdateCapability, UpdateCapabilityInt),
      (DeleteCapability, DeleteCapabilityInt), (ListCapability, ListCapabilityInt),
      (SudoCapability, SudoCapabilityInt), (PatchCapability, PatchCapabilityInt),
      (SubscribeCapability, SubscribeCapabilityInt), (RecoverCapability, RecoverCapabilityInt)]"

datatype PolicyType = PolicyTypeACL | PolicyTypeRGP | PolicyTypeEGP | PolicyTypeToken

fun PolicyType_String :: "PolicyType \<Rightarrow> string" where
  "PolicyType_String PolicyTypeACL = ''acl''"
| "PolicyType_String PolicyTypeRGP = ''rgp''"
| "PolicyType_String PolicyTypeEGP = ''egp''"
| "PolicyType_String PolicyTypeToken = []"

section \<open>Data\<close>

record Namespace =
  ns_ID :: string
  ns_Path :: string

record PolicyInfo =
  pi_Name :: string
  pi_NamespaceId :: string
  pi_NamespacePath :: string
  pi_Type :: string

record IdentityFactor =
  if_GroupIDs :: "string list"
  if_GroupNames :: "string list"
  if_ApprovalsRequired :: int

record ControlGroupFactor =
  cf_Name :: string
  cf_Identity :: "IdentityFactor option"
  cf_ControlledCapabilities :: "string list"

record ControlGroup =
  cg_TTL :: duration
  cg_Factors :: "ControlGroupFactor list"

text \<open>
  A Go map from parameter names to values is an association list in the order of one iteration
  over it; \<open>None\<close> is the nil map.
\<close>

type_synonym params = "(string \<times> gval list) list"

record ACLPermissions =
  ap_CapabilitiesBitmap :: bitmap
  ap_MinWrappingTTL :: duration
  ap_MaxWrappingTTL :: duration
  ap_AllowedParameters :: "params option"
  ap_DeniedParameters :: "params option"
  ap_RequiredParameters :: "string list"
  ap_MFAMethods :: "string list option"
  ap_ControlGroup :: "ControlGroup option"
  ap_GrantingPoliciesMap :: "bitmap \<Rightarrow> PolicyInfo list"
  ap_SubscribeEventTypes :: "string list"

definition no_permissions :: ACLPermissions where
  "no_permissions =
     \<lparr>ap_CapabilitiesBitmap = 0, ap_MinWrappingTTL = 0, ap_MaxWrappingTTL = 0,
      ap_AllowedParameters = None, ap_DeniedParameters = None, ap_RequiredParameters = [],
      ap_MFAMethods = None, ap_ControlGroup = None, ap_GrantingPoliciesMap = (\<lambda>_. []),
      ap_SubscribeEventTypes = []\<rparr>"

record PathRules =
  pc_Path :: string
  pc_Permissions :: ACLPermissions
  pc_IsPrefix :: bool
  pc_HasSegmentWildcards :: bool
  pc_Capabilities :: "string list"

record Policy =
  po_Name :: string
  po_Paths :: "PathRules list"
  po_Raw :: string
  po_Type :: PolicyType
  po_Templated :: bool
  po_namespace :: Namespace

definition ShallowClone :: "Policy \<Rightarrow> Policy" where
  "ShallowClone p =
     \<lparr>po_Name = po_Name p, po_Paths = po_Paths p, po_Raw = po_Raw p, po_Type = po_Type p,
      po_Templated = po_Templated p, po_namespace = po_namespace p\<rparr>"

text \<open>A deep copy of a value is the value.\<close>

definition Clone :: "ACLPermissions \<Rightarrow> ACLPermissions" where
  "Clone p =
     \<lparr>ap_CapabilitiesBitmap = ap_CapabilitiesBitmap p, ap_MinWrappingTTL = ap_MinWrappingTTL p,
      ap_MaxWrappingTTL = ap_MaxWrappingTTL p,
      ap_AllowedParameters =
        (case ap_AllowedParameters p of None \<Rightarrow> None | Some [] \<Rightarrow> Some [] | Some m \<Rightarrow> Some m),
      ap_DeniedParameters =
        (case ap_DeniedParameters p of None \<Rightarrow> None | Some [] \<Rightarrow> Some [] | Some m \<Rightarrow> Some m),
      ap_RequiredParameters = ap_RequiredParameters p,
      ap_MFAMethods = (case ap_MFAMethods p of None \<Rightarrow> None | Some [] \<Rightarrow> Some [] | Some m \<Rightarrow> Some m),
      ap_ControlGroup = (case ap_ControlGroup p of None \<Rightarrow> None | Some g \<Rightarrow> Some g),
      ap_GrantingPoliciesMap = ap_GrantingPoliciesMap p,
      ap_SubscribeEventTypes = ap_SubscribeEventTypes p\<rparr>"

definition policy_info :: "Policy \<Rightarrow> PolicyInfo" where
  "policy_info policy =
     \<lparr>pi_Name = po_Name policy, pi_NamespaceId = ns_ID (po_namespace policy),
      pi_NamespacePath = ns_Path (po_namespace policy), pi_Type = ''acl''\<rparr>"

definition addGrantingPoliciesToMap ::
  "(bitmap \<Rightarrow> PolicyInfo list) \<Rightarrow> Policy \<Rightarrow> bitmap \<Rightarrow> (bitmap \<Rightarrow> PolicyInfo list)" where
  "addGrantingPoliciesToMap m policy capabilitiesBitmap =
     foldl (\<lambda>m (_, capability).
              if capabilitiesBitmap AND capability = 0 then m
              else m(capability := m capability @ [policy_info policy]))
       m cap2Int"

section \<open>Parsing the rules of a path\<close>

text \<open>
  What the HCL decoder leaves of one \<open>path\<close> block: its key, its attribute names and its decoded
  attributes, or an error.
\<close>

record ControlGroupHCL =
  ch_TTL :: "gval option"
  ch_Factors :: "(string \<times> ControlGroupFactor) list"

record PathHCL =
  hc_Policy :: string
  hc_Capabilities :: "string list"
  hc_MinWrappingTTL :: "gval option"
  hc_MaxWrappingTTL :: "gval option"
  hc_AllowedParameters :: "params option"
  hc_DeniedParameters :: "params option"
  hc_RequiredParameters :: "string list"
  hc_MFAMethods :: "string list option"
  hc_ControlGroup :: "ControlGroupHCL option"
  hc_SubscribeEventTypes :: "string list"

record PathItem =
  it_Key :: "string option"
  it_Attributes :: "string list"
  it_Decoded :: "err + PathHCL"

record policy_env =
  pe_populate :: "Namespace \<Rightarrow> string \<Rightarrow> err + string"
  pe_validate :: "string \<Rightarrow> err + bool"
  pe_parseDuration :: "gval \<Rightarrow> err + duration"

abbreviation fail :: "string \<Rightarrow> err + 'a" where
  "fail text \<equiv> Inl (ErrBackend text)"

definition CheckHCLKeys :: "string list \<Rightarrow> string list \<Rightarrow> err option" where
  "CheckHCLKeys keys valid =
     (if list_all (\<lambda>k. k \<in> set valid) keys then None else Some (ErrBackend ''invalid key''))"

text \<open>The key after templating: \<open>Inr None\<close> skips the item; the flag says that templates occur.\<close>

definition template_key :: "policy_env \<Rightarrow> bool \<Rightarrow> Namespace \<Rightarrow> string \<Rightarrow> err + (string option \<times> bool)" where
  "template_key env performTemplating ns key =
     (if performTemplating then
        (case pe_populate env ns key of
           Inl _ \<Rightarrow> Inr (None, False)
         | Inr templated \<Rightarrow> Inr (Some templated, False))
      else
        (case pe_validate env key of
           Inl e \<Rightarrow> Inl (ErrWrap ''failed to validate policy templating'' e)
         | Inr hasTemplating \<Rightarrow> Inr (Some key, hasTemplating)))"

definition segment_wildcards :: "string \<Rightarrow> bool" where
  "segment_wildcards path \<longleftrightarrow>
     path = ''+'' \<or> contains_sub path ''/+'' \<or> has_prefix path ''+/''"

text \<open>The full path of a rule, whether it is a prefix and whether it has segment wildcards.\<close>

definition rule_path :: "Namespace \<Rightarrow> string \<Rightarrow> err + (string \<times> bool \<times> bool)" where
  "rule_path ns key =
     (let path = ns_Path ns @ (if key \<noteq> [] \<and> hd key = CHR ''/'' then tl key else key) in
      if contains_sub path ''+*'' then fail ''invalid use of wildcards ('+*' is forbidden)''
      else let wild = segment_wildcards path in
        if has_suffix path ''*'' \<and> \<not> wild then Inr (trim_suffix path ''*'', True, wild)
        else Inr (path, False, wild))"

definition old_capabilities :: "string \<Rightarrow> string list \<Rightarrow> err + string list" where
  "old_capabilities policy caps =
     (if policy = [] then Inr caps
      else if policy = ''deny'' then Inr [DenyCapability]
      else if policy = ''read'' then Inr (caps @ [ReadCapability, ListCapability])
      else if policy = ''write'' then
        Inr (caps @ [CreateCapability, ReadCapability, UpdateCapability, DeleteCapability, ListCapability])
      else if policy = ''sudo'' then
        Inr (caps @ [CreateCapability, ReadCapability, UpdateCapability, DeleteCapability,
                     ListCapability, SudoCapability])
      else fail ''invalid policy'')"

text \<open>The loop over the capabilities; \<open>Inr None\<close> is the jump out of it at a deny.\<close>

fun capability_loop :: "string list \<Rightarrow> bitmap \<Rightarrow> err + bitmap option" where
  "capability_loop [] bits = Inr (Some bits)"
| "capability_loop (cap # caps) bits =
     (if cap = DenyCapability then Inr None
      else (case map_of cap2Int cap of
              None \<Rightarrow> fail ''invalid capability''
            | Some b \<Rightarrow> capability_loop caps (bits OR b)))"

definition to_lower :: "string \<Rightarrow> string" where
  "to_lower s = map ascii_lower s"

text \<open>Copying a map under lower-case keys: a later entry replaces an earlier one.\<close>

definition lower_params :: "params \<Rightarrow> params" where
  "lower_params ps = fold (\<lambda>(k, v) m. AList.update (to_lower k) v m) ps []"

definition opt_duration :: "policy_env \<Rightarrow> string \<Rightarrow> gval option \<Rightarrow> err + duration" where
  "opt_duration env text v =
     (case v of
        None \<Rightarrow> Inr 0
      | Some v \<Rightarrow> (case pe_parseDuration env v of Inl e \<Rightarrow> Inl (ErrWrap text e) | Inr d \<Rightarrow> Inr d))"

definition factor_error :: "string list \<Rightarrow> ControlGroupFactor \<Rightarrow> string option" where
  "factor_error caps factor =
     (case cf_Identity factor of
        None \<Rightarrow> Some ''no control_group factor provided''
      | Some identity \<Rightarrow>
          if if_ApprovalsRequired identity \<le> 0 \<or> if_GroupIDs identity = [] \<and> if_GroupNames identity = []
          then Some ''must provide more than one identity group and approvals > 0''
          else if list_ex (\<lambda>c. c \<notin> set caps) (cf_ControlledCapabilities factor)
          then Some ''control group factor capabilities must be a subset of the policy's capabilities''
          else None)"

fun factor_loop :: "string list \<Rightarrow> (string \<times> ControlGroupFactor) list \<Rightarrow> err + ControlGroupFactor list" where
  "factor_loop caps [] = Inr []"
| "factor_loop caps ((key, factor) # factors) =
     (case factor_error caps factor of
        Some text \<Rightarrow> fail text
      | None \<Rightarrow>
          (case factor_loop caps factors of
             Inl e \<Rightarrow> Inl e
           | Inr fs \<Rightarrow> Inr (factor\<lparr>cf_Name := key\<rparr> # fs)))"

definition parse_control_group ::
  "policy_env \<Rightarrow> string list \<Rightarrow> ControlGroupHCL option \<Rightarrow> err + ControlGroup option" where
  "parse_control_group env caps hcl =
     (case hcl of
        None \<Rightarrow> Inr None
      | Some g \<Rightarrow>
          (case opt_duration env ''error parsing control group max ttl'' (ch_TTL g) of
             Inl e \<Rightarrow> Inl e
           | Inr ttl \<Rightarrow>
               (case factor_loop caps (ch_Factors g) of
                  Inl e \<Rightarrow> Inl e
                | Inr [] \<Rightarrow> fail ''no control group factors provided''
                | Inr fs \<Rightarrow> Inr (Some \<lparr>cg_TTL = ttl, cg_Factors = fs\<rparr>))))"

definition parse_permissions ::
  "policy_env \<Rightarrow> PathHCL \<Rightarrow> string list \<Rightarrow> bitmap \<Rightarrow> err + ACLPermissions" where
  "parse_permissions env h caps bits =
     (case opt_duration env ''error parsing min_wrapping_ttl'' (hc_MinWrappingTTL h) of
        Inl e \<Rightarrow> Inl e
      | Inr minTTL \<Rightarrow>
        (case opt_duration env ''error parsing max_wrapping_ttl'' (hc_MaxWrappingTTL h) of
           Inl e \<Rightarrow> Inl e
         | Inr maxTTL \<Rightarrow>
           (case parse_control_group env caps (hc_ControlGroup h) of
              Inl e \<Rightarrow> Inl e
            | Inr cg \<Rightarrow>
                if minTTL \<noteq> 0 \<and> maxTTL \<noteq> 0 \<and> maxTTL < minTTL
                then fail ''max_wrapping_ttl cannot be less than min_wrapping_ttl''
                else Inr (no_permissions\<lparr>ap_CapabilitiesBitmap := bits,
                  ap_AllowedParameters := map_option lower_params (hc_AllowedParameters h),
                  ap_DeniedParameters := map_option lower_params (hc_DeniedParameters h),
                  ap_MinWrappingTTL := minTTL, ap_MaxWrappingTTL := maxTTL,
                  ap_MFAMethods := hc_MFAMethods h, ap_ControlGroup := cg,
                  ap_RequiredParameters := hc_RequiredParameters h,
                  ap_SubscribeEventTypes := hc_SubscribeEventTypes h\<rparr>))))"

definition path_attributes :: "string list" where
  "path_attributes =
     [''comment'', ''policy'', ''capabilities'', ''allowed_parameters'', ''denied_parameters'',
      ''required_parameters'', ''min_wrapping_ttl'', ''max_wrapping_ttl'', ''mfa_methods'',
      ''control_group'', ''subscribe_event_types'']"

definition parse_rules :: "policy_env \<Rightarrow> Namespace \<Rightarrow> string \<Rightarrow> PathHCL \<Rightarrow> err + PathRules" where
  "parse_rules env ns key h =
     (case rule_path ns key of
        Inl e \<Rightarrow> Inl e
      | Inr (path, isPrefix, wild) \<Rightarrow>
        (case old_capabilities (hc_Policy h) (hc_Capabilities h) of
           Inl e \<Rightarrow> Inl e
         | Inr caps \<Rightarrow>
           (case capability_loop caps 0 of
              Inl e \<Rightarrow> Inl e
            | Inr None \<Rightarrow>
                Inr \<lparr>pc_Path = path,
                     pc_Permissions = no_permissions\<lparr>ap_CapabilitiesBitmap := DenyCapabilityInt\<rparr>,
                     pc_IsPrefix = isPrefix, pc_HasSegmentWildcards = wild,
                     pc_Capabilities = [DenyCapability]\<rparr>
            | Inr (Some bits) \<Rightarrow>
                (case parse_permissions env h caps bits of
                   Inl e \<Rightarrow> Inl e
                 | Inr perms \<Rightarrow>
                     Inr \<lparr>pc_Path = path, pc_Permissions = perms, pc_IsPrefix = isPrefix,
                          pc_HasSegmentWildcards = wild, pc_Capabilities = caps\<rparr>))))"

fun parsePaths :: "policy_env \<Rightarrow> bool \<Rightarrow> Namespace \<Rightarrow> PathItem list \<Rightarrow> err + (PathRules list \<times> bool)" where
  "parsePaths env performTemplating ns [] = Inr ([], False)"
| "parsePaths env performTemplating ns (item # items) =
     (let key = (case it_Key item of None \<Rightarrow> ''path'' | Some k \<Rightarrow> k) in
      case template_key env performTemplating ns key of
        Inl e \<Rightarrow> Inl e
      | Inr (None, _) \<Rightarrow> parsePaths env performTemplating ns items
      | Inr (Some key, templated) \<Rightarrow>
          (case CheckHCLKeys (it_Attributes item) path_attributes of
             Some e \<Rightarrow> Inl e
           | None \<Rightarrow>
               (case it_Decoded item of
                  Inl e \<Rightarrow> Inl e
                | Inr h \<Rightarrow>
                    (case parse_rules env ns key h of
                       Inl e \<Rightarrow> Inl e
                     | Inr pc \<Rightarrow>
                         (case parsePaths env performTemplating ns items of
                            Inl e \<Rightarrow> Inl e
                          | Inr (pcs, t) \<Rightarrow> Inr (pc # pcs, templated \<or> t))))))"

text \<open>A parsed document: whether its root is an object list, its keys, its name, its path blocks.\<close>

record HclRoot =
  hr_IsObjectList :: bool
  hr_Keys :: "string list"
  hr_Name :: "err + string"
  hr_Paths :: "PathItem list"

definition parseACLPolicyWithTemplating ::
  "policy_env \<Rightarrow> (string \<Rightarrow> (err + HclRoot) \<times> bool) \<Rightarrow> Namespace \<Rightarrow> string \<Rightarrow> bool \<Rightarrow> (err + Policy) \<times> bool" where
  "parseACLPolicyWithTemplating env parse ns rules performTemplating =
     (case parse rules of
        (Inl e, duplicate) \<Rightarrow> (Inl (ErrWrap ''failed to parse policy'' e), duplicate)
      | (Inr root, duplicate) \<Rightarrow>
          if \<not> hr_IsObjectList root
          then (fail ''failed to parse policy: does not contain a root object'', duplicate)
          else (case CheckHCLKeys (hr_Keys root) [''name'', ''path''] of
            Some e \<Rightarrow> (Inl (ErrWrap ''failed to parse policy'' e), duplicate)
          | None \<Rightarrow>
            (case hr_Name root of
               Inl e \<Rightarrow> (Inl (ErrWrap ''failed to parse policy'' e), duplicate)
             | Inr name \<Rightarrow>
                 (let p = \<lparr>po_Name = name, po_Paths = [], po_Raw = rules, po_Type = PolicyTypeACL,
                           po_Templated = False, po_namespace = ns\<rparr> in
                  if hr_Paths root = [] then (Inr p, duplicate)
                  else (case parsePaths env performTemplating ns (hr_Paths root) of
                          Inl e \<Rightarrow> (Inl (ErrWrap ''failed to parse policy'' e), duplicate)
                        | Inr (pcs, t) \<Rightarrow> (Inr (p\<lparr>po_Paths := pcs, po_Templated := t\<rparr>), duplicate))))))"

definition ParseACLPolicy ::
  "policy_env \<Rightarrow> (string \<Rightarrow> (err + HclRoot) \<times> bool) \<Rightarrow> Namespace \<Rightarrow> string \<Rightarrow> err + Policy" where
  "ParseACLPolicy env parse ns rules = fst (parseACLPolicyWithTemplating env parse ns rules False)"

end
