(* ===== verification/Radix.thy ===== *)
theory Radix
  imports GoLib
begin

text \<open>
  The radix trees of \<open>go-radix\<close>, which access control and the router search by longest prefix. The
  package is a parameter of both: its operations are the record \<open>radix_ops\<close>, and \<open>radix_ok\<close> is what
  its documentation promises. Association lists keep the promise.
\<close>

section \<open>The interface\<close>

record ('t, 'v) radix_ops =
  rx_New :: 't
  rx_Get :: "'t \<Rightarrow> string \<Rightarrow> 'v option"
  rx_Insert :: "'t \<Rightarrow> string \<Rightarrow> 'v \<Rightarrow> 't"
  rx_Delete :: "'t \<Rightarrow> string \<Rightarrow> 't"
  rx_LongestPrefix :: "'t \<Rightarrow> string \<Rightarrow> (string \<times> 'v) option"
  rx_WalkPrefix :: "'t \<Rightarrow> string \<Rightarrow> (string \<times> 'v) list"

text \<open>
  A radix tree is a map; its longest-prefix search finds the longest key that is a prefix, and a
  walk meets every entry whose key starts with the given prefix.
\<close>

definition longest_prefix :: "(string \<Rightarrow> 'v option) \<Rightarrow> string \<Rightarrow> (string \<times> 'v) option \<Rightarrow> bool" where
  "longest_prefix get path r \<longleftrightarrow>
     (case r of
        None \<Rightarrow> \<forall>k. has_prefix path k \<longrightarrow> get k = None
      | Some (k, v) \<Rightarrow> has_prefix path k \<and> get k = Some v
          \<and> (\<forall>k'. has_prefix path k' \<and> get k' \<noteq> None \<longrightarrow> length k' \<le> length k))"

definition radix_ok :: "('t, 'v) radix_ops \<Rightarrow> bool" where
  "radix_ok rx \<longleftrightarrow>
     rx_Get rx (rx_New rx) = Map.empty
     \<and> (\<forall>t k v. rx_Get rx (rx_Insert rx t k v) = (rx_Get rx t)(k \<mapsto> v))
     \<and> (\<forall>t k. rx_Get rx (rx_Delete rx t k) = (rx_Get rx t)(k := None))
     \<and> (\<forall>t p. longest_prefix (rx_Get rx t) p (rx_LongestPrefix rx t p))
     \<and> (\<forall>t p k v. (k, v) \<in> set (rx_WalkPrefix rx t p) \<longleftrightarrow> has_prefix k p \<and> rx_Get rx t k = Some v)"

lemma radix_laws:
  assumes "radix_ok rx"
  shows "rx_Get rx (rx_New rx) = Map.empty" "rx_Get rx (rx_Insert rx t k v) = (rx_Get rx t)(k \<mapsto> v)"
    "rx_Get rx (rx_Delete rx t k) = (rx_Get rx t)(k := None)"
    "longest_prefix (rx_Get rx t) p (rx_LongestPrefix rx t p)"
    "(k, v) \<in> set (rx_WalkPrefix rx t p) \<longleftrightarrow> has_prefix k p \<and> rx_Get rx t k = Some v"
  using assms by (simp_all add: radix_ok_def)

section \<open>Longest prefixes\<close>

lemma longest_prefix_Some:
  "longest_prefix get p (Some (k, v)) \<Longrightarrow> has_prefix p k \<and> get k = Some v"
  by (simp add: longest_prefix_def)

lemma prefixes_same_length: "has_prefix p k \<Longrightarrow> has_prefix p k' \<Longrightarrow> length k = length k' \<Longrightarrow> k = k'"
  by (auto simp: has_prefix_iff append_eq_append_conv)

lemma longest_prefix_is:
  assumes "longest_prefix get p r" "has_prefix p k" "get k = Some v"
    "\<And>k'. has_prefix p k' \<Longrightarrow> get k' \<noteq> None \<Longrightarrow> length k' \<le> length k"
  shows "r = Some (k, v)"
proof (cases r)
  case None
  with assms show ?thesis by (simp add: longest_prefix_def)
next
  case (Some x)
  then obtain j w where j: "r = Some (j, w)" by (cases x) simp
  with assms(1) have "has_prefix p j" "get j = Some w" "length k \<le> length j"
    using assms(2,3) by (auto simp: longest_prefix_def)
  moreover from this have "length j \<le> length k" using assms(4) by simp
  ultimately have "j = k" using prefixes_same_length [OF _ assms(2)] by simp
  with \<open>get j = Some w\<close> assms(3) j show ?thesis by simp
qed

lemma longest_prefix_cong:
  assumes "longest_prefix get p r" "longest_prefix get' p r'" "\<And>k. has_prefix p k \<Longrightarrow> get' k = get k"
  shows "r' = r"
proof (cases r)
  case None
  with assms have "\<forall>k. has_prefix p k \<longrightarrow> get' k = None" by (simp add: longest_prefix_def)
  with assms(2) None show ?thesis by (cases r') (auto simp: longest_prefix_def)
next
  case (Some x)
  then obtain k v where k: "r = Some (k, v)" by (cases x) simp
  with assms(1) have "has_prefix p k" "get k = Some v"
    "\<And>k'. has_prefix p k' \<Longrightarrow> get k' \<noteq> None \<Longrightarrow> length k' \<le> length k"
    by (auto simp: longest_prefix_def)
  with assms(3) k longest_prefix_is [OF assms(2)] show ?thesis by auto
qed

section \<open>Association lists\<close>

function alist_prefix :: "(string \<times> 'v) list \<Rightarrow> string \<Rightarrow> (string \<times> 'v) option" where
  "alist_prefix t p =
     (case map_of t p of
        Some v \<Rightarrow> Some (p, v)
      | None \<Rightarrow> if p = [] then None else alist_prefix t (butlast p))"
  by auto
termination by (relation "measure (\<lambda>(_, p). length p)") auto

declare alist_prefix.simps [simp del]

lemma has_prefix_butlast:
  "p \<noteq> [] \<Longrightarrow> has_prefix p k \<longleftrightarrow> k = p \<or> has_prefix (butlast p) k"
  by (cases p rule: rev_cases) (auto simp: has_prefix_iff append_eq_append_conv2 append_eq_Cons_conv Cons_eq_append_conv)

lemma alist_prefix_longest: "longest_prefix (map_of t) p (alist_prefix t p)"
proof (induction t p rule: alist_prefix.induct)
  case (1 t p)
  show ?case
  proof (cases "map_of t p")
    case None
    show ?thesis
    proof (cases "p = []")
      case False
      have "has_prefix p k \<longleftrightarrow> k = p \<or> has_prefix (butlast p) k" for k
        by (rule has_prefix_butlast [OF False])
      with 1 [OF None False] None False show ?thesis
        by (subst alist_prefix.simps) (auto simp: longest_prefix_def split: option.splits)
    qed (use None in \<open>auto simp: longest_prefix_def alist_prefix.simps has_prefix_iff\<close>)
  next
    case (Some v)
    then show ?thesis by (subst alist_prefix.simps) (auto simp: longest_prefix_def has_prefix_iff)
  qed
qed

definition alist_radix :: "((string \<times> 'v) list, 'v) radix_ops" where
  "alist_radix = \<lparr>rx_New = [], rx_Get = map_of, rx_Insert = (\<lambda>t k v. AList.update k v t),
     rx_Delete = (\<lambda>t k. AList.delete k t), rx_LongestPrefix = alist_prefix,
     rx_WalkPrefix = (\<lambda>t p. filter (\<lambda>(k, _). has_prefix k p) (AList.clearjunk t))\<rparr>"

lemma clearjunk_walk: "(k, v) \<in> set (AList.clearjunk t) \<longleftrightarrow> map_of t k = Some v"
  by (metis distinct_clearjunk map_of_clearjunk map_of_eq_Some_iff)

lemma alist_radix_ok: "radix_ok alist_radix"
  by (auto simp: radix_ok_def alist_radix_def alist_prefix_longest update_conv' delete_conv'
      clearjunk_walk)

end
