(* ===== verification/ACL.thy ===== *)
theory ACL
  imports Policy Radix
begin

text \<open>
  Access control lists of \<open>vault/acl.go\<close>: the merge of policies into rules by path, the search for
  the rule that applies to a request, and the decision. The radix trees are a parameter
  (\<open>radix_ops\<close>, with \<open>radix_ok\<close> as what they promise), and so are the helpers of \<open>strutil\<close> and
  \<open>parseutil\<close> and the environment variable (\<open>acl_env\<close>).
\<close>

section \<open>Parameters\<close>

record acl_env =
  ae_legacy :: bool
  ae_parseComma :: "string \<Rightarrow> string list option"
  ae_glob :: "string \<Rightarrow> string \<Rightarrow> bool"
  ae_contains :: "string list \<Rightarrow> string \<Rightarrow> bool"
  ae_removeDuplicates :: "string list \<Rightarrow> string list"

section \<open>Building the list\<close>

record 't ACL =
  exactRules :: 't
  prefixRules :: 't
  segmentWildcardPaths :: "(string \<times> ACLPermissions) list"
  acl_root :: bool
  rgpPolicies :: "Policy list"

definition denied :: "ACLPermissions \<Rightarrow> bool" where
  "denied p \<longleftrightarrow> ap_CapabilitiesBitmap p AND DenyCapabilityInt \<noteq> 0"

definition merge_ttl :: "duration \<Rightarrow> duration \<Rightarrow> duration" where
  "merge_ttl new existing = (if new > 0 \<and> (existing = 0 \<or> new < existing) then new else existing)"

definition merge_params :: "params \<Rightarrow> params \<Rightarrow> params" where
  "merge_params new existing =
     fold (\<lambda>(key, value) m.
             AList.update key
               (case map_of m key of
                  Some [] \<Rightarrow> []
                | Some old \<Rightarrow> if value = [] then [] else value @ old
                | None \<Rightarrow> value) m)
       new existing"

definition merge_parameters :: "params option \<Rightarrow> params option \<Rightarrow> params option" where
  "merge_parameters new existing =
     (case new of
        None \<Rightarrow> existing
      | Some [] \<Rightarrow> existing
      | Some n \<Rightarrow> (case existing of None \<Rightarrow> Some n | Some e \<Rightarrow> Some (merge_params n e)))"

definition merge_required :: "acl_env \<Rightarrow> string list \<Rightarrow> string list \<Rightarrow> string list" where
  "merge_required env new existing =
     (if new = [] then existing
      else if existing = [] then new
      else foldl (\<lambda>ex v. if ae_contains env ex v then ex else ex @ [v]) existing new)"

definition merge_mfa :: "acl_env \<Rightarrow> string list option \<Rightarrow> string list option \<Rightarrow> string list option" where
  "merge_mfa env new existing =
     (case new of
        None \<Rightarrow> existing
      | Some [] \<Rightarrow> existing
      | Some n \<Rightarrow> Some (ae_removeDuplicates env (case existing of None \<Rightarrow> n | Some e \<Rightarrow> e @ n)))"

definition merge_control_group :: "ControlGroup option \<Rightarrow> ControlGroup option \<Rightarrow> ControlGroup option" where
  "merge_control_group new existing =
     (case new of
        None \<Rightarrow> existing
      | Some g \<Rightarrow>
          if cg_Factors g = [] then existing
          else (case existing of
                  None \<Rightarrow> Some g
                | Some e \<Rightarrow> Some (e\<lparr>cg_Factors := cg_Factors e @ cg_Factors g\<rparr>)))"

definition merge_subscribe :: "acl_env \<Rightarrow> string list \<Rightarrow> string list \<Rightarrow> string list" where
  "merge_subscribe env new existing =
     (if new \<noteq> [] \<and> existing \<noteq> [] then ae_removeDuplicates env (existing @ new) else existing)"

text \<open>The entry after a further rule for the same path; \<open>None\<close> leaves it as it is.\<close>

definition merge_permissions ::
  "acl_env \<Rightarrow> Policy \<Rightarrow> ACLPermissions \<Rightarrow> ACLPermissions \<Rightarrow> ACLPermissions option" where
  "merge_permissions env policy new existing =
     (if denied existing then None
      else if denied new then
        Some (existing\<lparr>ap_CapabilitiesBitmap := DenyCapabilityInt, ap_AllowedParameters := None,
                ap_DeniedParameters := None\<rparr>)
      else Some (existing
        \<lparr>ap_CapabilitiesBitmap := ap_CapabilitiesBitmap existing OR ap_CapabilitiesBitmap new,
         ap_GrantingPoliciesMap :=
           addGrantingPoliciesToMap (ap_GrantingPoliciesMap existing) policy (ap_CapabilitiesBitmap new),
         ap_MaxWrappingTTL := merge_ttl (ap_MaxWrappingTTL new) (ap_MaxWrappingTTL existing),
         ap_MinWrappingTTL := merge_ttl (ap_MinWrappingTTL new) (ap_MinWrappingTTL existing),
         ap_AllowedParameters := merge_parameters (ap_AllowedParameters new) (ap_AllowedParameters existing),
         ap_DeniedParameters := merge_parameters (ap_DeniedParameters new) (ap_DeniedParameters existing),
         ap_RequiredParameters := merge_required env (ap_RequiredParameters new) (ap_RequiredParameters existing),
         ap_MFAMethods := merge_mfa env (ap_MFAMethods new) (ap_MFAMethods existing),
         ap_ControlGroup := merge_control_group (ap_ControlGroup new) (ap_ControlGroup existing),
         ap_SubscribeEventTypes :=
           merge_subscribe env (ap_SubscribeEventTypes new) (ap_SubscribeEventTypes existing)\<rparr>))"

definition rule_get :: "('t, ACLPermissions) radix_ops \<Rightarrow> 't ACL \<Rightarrow> PathRules \<Rightarrow> ACLPermissions option" where
  "rule_get rx a pc =
     (if pc_HasSegmentWildcards pc then map_of (segmentWildcardPaths a) (pc_Path pc)
      else rx_Get rx (if pc_IsPrefix pc then prefixRules a else exactRules a) (pc_Path pc))"

definition rule_put :: "('t, ACLPermissions) radix_ops \<Rightarrow> 't ACL \<Rightarrow> PathRules \<Rightarrow> ACLPermissions \<Rightarrow> 't ACL" where
  "rule_put rx a pc perms =
     (if pc_HasSegmentWildcards pc
      then a\<lparr>segmentWildcardPaths := AList.update (pc_Path pc) perms (segmentWildcardPaths a)\<rparr>
      else if pc_IsPrefix pc then a\<lparr>prefixRules := rx_Insert rx (prefixRules a) (pc_Path pc) perms\<rparr>
      else a\<lparr>exactRules := rx_Insert rx (exactRules a) (pc_Path pc) perms\<rparr>)"

definition fresh_permissions :: "Policy \<Rightarrow> ACLPermissions \<Rightarrow> ACLPermissions" where
  "fresh_permissions policy perms =
     (Clone perms)\<lparr>ap_GrantingPoliciesMap :=
        addGrantingPoliciesToMap (\<lambda>_. []) policy (ap_CapabilitiesBitmap (Clone perms))\<rparr>"

definition add_rule :: "acl_env \<Rightarrow> ('t, ACLPermissions) radix_ops \<Rightarrow> Policy \<Rightarrow> 't ACL \<Rightarrow> PathRules \<Rightarrow> 't ACL" where
  "add_rule env rx policy a pc =
     (case rule_get rx a pc of
        None \<Rightarrow> rule_put rx a pc (fresh_permissions policy (pc_Permissions pc))
      | Some existing \<Rightarrow>
          (case merge_permissions env policy (pc_Permissions pc) existing of
             None \<Rightarrow> a
           | Some merged \<Rightarrow> rule_put rx a pc merged))"

definition RootNamespaceID :: string where
  "RootNamespaceID = ''root''"

text \<open>\<open>n\<close> is the number of all policies, nil ones included.\<close>

fun policy_loop ::
  "acl_env \<Rightarrow> ('t, ACLPermissions) radix_ops \<Rightarrow> Namespace \<Rightarrow> nat \<Rightarrow> 't ACL \<Rightarrow> Policy option list \<Rightarrow> err + 't ACL" where
  "policy_loop env rx ns n a [] = Inr a"
| "policy_loop env rx ns n a (None # policies) = policy_loop env rx ns n a policies"
| "policy_loop env rx ns n a (Some policy # policies) =
     (case po_Type policy of
        PolicyTypeRGP \<Rightarrow>
          policy_loop env rx ns n (a\<lparr>rgpPolicies := rgpPolicies a @ [policy]\<rparr>) policies
      | PolicyTypeACL \<Rightarrow>
          if po_Name policy = ''root'' \<and> ns_ID ns \<noteq> RootNamespaceID
          then fail ''root policy is only allowed in root namespace''
          else if po_Name policy = ''root'' \<and> n \<noteq> 1
          then fail ''other policies present along with root''
          else let a' = (if po_Name policy = ''root'' then a\<lparr>acl_root := True\<rparr> else a) in
            policy_loop env rx ns n (foldl (add_rule env rx policy) a' (po_Paths policy)) policies
      | _ \<Rightarrow> fail ''unable to parse policy (wrong type)'')"

definition empty_ACL :: "('t, ACLPermissions) radix_ops \<Rightarrow> 't ACL" where
  "empty_ACL rx =
     \<lparr>exactRules = rx_New rx, prefixRules = rx_New rx, segmentWildcardPaths = [], acl_root = False,
      rgpPolicies = []\<rparr>"

text \<open>The namespace comes from the context: an error, nil, or a namespace.\<close>

definition NewACL ::
  "acl_env \<Rightarrow> ('t, ACLPermissions) radix_ops \<Rightarrow> err + Namespace option \<Rightarrow> Policy option list \<Rightarrow> err + 't ACL" where
  "NewACL env rx ctx policies =
     (case ctx of
        Inl e \<Rightarrow> Inl e
      | Inr None \<Rightarrow> fail ''no namespace''
      | Inr (Some ns) \<Rightarrow> policy_loop env rx ns (length policies) (empty_ACL rx) policies)"

section \<open>Rules with wildcards\<close>

record wcPathDescr =
  wd_firstWCOrGlob :: int
  wd_wildcards :: nat
  wd_isPrefix :: bool
  wd_wcPath :: string
  wd_perms :: ACLPermissions

definition wc_less :: "wcPathDescr \<Rightarrow> wcPathDescr \<Rightarrow> bool" where
  "wc_less pdi pdj =
     (if wd_firstWCOrGlob pdi < wd_firstWCOrGlob pdj then True
      else if wd_firstWCOrGlob pdi > wd_firstWCOrGlob pdj then False
      else if wd_isPrefix pdi \<and> \<not> wd_isPrefix pdj then True
      else if \<not> wd_isPrefix pdi \<and> wd_isPrefix pdj then False
      else if wd_wildcards pdi > wd_wildcards pdj then True
      else if wd_wildcards pdi < wd_wildcards pdj then False
      else if length (wd_wcPath pdi) < length (wd_wcPath pdj) then True
      else if length (wd_wcPath pdi) > length (wd_wcPath pdj) then False
      else if wd_wcPath pdi < wd_wcPath pdj then True
      else if wd_wcPath pdi > wd_wcPath pdj then False
      else False)"

text \<open>The last element of a slice sorted by \<open>wc_less\<close>: one that no other exceeds.\<close>

fun wc_last :: "wcPathDescr \<Rightarrow> wcPathDescr list \<Rightarrow> wcPathDescr" where
  "wc_last best [] = best"
| "wc_last best (d # ds) = wc_last (if wc_less best d then d else best) ds"

text \<open>
  How the comparison of a request path with one wildcard path ends: an index out of range, a
  mismatch, the end of a mount path (with the answer of the prefix test), or a match with its
  number of wildcards.
\<close>

datatype segments_end = SegPanic | SegMismatch | SegMount bool | SegMatch nat

definition next_segments :: "bool \<Rightarrow> string list \<Rightarrow> nat \<Rightarrow> nat \<Rightarrow> string \<Rightarrow> string list \<Rightarrow> string list option" where
  "next_segments isPrefix pathParts n i aclPart segments =
     (if aclPart = pathParts ! i then Some (segments @ [pathParts ! i])
      else if isPrefix \<and> Suc i = n \<and> has_prefix (pathParts ! i) aclPart
      then Some (segments @ drop i pathParts)
      else None)"

fun segment_loop ::
  "bool \<Rightarrow> bool \<Rightarrow> string \<Rightarrow> string list \<Rightarrow> nat \<Rightarrow> nat \<Rightarrow> string list \<Rightarrow> string list \<Rightarrow> nat \<Rightarrow> segments_end" where
  "segment_loop bareMount isPrefix path pathParts n i [] segments wildcards = SegMatch wildcards"
| "segment_loop bareMount isPrefix path pathParts n i (aclPart # rest) segments wildcards =
     (if i \<ge> length pathParts then SegPanic
      else let star = (aclPart = ''+'');
               next = (if star then Some (segments @ [pathParts ! i])
                       else next_segments isPrefix pathParts n i aclPart segments);
               wildcards' = (if star then Suc wildcards else wildcards) in
        if next = None \<and> \<not> bareMount then SegMismatch
        else let segments' = (case next of Some s \<Rightarrow> s | None \<Rightarrow> segments) in
          if bareMount \<and> i + 2 = length pathParts
          then SegMount (has_prefix (join_with ''/'' segments' @ ''/'') path)
          else segment_loop bareMount isPrefix path pathParts n (Suc i) rest segments' wildcards')"

definition wc_index :: "string \<Rightarrow> int" where
  "wc_index p = (case index_byte p (CHR ''+'') of None \<Rightarrow> -1 | Some n \<Rightarrow> int n)"

definition wc_split :: "string \<Rightarrow> bool \<times> string" where
  "wc_split fullWCPath =
     (if last fullWCPath = CHR ''*'' then (True, butlast fullWCPath) else (False, fullWCPath))"

definition wc_match :: "bool \<Rightarrow> string \<Rightarrow> string \<Rightarrow> segments_end" where
  "wc_match bareMount path fullWCPath =
     (let pathParts = split_on (CHR ''/'') path;
          (isPrefix, currWCPath) = wc_split fullWCPath;
          splitCurrWCPath = split_on (CHR ''/'') currWCPath;
          n = length splitCurrWCPath in
      if \<not> bareMount \<and> length pathParts < n then SegMismatch
      else if \<not> bareMount \<and> \<not> isPrefix \<and> n \<noteq> length pathParts then SegMismatch
      else segment_loop bareMount isPrefix path pathParts n 0 splitCurrWCPath [] 0)"

definition wc_descr :: "string \<Rightarrow> nat \<Rightarrow> ACLPermissions \<Rightarrow> wcPathDescr" where
  "wc_descr fullWCPath wildcards perms =
     \<lparr>wd_firstWCOrGlob = wc_index fullWCPath, wd_wildcards = wildcards,
      wd_isPrefix = fst (wc_split fullWCPath), wd_wcPath = snd (wc_split fullWCPath), wd_perms = perms\<rparr>"

text \<open>The loop over the wildcard paths: \<open>None\<close> is a panic, \<open>Inl\<close> an early return.\<close>

fun wc_loop ::
  "bool \<Rightarrow> string \<Rightarrow> (string \<times> ACLPermissions) list \<Rightarrow> wcPathDescr list \<Rightarrow> (ACLPermissions + wcPathDescr list) option"
where
  "wc_loop bareMount path [] descrs = Some (Inr descrs)"
| "wc_loop bareMount path ((fullWCPath, perms) # rest) descrs =
     (if fullWCPath = [] then wc_loop bareMount path rest descrs
      else (case wc_match bareMount path fullWCPath of
              SegPanic \<Rightarrow> None
            | SegMismatch \<Rightarrow> wc_loop bareMount path rest descrs
            | SegMount found \<Rightarrow>
                if found \<and> \<not> denied perms \<and> ap_CapabilitiesBitmap perms \<noteq> 0 then Some (Inl perms)
                else wc_loop bareMount path rest descrs
            | SegMatch wildcards \<Rightarrow>
                wc_loop bareMount path rest (descrs @ [wc_descr fullWCPath wildcards perms])))"

definition CheckAllowedFromNonExactPaths ::
  "('t, ACLPermissions) radix_ops \<Rightarrow> 't ACL \<Rightarrow> string \<Rightarrow> bool \<Rightarrow> ACLPermissions option option" where
  "CheckAllowedFromNonExactPaths rx a path bareMount =
     (let longest = rx_LongestPrefix rx (prefixRules a) path in
      if segmentWildcardPaths a = [] then Some (map_option snd longest)
      else let descrs = (case longest of
                           None \<Rightarrow> []
                         | Some (prefix, perms) \<Rightarrow>
                             [\<lparr>wd_firstWCOrGlob = int (length prefix), wd_wildcards = 0,
                               wd_isPrefix = True, wd_wcPath = prefix, wd_perms = perms\<rparr>]) in
        (case wc_loop bareMount path (segmentWildcardPaths a) descrs of
           None \<Rightarrow> None
         | Some (Inl perms) \<Rightarrow> Some (Some perms)
         | Some (Inr []) \<Rightarrow> Some None
         | Some (Inr (d # ds)) \<Rightarrow> Some (if bareMount then None else Some (wd_perms (wc_last d ds)))))"

section \<open>The decision\<close>

record ACLResults =
  re_Allowed :: bool
  re_RootPrivs :: bool
  re_IsRoot :: bool
  re_MFAMethods :: "string list option"
  re_ControlGroup :: "ControlGroup option"
  re_CapabilitiesBitmap :: bitmap
  re_GrantingPolicies :: "PolicyInfo list"
  re_SubscribeEventTypes :: "string list"

definition no_results :: ACLResults where
  "no_results =
     \<lparr>re_Allowed = False, re_RootPrivs = False, re_IsRoot = False, re_MFAMethods = None,
      re_ControlGroup = None, re_CapabilitiesBitmap = 0, re_GrantingPolicies = [],
      re_SubscribeEventTypes = []\<rparr>"

definition valueInParameterList :: "acl_env \<Rightarrow> gval \<Rightarrow> gval list \<Rightarrow> bool" where
  "valueInParameterList env v list =
     list_ex (\<lambda>el.
       if el = GNil \<or> v = GNil then el = v
       else (case el of
               GStr elStr \<Rightarrow> (case v of GStr vStr \<Rightarrow> ae_glob env elStr vStr | _ \<Rightarrow> False)
             | _ \<Rightarrow> el = v)) list"

definition valueInAllowedParameterList :: "acl_env \<Rightarrow> gval \<Rightarrow> gval list \<Rightarrow> bool" where
  "valueInAllowedParameterList env v list =
     (if list = [] then True
      else if valueInParameterList env v list then True
      else if ae_legacy env then False
      else (case v of
              GList vSlice \<Rightarrow> list_all (\<lambda>v. valueInParameterList env v list) vSlice
            | GStr vString \<Rightarrow>
                (case ae_parseComma env vString of
                   Some vSlice \<Rightarrow> list_all (\<lambda>v. valueInParameterList env (GStr v) list) vSlice
                 | None \<Rightarrow> False)
            | _ \<Rightarrow> False))"

definition valueInDeniedParameterList :: "acl_env \<Rightarrow> gval \<Rightarrow> gval list \<Rightarrow> bool" where
  "valueInDeniedParameterList env v list =
     (if list = [] then True
      else if valueInParameterList env v list then True
      else if ae_legacy env then False
      else (case v of
              GList vSlice \<Rightarrow> list_ex (\<lambda>v. valueInParameterList env v list) vSlice
            | GStr vString \<Rightarrow>
                (case ae_parseComma env vString of
                   Some vSlice \<Rightarrow> list_ex (\<lambda>v. valueInParameterList env (GStr v) list) vSlice
                 | None \<Rightarrow> False)
            | _ \<Rightarrow> False))"

text \<open>The capability an operation needs; other operations are never allowed.\<close>

definition operation_capability :: "operation \<Rightarrow> bitmap option" where
  "operation_capability op =
     (case op of
        ReadOperation \<Rightarrow> Some ReadCapabilityInt
      | ListOperation \<Rightarrow> Some ListCapabilityInt
      | UpdateOperation \<Rightarrow> Some UpdateCapabilityInt
      | DeleteOperation \<Rightarrow> Some DeleteCapabilityInt
      | CreateOperation \<Rightarrow> Some CreateCapabilityInt
      | PatchOperation \<Rightarrow> Some PatchCapabilityInt
      | RecoverOperation \<Rightarrow> Some RecoverCapabilityInt
      | RevokeOperation \<Rightarrow> Some UpdateCapabilityInt
      | RenewOperation \<Rightarrow> Some UpdateCapabilityInt
      | RollbackOperation \<Rightarrow> Some UpdateCapabilityInt
      | _ \<Rightarrow> None)"

definition wrapping_allowed :: "ACLPermissions \<Rightarrow> RequestWrapInfo option \<Rightarrow> bool" where
  "wrapping_allowed perms wrap \<longleftrightarrow>
     (ap_MaxWrappingTTL perms > 0 \<longrightarrow>
        (case wrap of None \<Rightarrow> False | Some w \<Rightarrow> wi_TTL w \<le> ap_MaxWrappingTTL perms))
     \<and> (ap_MinWrappingTTL perms > 0 \<longrightarrow>
        (case wrap of None \<Rightarrow> False | Some w \<Rightarrow> wi_TTL w \<ge> ap_MinWrappingTTL perms))
     \<and> \<not> (ap_MinWrappingTTL perms \<noteq> 0 \<and> ap_MaxWrappingTTL perms \<noteq> 0
          \<and> ap_MaxWrappingTTL perms < ap_MinWrappingTTL perms)"

definition params_of :: "params option \<Rightarrow> params" where
  "params_of ps = (case ps of None \<Rightarrow> [] | Some m \<Rightarrow> m)"

definition parameter_denied :: "acl_env \<Rightarrow> params \<Rightarrow> gmap \<Rightarrow> bool" where
  "parameter_denied env deniedParams data \<longleftrightarrow>
     deniedParams \<noteq> [] \<and>
     (map_of deniedParams ''*'' \<noteq> None
      \<or> list_ex (\<lambda>(parameter, value).
           case map_of deniedParams (to_lower parameter) of
             None \<Rightarrow> False
           | Some valueSlice \<Rightarrow> valueInDeniedParameterList env value valueSlice) data)"

definition parameters_allowed :: "acl_env \<Rightarrow> params \<Rightarrow> gmap \<Rightarrow> bool" where
  "parameters_allowed env allowedParams data \<longleftrightarrow>
     (let allowedAll = (map_of allowedParams ''*'' \<noteq> None) in
      if allowedParams = [] then True
      else if length allowedParams = 1 \<and> allowedAll then True
      else list_all (\<lambda>(parameter, value).
             case map_of allowedParams (to_lower parameter) of
               None \<Rightarrow> allowedAll
             | Some valueSlice \<Rightarrow> valueInAllowedParameterList env value valueSlice) data)"

definition parameter_check :: "acl_env \<Rightarrow> ACLPermissions \<Rightarrow> gmap \<Rightarrow> bool" where
  "parameter_check env perms data \<longleftrightarrow>
     list_all (\<lambda>parameter. to_lower parameter \<in> set (map fst data)) (ap_RequiredParameters perms)
     \<and> (data = []
        \<or> \<not> parameter_denied env (params_of (ap_DeniedParameters perms)) data
          \<and> parameters_allowed env (params_of (ap_AllowedParameters perms)) data)"

definition parameter_operation :: "operation \<Rightarrow> bool" where
  "parameter_operation op \<longleftrightarrow>
     op \<in> {ReadOperation, UpdateOperation, CreateOperation, PatchOperation, RecoverOperation}"

definition check_permissions :: "acl_env \<Rightarrow> Request \<Rightarrow> bool \<Rightarrow> ACLPermissions \<Rightarrow> ACLResults" where
  "check_permissions env req capCheckOnly perms =
     (let capabilities = ap_CapabilitiesBitmap perms;
          ret = no_results\<lparr>re_RootPrivs := capabilities AND SudoCapabilityInt \<noteq> 0\<rparr> in
      if capCheckOnly
      then ret\<lparr>re_CapabilitiesBitmap := capabilities, re_SubscribeEventTypes := ap_SubscribeEventTypes perms\<rparr>
      else let ret = ret\<lparr>re_MFAMethods := ap_MFAMethods perms, re_ControlGroup := ap_ControlGroup perms\<rparr> in
        (case operation_capability (rq_Operation req) of
           None \<Rightarrow> ret
         | Some capability \<Rightarrow>
             if capabilities AND capability = 0 then ret
             else let ret = ret\<lparr>re_GrantingPolicies := ap_GrantingPoliciesMap perms capability\<rparr> in
               if \<not> wrapping_allowed perms (rq_WrapInfo req) then ret
               else if parameter_operation (rq_Operation req) \<and> \<not> parameter_check env perms (rq_Data req)
               then ret
               else ret\<lparr>re_Allowed := True\<rparr>))"

text \<open>The rule that applies to a path: exact, then by prefix or wildcards; \<open>None\<close> is a panic.\<close>

definition find_permissions :: "('t, ACLPermissions) radix_ops \<Rightarrow> 't ACL \<Rightarrow> operation \<Rightarrow> string \<Rightarrow> ACLPermissions option option" where
  "find_permissions rx a op path =
     (case rx_Get rx (exactRules a) path of
        Some perms \<Rightarrow> Some (Some perms)
      | None \<Rightarrow>
          (case (if op = ListOperation then rx_Get rx (exactRules a) (trim_suffix path ''/'') else None) of
             Some perms \<Rightarrow> Some (Some perms)
           | None \<Rightarrow>
               (case (if op = ListOperation \<and> has_suffix path ''/''
                      then CheckAllowedFromNonExactPaths rx a (trim_suffix path ''/'') False
                      else Some None) of
                  None \<Rightarrow> None
                | Some (Some perms) \<Rightarrow> Some (Some perms)
                | Some None \<Rightarrow> CheckAllowedFromNonExactPaths rx a path False)))"

definition root_policy_info :: PolicyInfo where
  "root_policy_info = \<lparr>pi_Name = ''root'', pi_NamespaceId = ''root'', pi_NamespacePath = [], pi_Type = ''acl''\<rparr>"

definition AllowOperation ::
  "acl_env \<Rightarrow> ('t, ACLPermissions) radix_ops \<Rightarrow> 't ACL \<Rightarrow> err + Namespace \<Rightarrow> Request \<Rightarrow> bool \<Rightarrow> ACLResults option" where
  "AllowOperation env rx a ctx req capCheckOnly =
     (if acl_root a
      then Some (no_results\<lparr>re_Allowed := True, re_RootPrivs := True, re_IsRoot := True,
             re_GrantingPolicies := [root_policy_info], re_SubscribeEventTypes := [''*'']\<rparr>)
      else if rq_Operation req = HelpOperation then Some (no_results\<lparr>re_Allowed := True\<rparr>)
      else (case ctx of
              Inl _ \<Rightarrow> Some no_results
            | Inr ns \<Rightarrow>
                (let path = dropWhile (\<lambda>c. c = CHR ''/'') (ns_Path ns @ rq_Path req) in
                 case find_permissions rx a (rq_Operation req) path of
                   None \<Rightarrow> None
                 | Some None \<Rightarrow> Some no_results
                 | Some (Some perms) \<Rightarrow> Some (check_permissions env req capCheckOnly perms))))"

definition reported_capabilities :: "(string \<times> bitmap) list" where
  "reported_capabilities =
     [(SudoCapability, SudoCapabilityInt), (ReadCapability, ReadCapabilityInt),
      (ListCapability, ListCapabilityInt), (UpdateCapability, UpdateCapabilityInt),
      (DeleteCapability, DeleteCapabilityInt), (CreateCapability, CreateCapabilityInt),
      (PatchCapability, PatchCapabilityInt), (SubscribeCapability, SubscribeCapabilityInt),
      (RecoverCapability, RecoverCapabilityInt)]"

definition capability_list :: "bitmap \<Rightarrow> string list" where
  "capability_list capabilities =
     (let names = map fst (filter (\<lambda>(_, b). capabilities AND b \<noteq> 0) reported_capabilities) in
      if capabilities AND DenyCapabilityInt \<noteq> 0 \<or> names = [] then [DenyCapability] else names)"

definition list_request :: "string \<Rightarrow> Request" where
  "list_request path =
     \<lparr>rq_ID = [], rq_Operation = ListOperation, rq_Path = path, rq_Data = [], rq_Headers = [],
      rq_ClientToken = [], rq_DisplayName = [], rq_MountPoint = [], rq_WrapInfo = None, rq_EntityID = []\<rparr>"

definition CapabilitiesAndSubscribeEventTypes ::
  "acl_env \<Rightarrow> ('t, ACLPermissions) radix_ops \<Rightarrow> 't ACL \<Rightarrow> err + Namespace \<Rightarrow> string \<Rightarrow> (string list \<times> string list) option" where
  "CapabilitiesAndSubscribeEventTypes env rx a ctx path =
     map_option (\<lambda>res. if re_IsRoot res then ([RootCapability], [''*''])
                       else (capability_list (re_CapabilitiesBitmap res), re_SubscribeEventTypes res))
       (AllowOperation env rx a ctx (list_request path) True)"

definition Capabilities ::
  "acl_env \<Rightarrow> ('t, ACLPermissions) radix_ops \<Rightarrow> 't ACL \<Rightarrow> err + Namespace \<Rightarrow> string \<Rightarrow> string list option" where
  "Capabilities env rx a ctx path = map_option fst (CapabilitiesAndSubscribeEventTypes env rx a ctx path)"

record PolicyCheckOpts =
  op_RootPrivsRequired :: bool
  op_Unauth :: bool

record AuthResults =
  ar_ACLResults :: "ACLResults option"
  ar_Allowed :: bool
  ar_RootPrivs :: bool

text \<open>The checks of one request; without the enterprise checks, what remains is allowed.\<close>

definition performPolicyChecksSinglePath ::
  "acl_env \<Rightarrow> ('t, ACLPermissions) radix_ops \<Rightarrow> 't ACL option \<Rightarrow> err + Namespace \<Rightarrow> Request \<Rightarrow> PolicyCheckOpts \<Rightarrow> AuthResults option"
where
  "performPolicyChecksSinglePath env rx acl ctx req opts =
     (case (if op_Unauth opts then None else acl) of
        None \<Rightarrow> Some \<lparr>ar_ACLResults = None, ar_Allowed = True, ar_RootPrivs = False\<rparr>
      | Some a \<Rightarrow>
          map_option (\<lambda>res.
            \<lparr>ar_ACLResults = Some res,
             ar_Allowed =
               (if re_IsRoot res then True
                else if \<not> re_Allowed res then False
                else if \<not> re_RootPrivs res \<and> op_RootPrivsRequired opts
                        \<and> rq_Operation req \<noteq> HelpOperation then False
                else True),
             ar_RootPrivs = re_RootPrivs res\<rparr>)
            (AllowOperation env rx a ctx req False))"

end
