(* ===== verification/ACL_Merge.thy ===== *)
theory ACL_Merge
  imports ACL
begin

text \<open>
  What \<open>NewACL\<close> builds, against an abstract specification: a rule list grants a capability at a
  slot (a kind of rule and a path) when some rule of the slot has it and none denies. Also the
  well-formedness of parsed rules.
\<close>

section \<open>Bits\<close>

lemma capability_bit_values [simp]:
  "DenyCapabilityInt = 1" "CreateCapabilityInt = 2" "ReadCapabilityInt = 4" "UpdateCapabilityInt = 8"
  "DeleteCapabilityInt = 16" "ListCapabilityInt = 32" "SudoCapabilityInt = 64" "PatchCapabilityInt = 128"
  "SubscribeCapabilityInt = 256" "RecoverCapabilityInt = 512"
  by (simp_all add: capability_bits)

definition capability_of :: "bitmap \<Rightarrow> bool" where
  "capability_of b \<longleftrightarrow> b \<in> snd ` set cap2Int \<and> b \<noteq> DenyCapabilityInt"

lemma and_power_zero: "a AND 2 ^ n = 0 \<longleftrightarrow> \<not> bit a n" for a :: "'a::len word"
proof
  assume zero: "a AND 2 ^ n = 0"
  show "\<not> bit a n"
  proof
    assume "bit a n"
    then have "bit (a AND 2 ^ n) n" by (auto simp: bit_simps dest: bit_imp_le_length)
    then show False by (simp add: zero)
  qed
next
  assume "\<not> bit a n"
  then show "a AND 2 ^ n = 0" by (intro bit_word_eqI) (auto simp: bit_simps)
qed

lemma or_power: "(x OR y) AND 2 ^ n = 0 \<longleftrightarrow> x AND 2 ^ n = 0 \<and> y AND 2 ^ n = 0" for x y :: bitmap
  by (simp add: and_power_zero bit_or_iff)

lemma or_capability:
  "(x OR y) AND 1 = 0 \<longleftrightarrow> x AND 1 = 0 \<and> y AND 1 = 0" "(x OR y) AND 2 = 0 \<longleftrightarrow> x AND 2 = 0 \<and> y AND 2 = 0"
  "(x OR y) AND 4 = 0 \<longleftrightarrow> x AND 4 = 0 \<and> y AND 4 = 0" "(x OR y) AND 8 = 0 \<longleftrightarrow> x AND 8 = 0 \<and> y AND 8 = 0"
  "(x OR y) AND 16 = 0 \<longleftrightarrow> x AND 16 = 0 \<and> y AND 16 = 0" "(x OR y) AND 32 = 0 \<longleftrightarrow> x AND 32 = 0 \<and> y AND 32 = 0"
  "(x OR y) AND 64 = 0 \<longleftrightarrow> x AND 64 = 0 \<and> y AND 64 = 0"
  "(x OR y) AND 128 = 0 \<longleftrightarrow> x AND 128 = 0 \<and> y AND 128 = 0"
  "(x OR y) AND 256 = 0 \<longleftrightarrow> x AND 256 = 0 \<and> y AND 256 = 0"
  "(x OR y) AND 512 = 0 \<longleftrightarrow> x AND 512 = 0 \<and> y AND 512 = 0" for x y :: bitmap
  using or_power [of x y 0] or_power [of x y 1] or_power [of x y 2] or_power [of x y 3] or_power [of x y 4]
    or_power [of x y 5] or_power [of x y 6] or_power [of x y 7] or_power [of x y 8] or_power [of x y 9]
  by simp_all

lemma or_has_0: "b \<in> snd ` set cap2Int \<Longrightarrow> (x OR y) AND b = 0 \<longleftrightarrow> x AND b = 0 \<and> y AND b = 0"
  unfolding cap2Int_def by (elim imageE) (auto simp only: list.set capability_bit_values or_capability snd_conv)

lemma or_has: "b \<in> snd ` set cap2Int \<Longrightarrow> (x OR y) AND b \<noteq> 0 \<longleftrightarrow> x AND b \<noteq> 0 \<or> y AND b \<noteq> 0"
  by (simp add: or_has_0)

lemma deny_cap [simp]: "DenyCapabilityInt \<in> snd ` set cap2Int" "1 \<in> snd ` set cap2Int"
  by (simp_all add: cap2Int_def)

lemma deny_excludes: "capability_of b \<Longrightarrow> DenyCapabilityInt AND b = 0"
  by (auto simp: capability_of_def cap2Int_def)

section \<open>Slots\<close>

datatype slot = Exact string | Prefix string | Wild string

definition slot_of :: "PathRules \<Rightarrow> slot" where
  "slot_of pc =
     (if pc_HasSegmentWildcards pc then Wild (pc_Path pc)
      else if pc_IsPrefix pc then Prefix (pc_Path pc) else Exact (pc_Path pc))"

fun acl_get :: "('t, ACLPermissions) radix_ops \<Rightarrow> 't ACL \<Rightarrow> slot \<Rightarrow> ACLPermissions option" where
  "acl_get rx a (Exact p) = rx_Get rx (exactRules a) p"
| "acl_get rx a (Prefix p) = rx_Get rx (prefixRules a) p"
| "acl_get rx a (Wild p) = map_of (segmentWildcardPaths a) p"

lemma rule_get_slot: "rule_get rx a pc = acl_get rx a (slot_of pc)"
  by (simp add: rule_get_def slot_of_def)

lemma radix_Insert: "radix_ok rx \<Longrightarrow> rx_Get rx (rx_Insert rx t k v) = (rx_Get rx t)(k \<mapsto> v)"
  by (simp add: radix_ok_def)

lemma rule_put_slot:
  "radix_ok rx \<Longrightarrow> acl_get rx (rule_put rx a pc perms) s = (if s = slot_of pc then Some perms else acl_get rx a s)"
  by (cases s) (auto simp: rule_put_def slot_of_def radix_Insert update_conv')

definition merged :: "acl_env \<Rightarrow> Policy \<Rightarrow> PathRules \<Rightarrow> ACLPermissions option \<Rightarrow> ACLPermissions" where
  "merged env policy pc old =
     (case old of
        None \<Rightarrow> fresh_permissions policy (pc_Permissions pc)
      | Some existing \<Rightarrow>
          (case merge_permissions env policy (pc_Permissions pc) existing of
             None \<Rightarrow> existing
           | Some m \<Rightarrow> m))"

lemma add_rule_slot:
  assumes "radix_ok rx"
  shows "acl_get rx (add_rule env rx policy a pc) s =
    (if s = slot_of pc then Some (merged env policy pc (acl_get rx a s)) else acl_get rx a s)"
  using rule_put_slot [OF assms]
  by (auto simp: add_rule_def rule_get_slot merged_def split: option.splits)

lemma Clone_id [simp]: "Clone p = p"
  by (simp add: Clone_def split: option.splits list.splits)

lemma fresh_bits [simp]: "ap_CapabilitiesBitmap (fresh_permissions policy p) = ap_CapabilitiesBitmap p"
  by (simp add: fresh_permissions_def)

lemma denied_iff: "denied p \<longleftrightarrow> ap_CapabilitiesBitmap p AND 1 \<noteq> 0"
  by (simp add: denied_def)

section \<open>The specification\<close>

text \<open>
  \<open>grants pcs s b\<close>: some rule of the slot has the capability and none of the slot's rules denies.
\<close>

definition rules_at :: "slot \<Rightarrow> PathRules list \<Rightarrow> PathRules list" where
  "rules_at s pcs = filter (\<lambda>pc. slot_of pc = s) pcs"

definition grants :: "PathRules list \<Rightarrow> slot \<Rightarrow> bitmap \<Rightarrow> bool" where
  "grants pcs s b \<longleftrightarrow>
     (\<exists>pc \<in> set (rules_at s pcs). ap_CapabilitiesBitmap (pc_Permissions pc) AND b \<noteq> 0)
     \<and> \<not> (\<exists>pc \<in> set (rules_at s pcs). denied (pc_Permissions pc))"

text \<open>A deny stands alone, as the parser leaves it.\<close>

definition deny_alone :: "PathRules \<Rightarrow> bool" where
  "deny_alone pc \<longleftrightarrow> (denied (pc_Permissions pc) \<longrightarrow> ap_CapabilitiesBitmap (pc_Permissions pc) = DenyCapabilityInt)"

definition slot_ok :: "PathRules list \<Rightarrow> slot \<Rightarrow> ACLPermissions option \<Rightarrow> bool" where
  "slot_ok pcs s r \<longleftrightarrow>
     (case r of
        None \<Rightarrow> rules_at s pcs = []
      | Some perms \<Rightarrow>
          rules_at s pcs \<noteq> []
          \<and> (denied perms \<longleftrightarrow> (\<exists>pc \<in> set (rules_at s pcs). denied (pc_Permissions pc)))
          \<and> (\<forall>b. capability_of b \<longrightarrow> (ap_CapabilitiesBitmap perms AND b \<noteq> 0 \<longleftrightarrow> grants pcs s b)))"

lemma rules_at_snoc: "rules_at s (pcs @ [pc]) = rules_at s pcs @ (if slot_of pc = s then [pc] else [])"
  by (simp add: rules_at_def)

lemma slot_ok_other: "slot_of pc \<noteq> s \<Longrightarrow> slot_ok (pcs @ [pc]) s r = slot_ok pcs s r"
  by (simp add: slot_ok_def grants_def rules_at_snoc split: option.splits)

lemma deny_alone_excludes: "deny_alone pc \<Longrightarrow> denied (pc_Permissions pc) \<Longrightarrow> capability_of b \<Longrightarrow>
   ap_CapabilitiesBitmap (pc_Permissions pc) AND b = 0"
  using deny_excludes by (simp add: deny_alone_def)

lemma merged_bits:
  "ap_CapabilitiesBitmap (merged env policy pc (Some ex)) =
     (if denied ex then ap_CapabilitiesBitmap ex
      else if denied (pc_Permissions pc) then DenyCapabilityInt
      else ap_CapabilitiesBitmap ex OR ap_CapabilitiesBitmap (pc_Permissions pc))"
  "denied (merged env policy pc (Some ex)) \<longleftrightarrow> denied ex \<or> denied (pc_Permissions pc)"
  by (auto simp: merged_def merge_permissions_def denied_iff or_has_0)

lemma slot_ok_merge:
  assumes "slot_ok pcs s r" "slot_of pc = s" "deny_alone pc"
  shows "slot_ok (pcs @ [pc]) s (Some (merged env policy pc r))"
proof (cases r)
  case None
  with assms show ?thesis
    using deny_alone_excludes [OF assms(3)]
    by (auto simp: slot_ok_def grants_def rules_at_snoc merged_def denied_iff)
next
  case (Some ex)
  have "(ap_CapabilitiesBitmap (merged env policy pc (Some ex)) AND b \<noteq> 0) =
      grants (pcs @ [pc]) s b" if b: "capability_of b" for b
  proof -
    have "b \<in> snd ` set cap2Int" using b by (simp add: capability_of_def)
    with assms Some b deny_excludes [OF b] show ?thesis
      by (auto simp: slot_ok_def grants_def rules_at_snoc merged_bits or_has)
  qed
  with assms Some show ?thesis
    by (auto simp: slot_ok_def rules_at_snoc merged_bits(2))
qed

definition acl_ok :: "('t, ACLPermissions) radix_ops \<Rightarrow> PathRules list \<Rightarrow> 't ACL \<Rightarrow> bool" where
  "acl_ok rx pcs a \<longleftrightarrow> (\<forall>s. slot_ok pcs s (acl_get rx a s)) \<and> distinct (map fst (segmentWildcardPaths a))"

lemma acl_ok_add:
  assumes "radix_ok rx" "acl_ok rx pcs a" "deny_alone pc"
  shows "acl_ok rx (pcs @ [pc]) (add_rule env rx policy a pc)"
proof -
  have "slot_ok (pcs @ [pc]) s (acl_get rx (add_rule env rx policy a pc) s)" for s
    using assms slot_ok_merge [of pcs s "acl_get rx a s" pc] slot_ok_other [of pc s]
    by (auto simp: add_rule_slot acl_ok_def)
  moreover have "distinct (map fst (segmentWildcardPaths (add_rule env rx policy a pc)))"
    using assms(2) by (auto simp: acl_ok_def add_rule_def rule_put_def distinct_update split: option.splits)
  ultimately show ?thesis by (simp add: acl_ok_def)
qed

lemma acl_ok_fold:
  "radix_ok rx \<Longrightarrow> acl_ok rx pcs a \<Longrightarrow> list_all deny_alone new \<Longrightarrow>
   acl_ok rx (pcs @ new) (foldl (add_rule env rx policy) a new)"
proof (induction new arbitrary: pcs a)
  case (Cons pc new)
  then have "acl_ok rx ((pcs @ [pc]) @ new) (foldl (add_rule env rx policy) (add_rule env rx policy a pc) new)"
    by (intro Cons.IH acl_ok_add) auto
  then show ?case by simp
qed simp

fun all_rules :: "Policy option list \<Rightarrow> PathRules list" where
  "all_rules [] = []"
| "all_rules (None # ps) = all_rules ps"
| "all_rules (Some p # ps) = (if po_Type p = PolicyTypeACL then po_Paths p else []) @ all_rules ps"

lemma acl_ok_cong:
  "acl_ok rx pcs (a\<lparr>rgpPolicies := r\<rparr>) = acl_ok rx pcs a" "acl_ok rx pcs (a\<lparr>acl_root := b\<rparr>) = acl_ok rx pcs a"
proof -
  have "acl_get rx (a\<lparr>rgpPolicies := r\<rparr>) s = acl_get rx a s" "acl_get rx (a\<lparr>acl_root := b\<rparr>) s = acl_get rx a s" for s
    by (cases s; simp)+
  then show "acl_ok rx pcs (a\<lparr>rgpPolicies := r\<rparr>) = acl_ok rx pcs a"
    "acl_ok rx pcs (a\<lparr>acl_root := b\<rparr>) = acl_ok rx pcs a" by (simp_all add: acl_ok_def)
qed

lemma policy_loop_ok:
  "policy_loop env rx ns n a policies = Inr a' \<Longrightarrow> radix_ok rx \<Longrightarrow> acl_ok rx pcs a \<Longrightarrow>
   list_all deny_alone (all_rules policies) \<Longrightarrow> acl_ok rx (pcs @ all_rules policies) a'"
proof (induction env rx ns n a policies arbitrary: pcs rule: policy_loop.induct)
  case (3 env rx ns n a policy policies)
  from "3.prems"(1) consider "po_Type policy = PolicyTypeRGP" | "po_Type policy = PolicyTypeACL"
    by (auto split: PolicyType.splits)
  then show ?case
  proof cases
    case 1
    with 3 show ?thesis by (simp add: acl_ok_cong)
  next
    case 2
    let ?a = "if po_Name policy = ''root'' then a\<lparr>acl_root := True\<rparr> else a"
    have run: "policy_loop env rx ns n (foldl (add_rule env rx policy) ?a (po_Paths policy)) policies = Inr a'"
      using "3.prems"(1) 2 by (auto simp: Let_def split: if_splits)
    have "acl_ok rx (pcs @ po_Paths policy) (foldl (add_rule env rx policy) ?a (po_Paths policy))"
      using "3.prems" 2 by (intro acl_ok_fold) (auto simp: acl_ok_cong)
    with 3 2 run show ?thesis by (auto simp: Let_def simp flip: append_assoc split: if_splits)
  qed
qed auto

lemma NewACL_ok:
  assumes "radix_ok rx" "NewACL env rx ctx policies = Inr a" "list_all deny_alone (all_rules policies)"
  shows "acl_ok rx (all_rules policies) a"
proof -
  have "acl_get rx (empty_ACL rx) s = None" for s
    using assms(1) by (cases s) (simp_all add: empty_ACL_def radix_ok_def)
  then have "acl_ok rx [] (empty_ACL rx)"
    by (simp add: acl_ok_def slot_ok_def rules_at_def empty_ACL_def)
  then show ?thesis
    using assms policy_loop_ok [of env rx _ _ "empty_ACL rx" policies a "[]"]
    by (auto simp: NewACL_def split: sum.splits option.splits)
qed

text \<open>
  C23. Merging policies. For every kind of rule and path, the list has an entry exactly when some
  policy has a rule there; the entry denies exactly when one of those rules denies, whatever the
  order of the policies, and otherwise it has exactly the capabilities that some rule gives.
\<close>

theorem merge_grants:
  assumes "radix_ok rx" "NewACL env rx ctx policies = Inr a" "list_all deny_alone (all_rules policies)"
  shows "slot_ok (all_rules policies) s (acl_get rx a s)"
  using NewACL_ok [OF assms] by (simp add: acl_ok_def)

section \<open>Parsed rules\<close>

definition canonical_ns :: "Namespace \<Rightarrow> bool" where
  "canonical_ns ns \<longleftrightarrow> ns_Path ns = [] \<or> has_suffix (ns_Path ns) ''/''"

definition ttl_ok :: "ACLPermissions \<Rightarrow> bool" where
  "ttl_ok p \<longleftrightarrow> (ap_MinWrappingTTL p \<noteq> 0 \<and> ap_MaxWrappingTTL p \<noteq> 0 \<longrightarrow>
     ap_MinWrappingTTL p \<le> ap_MaxWrappingTTL p)"

definition rule_wf :: "Namespace \<Rightarrow> PathRules \<Rightarrow> bool" where
  "rule_wf ns pc \<longleftrightarrow> has_prefix (pc_Path pc) (ns_Path ns)
     \<and> pc_HasSegmentWildcards pc = segment_wildcards (pc_Path pc)
     \<and> \<not> (pc_IsPrefix pc \<and> pc_HasSegmentWildcards pc) \<and> \<not> contains_sub (pc_Path pc) ''+*''
     \<and> deny_alone pc \<and> ttl_ok (pc_Permissions pc)
     \<and> (\<forall>g. ap_ControlGroup (pc_Permissions pc) = Some g \<longrightarrow> cg_Factors g \<noteq> [])
     \<and> (\<forall>(c, b) \<in> set cap2Int.
          ap_CapabilitiesBitmap (pc_Permissions pc) AND b \<noteq> 0 \<longleftrightarrow> c \<in> set (pc_Capabilities pc))"

lemma segment_wildcards_glob:
  assumes "\<not> segment_wildcards (p @ ''*'')"
  shows "\<not> segment_wildcards p \<or> p = ''+''"
proof -
  have "contains_sub (p @ ''*'') ''/+''" if "contains_sub p ''/+''"
    using that by (auto simp: contains_sub_iff) (metis append.assoc)
  moreover have "has_prefix (p @ ''*'') ''+/''" if "has_prefix p ''+/''"
    using that by (auto simp: has_prefix_iff)
  ultimately show ?thesis using assms by (auto simp: segment_wildcards_def)
qed

lemma contains_sub_glob: "contains_sub p q \<Longrightarrow> contains_sub (p @ r) q"
  by (auto simp: contains_sub_iff) (metis append.assoc)

lemma rule_path_cases:
  assumes "rule_path ns key = Inr (path, isPrefix, wild)"
  obtains (glob) rest where "path @ ''*'' = ns_Path ns @ rest" "isPrefix" "\<not> wild"
      "\<not> contains_sub (path @ ''*'') ''+*''" "\<not> segment_wildcards (path @ ''*'')"
    | (plain) rest where "path = ns_Path ns @ rest" "\<not> isPrefix" "wild = segment_wildcards path"
      "\<not> contains_sub path ''+*''"
proof -
  define rest where "rest = (if key \<noteq> [] \<and> hd key = CHR ''/'' then tl key else key)"
  define full where "full = ns_Path ns @ rest"
  have eq: "(if contains_sub full ''+*'' then fail ''invalid use of wildcards ('+*' is forbidden)''
      else if has_suffix full ''*'' \<and> \<not> segment_wildcards full
        then Inr (trim_suffix full ''*'', True, segment_wildcards full)
      else Inr (full, False, segment_wildcards full)) = (Inr (path, isPrefix, wild) :: err + _)"
    using assms by (simp only: rule_path_def Let_def full_def rest_def)
  have no: "\<not> contains_sub full ''+*''" using eq by (simp split: if_splits)
  show ?thesis
  proof (cases "has_suffix full ''*'' \<and> \<not> segment_wildcards full")
    case True
    then obtain p where p: "full = p @ ''*''" by (auto simp only: has_suffix_iff)
    from eq no True have "path = trim_suffix full ''*''" "isPrefix" "\<not> wild" by simp_all
    moreover from this(1) p have "full = path @ ''*''" by simp
    ultimately show ?thesis using no True glob [of rest] full_def by simp
  next
    case False
    with eq no have "path = full" "\<not> isPrefix" "wild = segment_wildcards full" by auto
    with no plain [of rest] full_def show ?thesis by blast
  qed
qed

lemma rule_path_wf:
  assumes "rule_path ns key = Inr (path, isPrefix, wild)" "canonical_ns ns"
  shows "has_prefix path (ns_Path ns) \<and> wild = segment_wildcards path \<and> \<not> (isPrefix \<and> wild)
    \<and> \<not> contains_sub path ''+*''"
  using assms(1)
proof (cases rule: rule_path_cases)
  case (glob rest)
  have "path \<noteq> ''+''" using glob(4) by (auto simp: has_prefix_def)
  then have "\<not> segment_wildcards path" using segment_wildcards_glob [OF glob(5)] by simp
  moreover have "\<not> contains_sub path ''+*''" using glob(4) contains_sub_glob by blast
  moreover have "has_prefix path (ns_Path ns)"
  proof (cases rest rule: rev_cases)
    case Nil
    with glob(1) have "last (ns_Path ns) = CHR ''*''" "ns_Path ns \<noteq> []" by (metis append_Nil2 last_snoc, auto)
    with assms(2) show ?thesis by (auto simp: canonical_ns_def has_suffix_iff)
  next
    case (snoc ys y)
    with glob(1) have "path = ns_Path ns @ ys" by simp
    then show ?thesis by simp
  qed
  ultimately show ?thesis using glob by simp
next
  case (plain rest)
  then show ?thesis by simp
qed

lemma cap2Int_powers: "map snd cap2Int = map (\<lambda>i. 2 ^ i) [0..<10]"
  by (simp add: cap2Int_def upt_conv_Cons)

lemma cap2Int_names: "distinct (map fst cap2Int)"
  by (simp add: cap2Int_def capability_names)

lemma cap2Int_index:
  assumes "(c, b) \<in> set cap2Int"
  obtains i where "i < length cap2Int" "c = map fst cap2Int ! i" "b = 2 ^ i"
proof -
  from assms obtain i where i: "i < length cap2Int" "cap2Int ! i = (c, b)" by (auto simp: in_set_conv_nth)
  have len: "length cap2Int = 10" by (simp add: cap2Int_def)
  have "map snd cap2Int ! i = 2 ^ i" using i len by (simp add: cap2Int_powers)
  with i that show ?thesis by simp
qed

lemma cap2Int_cases:
  assumes "(c, b) \<in> set cap2Int" "(c', b') \<in> set cap2Int"
  shows "b' AND b \<noteq> 0 \<longleftrightarrow> c' = c"
proof -
  obtain i where i: "i < length cap2Int" "c = map fst cap2Int ! i" "b = 2 ^ i"
    using cap2Int_index [OF assms(1)] .
  obtain j where j: "j < length cap2Int" "c' = map fst cap2Int ! j" "b' = 2 ^ j"
    using cap2Int_index [OF assms(2)] .
  have "length cap2Int = 10" by (simp add: cap2Int_def)
  then have "b' AND b \<noteq> 0 \<longleftrightarrow> i = j" using i j by (auto simp: and_power_zero bit_exp_iff)
  also have "\<dots> \<longleftrightarrow> c' = c" using i j nth_eq_iff_index_eq [OF cap2Int_names, of i j] by auto
  finally show ?thesis .
qed

lemma capability_loop_bits:
  "capability_loop caps bits = Inr (Some bits') \<Longrightarrow> (c, b) \<in> set cap2Int \<Longrightarrow>
   (bits' AND b \<noteq> 0 \<longleftrightarrow> bits AND b \<noteq> 0 \<or> c \<in> set caps)"
proof (induction caps bits rule: capability_loop.induct)
  case (2 cap caps bits)
  from 2(2) obtain b' where b': "map_of cap2Int cap = Some b'" and ne: "cap \<noteq> DenyCapability"
    by (auto split: if_splits option.splits)
  with 2 have "bits' AND b \<noteq> 0 \<longleftrightarrow> (bits OR b') AND b \<noteq> 0 \<or> c \<in> set caps" by simp
  moreover have "b \<in> snd ` set cap2Int" using 2(3) by force
  ultimately show ?case
    using or_has cap2Int_cases [OF 2(3) map_of_SomeD [OF b']] by auto
qed simp

lemma capability_loop_deny:
  "capability_loop caps bits = Inr (Some bits') \<Longrightarrow> DenyCapability \<notin> set caps"
  "capability_loop caps bits = Inr None \<Longrightarrow> DenyCapability \<in> set caps"
  by (induction caps bits rule: capability_loop.induct) (auto split: if_splits option.splits)

lemma parse_permissions_ok:
  assumes "parse_permissions env h caps bits = Inr perms"
  shows "ap_CapabilitiesBitmap perms = bits" "ttl_ok perms"
    "ap_ControlGroup perms = Some g \<Longrightarrow> cg_Factors g \<noteq> []"
  using assms
  by (auto simp: parse_permissions_def no_permissions_def ttl_ok_def parse_control_group_def
      split: sum.splits if_splits option.splits list.splits)

lemma parse_rules_wf:
  assumes "parse_rules env ns key h = Inr pc" "canonical_ns ns"
  shows "rule_wf ns pc"
proof -
  from assms(1) obtain path isPrefix wild caps r where
    path: "rule_path ns key = Inr (path, isPrefix, wild)" and
    caps: "capability_loop caps 0 = Inr r" and
    rest: "(case r of None \<Rightarrow> Inr \<lparr>pc_Path = path,
                     pc_Permissions = no_permissions\<lparr>ap_CapabilitiesBitmap := DenyCapabilityInt\<rparr>,
                     pc_IsPrefix = isPrefix, pc_HasSegmentWildcards = wild,
                     pc_Capabilities = [DenyCapability]\<rparr>
            | Some bits \<Rightarrow>
                (case parse_permissions env h caps bits of
                   Inl e \<Rightarrow> Inl e
                 | Inr perms \<Rightarrow>
                     Inr \<lparr>pc_Path = path, pc_Permissions = perms, pc_IsPrefix = isPrefix,
                          pc_HasSegmentWildcards = wild, pc_Capabilities = caps\<rparr>)) = Inr pc"
    by (auto simp: parse_rules_def split: sum.splits option.splits)
  note wf = rule_path_wf [OF path assms(2)]
  show ?thesis
  proof (cases r)
    case None
    have "(DenyCapability, DenyCapabilityInt) \<in> set cap2Int" by (simp add: cap2Int_def)
    then have "(1::bitmap) AND b \<noteq> 0 \<longleftrightarrow> c = DenyCapability" if "(c, b) \<in> set cap2Int" for c b
      using cap2Int_cases [OF that, of DenyCapability DenyCapabilityInt] by auto
    note deny = this
    from None rest have "pc = \<lparr>pc_Path = path,
        pc_Permissions = no_permissions\<lparr>ap_CapabilitiesBitmap := DenyCapabilityInt\<rparr>,
        pc_IsPrefix = isPrefix, pc_HasSegmentWildcards = wild, pc_Capabilities = [DenyCapability]\<rparr>"
      by simp
    with wf deny show ?thesis
      by (fastforce simp: rule_wf_def deny_alone_def no_permissions_def ttl_ok_def)
  next
    case (Some bits)
    then obtain perms where perms: "parse_permissions env h caps bits = Inr perms"
      "pc = \<lparr>pc_Path = path, pc_Permissions = perms, pc_IsPrefix = isPrefix,
             pc_HasSegmentWildcards = wild, pc_Capabilities = caps\<rparr>"
      using rest by (auto split: sum.splits)
    have bits: "bits AND b \<noteq> 0 \<longleftrightarrow> c \<in> set caps" if "(c, b) \<in> set cap2Int" for c b
      using capability_loop_bits [OF caps [unfolded Some] that] by simp
    have "(DenyCapability, DenyCapabilityInt) \<in> set cap2Int" by (simp add: cap2Int_def)
    from bits [OF this] have "bits AND DenyCapabilityInt = 0"
      using capability_loop_deny(1) [OF caps [unfolded Some]] by blast
    with perms wf bits parse_permissions_ok [OF perms(1)] show ?thesis
      by (auto simp: rule_wf_def deny_alone_def denied_def)
  qed
qed

text \<open>
  C29. Parsed policies. Every rule that the parser accepts is well formed: its path lies in the
  policy's namespace, the wildcard flags agree with the path, a deny stands alone, the bits are
  exactly the listed capabilities, the wrapping times are ordered and a control group has
  factors.
\<close>

theorem parsed_rules_wf:
  assumes "parsePaths env performTemplating ns items = Inr (pcs, templated)" "canonical_ns ns"
  shows "list_all (rule_wf ns) pcs"
  using assms(1)
proof (induction items arbitrary: pcs templated)
  case (Cons item items)
  then show ?case
    by (auto simp: Let_def intro: parse_rules_wf [OF _ assms(2)] split: sum.splits option.splits prod.splits)
qed simp

end
