(* ===== verification/ACL_Decide.thy ===== *)
theory ACL_Decide
  imports ACL_Merge "HOL-Library.Product_Lexorder" "HOL-Library.Multiset"
begin

text \<open>
  What access control decides: which rule wins among prefixes and wildcards, that every permission
  comes from a policy, and that a deny on the path itself is final. The rules that could apply to
  a path are the list \<open>candidates\<close>; \<open>covers\<close> says when a slot concerns a request.
\<close>

section \<open>Matching a wildcard path\<close>

definition segment_ok :: "bool \<Rightarrow> nat \<Rightarrow> string list \<Rightarrow> nat \<Rightarrow> string \<Rightarrow> bool" where
  "segment_ok isPrefix n parts i w \<longleftrightarrow>
     w = ''+'' \<or> w = parts ! i \<or> isPrefix \<and> Suc i = n \<and> has_prefix (parts ! i) w"

definition plus_segments :: "string list \<Rightarrow> nat" where
  "plus_segments ws = length (filter (\<lambda>w. w = ''+'') ws)"

definition ends_in_glob :: "string \<Rightarrow> bool" where
  "ends_in_glob p \<longleftrightarrow> has_suffix p ''*''"

definition stem :: "string \<Rightarrow> string" where
  "stem p = trim_suffix p ''*''"

definition wild_covers :: "string \<Rightarrow> string \<Rightarrow> bool" where
  "wild_covers path full \<longleftrightarrow>
     (let ws = split_on (CHR ''/'') (stem full); parts = split_on (CHR ''/'') path in
      length ws \<le> length parts \<and> (ends_in_glob full \<or> length ws = length parts)
      \<and> (\<forall>i < length ws. segment_ok (ends_in_glob full) (length ws) parts i (ws ! i)))"

lemma wc_split_text: "p \<noteq> [] \<Longrightarrow> wc_split p = (ends_in_glob p, stem p)"
  by (cases p rule: rev_cases)
     (auto simp: wc_split_def ends_in_glob_def stem_def has_suffix_iff trim_suffix_def)

lemma all_less_Cons: "(\<forall>j < length (w # ws). P j) \<longleftrightarrow> P 0 \<and> (\<forall>j < length ws. P (Suc j))"
  using less_Suc_eq_0_disj by auto

lemma segment_loop_spec:
  "i + length ws \<le> length parts \<Longrightarrow>
   segment_loop False isPrefix path parts n i ws segs k =
     (if \<forall>j < length ws. segment_ok isPrefix n parts (i + j) (ws ! j)
      then SegMatch (k + plus_segments ws) else SegMismatch)"
proof (induction ws arbitrary: i segs k)
  case Nil
  then show ?case by (simp add: plus_segments_def)
next
  case (Cons w ws)
  then have "i < length parts" "Suc i + length ws \<le> length parts" by auto
  with Cons.IH [of "Suc i"] show ?case
    unfolding all_less_Cons
    by (auto simp: Let_def next_segments_def segment_ok_def plus_segments_def split: if_splits)
qed

lemma wc_match_spec:
  "full \<noteq> [] \<Longrightarrow> wc_match False path full =
     (if wild_covers path full
      then SegMatch (plus_segments (split_on (CHR ''/'') (stem full))) else SegMismatch)"
  by (auto simp: wc_match_def wc_split_text wild_covers_def Let_def segment_loop_spec)

definition wild_descrs :: "string \<Rightarrow> (string \<times> ACLPermissions) list \<Rightarrow> wcPathDescr list" where
  "wild_descrs path wps =
     map (\<lambda>(p, perms). wc_descr p (plus_segments (split_on (CHR ''/'') (stem p))) perms)
       (filter (\<lambda>(p, _). p \<noteq> [] \<and> wild_covers path p) wps)"

lemma wc_loop_spec: "wc_loop False path wps ds = Some (Inr (ds @ wild_descrs path wps))"
  by (induction "False" path wps ds rule: wc_loop.induct) (auto simp: wild_descrs_def wc_match_spec)

text \<open>The rules, other than an exact one, that concern a path: the longest prefix and the wildcards.\<close>

definition prefix_descrs :: "('t, ACLPermissions) radix_ops \<Rightarrow> 't ACL \<Rightarrow> string \<Rightarrow> wcPathDescr list" where
  "prefix_descrs rx a path =
     (case rx_LongestPrefix rx (prefixRules a) path of
        None \<Rightarrow> []
      | Some (prefix, perms) \<Rightarrow>
          [\<lparr>wd_firstWCOrGlob = int (length prefix), wd_wildcards = 0, wd_isPrefix = True,
            wd_wcPath = prefix, wd_perms = perms\<rparr>])"

definition candidates :: "('t, ACLPermissions) radix_ops \<Rightarrow> 't ACL \<Rightarrow> string \<Rightarrow> wcPathDescr list" where
  "candidates rx a path = prefix_descrs rx a path @ wild_descrs path (segmentWildcardPaths a)"

definition winner :: "wcPathDescr list \<Rightarrow> wcPathDescr option" where
  "winner ds = (case ds of [] \<Rightarrow> None | d # ds \<Rightarrow> Some (wc_last d ds))"

lemma nonexact_candidates:
  "CheckAllowedFromNonExactPaths rx a path False = Some (map_option wd_perms (winner (candidates rx a path)))"
  by (auto simp: CheckAllowedFromNonExactPaths_def candidates_def prefix_descrs_def wild_descrs_def
      wc_loop_spec winner_def Let_def split: option.splits list.splits)

section \<open>The winning rule\<close>

definition rank :: "wcPathDescr \<Rightarrow> int \<times> bool \<times> int \<times> nat \<times> string" where
  "rank d = (wd_firstWCOrGlob d, \<not> wd_isPrefix d, - int (wd_wildcards d), length (wd_wcPath d), wd_wcPath d)"

lemma wc_less_rank: "wc_less d e \<longleftrightarrow> rank d < rank e"
  by (auto simp: wc_less_def rank_def)

lemma wc_last_max: "wc_last d ds \<in> set (d # ds) \<and> (\<forall>e \<in> set (d # ds). rank e \<le> rank (wc_last d ds))"
proof (induction ds arbitrary: d)
  case (Cons e ds)
  from Cons [of d] Cons [of e] show ?case by (auto simp: wc_less_rank)
qed simp

lemma winner_max: "winner ds = Some d \<Longrightarrow> d \<in> set ds \<and> (\<forall>e \<in> set ds. rank e \<le> rank d)"
  using wc_last_max by (auto simp: winner_def split: list.splits)

lemma winner_None [simp]: "winner ds = None \<longleftrightarrow> ds = []"
  by (simp add: winner_def split: list.splits)

lemma wc_split_inject: "p \<noteq> [] \<Longrightarrow> q \<noteq> [] \<Longrightarrow> wc_split p = wc_split q \<Longrightarrow> p = q"
  by (auto simp: wc_split_def split: if_splits) (metis append_butlast_last_id)

lemma index_byte_nth: "index_byte s c = Some n \<Longrightarrow> n < length s \<and> s ! n = c"
  by (induction s arbitrary: n) (auto split: if_splits)

lemma wc_index_less:
  assumes "p \<noteq> []"
  shows "wc_index p < int (length (snd (wc_split p)))"
proof (cases "index_byte p (CHR ''+'')")
  case (Some n)
  with index_byte_nth have n: "n < length p" "p ! n = CHR ''+''" by auto
  show ?thesis
  proof (cases "last p = CHR ''*''")
    case True
    with n assms have "n \<noteq> length p - 1" by (auto simp: last_conv_nth)
    with n True Some show ?thesis by (simp add: wc_index_def wc_split_def)
  qed (use n Some in \<open>simp add: wc_index_def wc_split_def\<close>)
qed (use assms in \<open>auto simp: wc_index_def wc_split_def\<close>)

lemma prefix_descr_rank: "d \<in> set (prefix_descrs rx a path) \<Longrightarrow> wd_firstWCOrGlob d = int (length (wd_wcPath d))"
  by (auto simp: prefix_descrs_def split: option.splits)

lemma wild_descr_rank: "d \<in> set (wild_descrs path wps) \<Longrightarrow> wd_firstWCOrGlob d < int (length (wd_wcPath d))"
  using wc_index_less by (auto simp: wild_descrs_def wc_descr_def)

lemma wild_descrs_inj:
  assumes "distinct (map fst wps)" "d \<in> set (wild_descrs path wps)" "e \<in> set (wild_descrs path wps)"
    "rank d = rank e"
  shows "d = e"
proof -
  from assms(2,3) obtain p q v w where
    d: "(p, v) \<in> set wps" "p \<noteq> []" "d = wc_descr p (plus_segments (split_on (CHR ''/'') (stem p))) v" and
    e: "(q, w) \<in> set wps" "q \<noteq> []" "e = wc_descr q (plus_segments (split_on (CHR ''/'') (stem q))) w"
    by (auto simp: wild_descrs_def)
  with assms(4) have "wc_split p = wc_split q"
    by (auto simp: rank_def wc_descr_def prod_eq_iff)
  then have "p = q" using d(2) e(2) by (rule wc_split_inject [rotated 2])
  with d e assms(1) show ?thesis by (auto dest: eq_key_imp_eq_value)
qed

lemma rank_inj:
  assumes "distinct (map fst (segmentWildcardPaths a))"
    "d \<in> set (candidates rx a path)" "e \<in> set (candidates rx a path)" "rank d = rank e"
  shows "d = e"
proof -
  have eq: "wd_firstWCOrGlob d = wd_firstWCOrGlob e" "length (wd_wcPath d) = length (wd_wcPath e)"
    using assms(4) by (simp_all add: rank_def)
  have one: "d = e" if "d \<in> set (prefix_descrs rx a path)" "e \<in> set (prefix_descrs rx a path)"
    using that by (cases "rx_LongestPrefix rx (prefixRules a) path") (auto simp: prefix_descrs_def)
  have apart: "d \<in> set (prefix_descrs rx a path) \<longleftrightarrow> e \<in> set (prefix_descrs rx a path)"
    using assms(2,3) eq prefix_descr_rank [of d rx a path] prefix_descr_rank [of e rx a path]
      wild_descr_rank [of d path] wild_descr_rank [of e path]
    unfolding candidates_def set_append Un_iff by (metis less_irrefl)
  show ?thesis
  proof (cases "d \<in> set (prefix_descrs rx a path)")
    case True
    then show ?thesis using one apart by blast
  next
    case False
    with assms(2,3) apart show ?thesis
      using wild_descrs_inj [OF assms(1) _ _ assms(4)] unfolding candidates_def set_append Un_iff by blast
  qed
qed

lemma winner_iff:
  assumes "distinct (map fst (segmentWildcardPaths a))"
  shows "winner (candidates rx a path) = Some d \<longleftrightarrow>
    d \<in> set (candidates rx a path) \<and> (\<forall>e \<in> set (candidates rx a path). e \<noteq> d \<longrightarrow> wc_less e d)" (is "_ \<longleftrightarrow> ?R d")
proof
  assume "winner (candidates rx a path) = Some d"
  note max = winner_max [OF this]
  with rank_inj [OF assms] show "?R d" by (auto simp: wc_less_rank order.strict_iff_order)
next
  assume R: "?R d"
  then have "candidates rx a path \<noteq> []" by auto
  then obtain e where e: "winner (candidates rx a path) = Some e" by fastforce
  from winner_max [OF e] R have "e = d" by (auto simp: wc_less_rank) (metis leD)
  with e show "winner (candidates rx a path) = Some d" by simp
qed

section \<open>Where authority comes from\<close>

fun covers :: "string \<Rightarrow> slot \<Rightarrow> bool" where
  "covers path (Exact p) \<longleftrightarrow> p = path"
| "covers path (Prefix p) \<longleftrightarrow> has_prefix path p"
| "covers path (Wild p) \<longleftrightarrow> p \<noteq> [] \<and> wild_covers path p"

text \<open>A list request is also decided by the rules for the path without its trailing slash.\<close>

definition concerns :: "operation \<Rightarrow> string \<Rightarrow> slot \<Rightarrow> bool" where
  "concerns op path s \<longleftrightarrow> covers path s \<or> op = ListOperation \<and> covers (trim_suffix path ''/'') s"

lemma candidate_slot:
  assumes "radix_ok rx" "distinct (map fst (segmentWildcardPaths a))" "d \<in> set (candidates rx a path)"
  shows "\<exists>s. covers path s \<and> acl_get rx a s = Some (wd_perms d)"
proof -
  from assms(3) consider "d \<in> set (prefix_descrs rx a path)" | "d \<in> set (wild_descrs path (segmentWildcardPaths a))"
    by (auto simp: candidates_def)
  then show ?thesis
  proof cases
    case 1
    then obtain k where "rx_LongestPrefix rx (prefixRules a) path = Some (k, wd_perms d)"
      by (cases "rx_LongestPrefix rx (prefixRules a) path") (auto simp: prefix_descrs_def)
    moreover have "longest_prefix (rx_Get rx (prefixRules a)) path (rx_LongestPrefix rx (prefixRules a) path)"
      using assms(1) by (simp add: radix_ok_def)
    ultimately show ?thesis by (intro exI [of _ "Prefix k"]) (simp add: longest_prefix_def)
  next
    case 2
    then obtain p where "(p, wd_perms d) \<in> set (segmentWildcardPaths a)" "covers path (Wild p)"
      by (auto simp: wild_descrs_def wc_descr_def)
    with assms(2) show ?thesis by (intro exI [of _ "Wild p"]) simp
  qed
qed

lemma nonexact_slot:
  assumes "radix_ok rx" "distinct (map fst (segmentWildcardPaths a))"
    "CheckAllowedFromNonExactPaths rx a path False = Some (Some perms)"
  shows "\<exists>s. covers path s \<and> acl_get rx a s = Some perms"
  using assms(3) candidate_slot [OF assms(1,2)] winner_max
  by (fastforce simp: nonexact_candidates)

section \<open>The documented priority\<close>

text \<open>
  The order in which the documentation ranks the rules that cover a path, read off their texts: a
  later first wildcard or glob, then a rule without a glob at its end, then fewer wildcard
  segments, then a longer path. A last tie is left to an arbitrary choice.
\<close>

fun first_wild :: "slot \<Rightarrow> nat" where
  "first_wild (Exact p) = length p"
| "first_wild (Prefix p) = length p"
| "first_wild (Wild p) = length (takeWhile (\<lambda>c. c \<noteq> CHR ''+'') p)"

fun globbed :: "slot \<Rightarrow> bool" where
  "globbed (Exact p) = False"
| "globbed (Prefix p) = True"
| "globbed (Wild p) = ends_in_glob p"

fun plus_count :: "slot \<Rightarrow> nat" where
  "plus_count (Exact p) = 0"
| "plus_count (Prefix p) = 0"
| "plus_count (Wild p) = plus_segments (split_on (CHR ''/'') (stem p))"

fun text_length :: "slot \<Rightarrow> nat" where
  "text_length (Exact p) = length p"
| "text_length (Prefix p) = length p"
| "text_length (Wild p) = length (stem p)"

definition preferred :: "slot \<Rightarrow> slot \<Rightarrow> bool" where
  "preferred s t \<longleftrightarrow> first_wild t < first_wild s
     \<or> first_wild s = first_wild t \<and> (\<not> globbed s \<and> globbed t
     \<or> globbed s = globbed t \<and> (plus_count s < plus_count t
     \<or> plus_count s = plus_count t \<and> text_length t < text_length s))"

fun inexact :: "slot \<Rightarrow> bool" where
  "inexact (Exact p) = False"
| "inexact (Prefix p) = True"
| "inexact (Wild p) = True"

definition describes :: "wcPathDescr \<Rightarrow> slot \<Rightarrow> bool" where
  "describes d s \<longleftrightarrow> wd_firstWCOrGlob d = int (first_wild s) \<and> wd_isPrefix d = globbed s
     \<and> wd_wildcards d = plus_count s \<and> length (wd_wcPath d) = text_length s"

lemma preferred_rank: "describes d s \<Longrightarrow> describes e t \<Longrightarrow> preferred t s \<Longrightarrow> rank d < rank e"
  by (auto simp: describes_def preferred_def rank_def)

lemma index_byte_takeWhile: "c \<in> set p \<Longrightarrow> index_byte p c = Some (length (takeWhile (\<lambda>x. x \<noteq> c) p))"
  by (induction p) auto

lemma describes_wild:
  "p \<noteq> [] \<Longrightarrow> CHR ''+'' \<in> set p \<Longrightarrow>
   describes (wc_descr p (plus_segments (split_on (CHR ''/'') (stem p))) perms) (Wild p)"
  by (simp add: describes_def wc_descr_def wc_index_def wc_split_text index_byte_takeWhile)

definition wilds_ok :: "'t ACL \<Rightarrow> bool" where
  "wilds_ok a \<longleftrightarrow> distinct (map fst (segmentWildcardPaths a))
     \<and> list_all (\<lambda>(p, _). CHR ''+'' \<in> set p) (segmentWildcardPaths a)"

lemma candidate_described:
  assumes "radix_ok rx" "wilds_ok a" "d \<in> set (candidates rx a path)"
  shows "\<exists>s. inexact s \<and> covers path s \<and> acl_get rx a s = Some (wd_perms d) \<and> describes d s"
proof -
  from assms(3) consider "d \<in> set (prefix_descrs rx a path)" | "d \<in> set (wild_descrs path (segmentWildcardPaths a))"
    by (auto simp: candidates_def)
  then show ?thesis
  proof cases
    case 1
    then obtain k where k: "rx_LongestPrefix rx (prefixRules a) path = Some (k, wd_perms d)" "describes d (Prefix k)"
      by (cases "rx_LongestPrefix rx (prefixRules a) path") (auto simp: prefix_descrs_def describes_def)
    moreover have "longest_prefix (rx_Get rx (prefixRules a)) path (rx_LongestPrefix rx (prefixRules a) path)"
      using assms(1) by (simp add: radix_ok_def)
    ultimately show ?thesis by (intro exI [of _ "Prefix k"]) (simp add: longest_prefix_def)
  next
    case 2
    then obtain p where p: "(p, wd_perms d) \<in> set (segmentWildcardPaths a)" "covers path (Wild p)"
      "d = wc_descr p (plus_segments (split_on (CHR ''/'') (stem p))) (wd_perms d)"
      by (auto simp: wild_descrs_def wc_descr_def)
    then have "describes d (Wild p)"
      using assms(2) describes_wild [of p "wd_perms d"] by (auto simp: wilds_ok_def list_all_iff)
    with p assms(2) show ?thesis by (intro exI [of _ "Wild p"]) (simp add: wilds_ok_def)
  qed
qed

text \<open>Every covering rule is a candidate, except for prefixes that are not the longest.\<close>

lemma described_candidate:
  assumes "radix_ok rx" "wilds_ok a" "inexact t" "covers path t" "acl_get rx a t = Some perms"
  shows "\<exists>e t'. e \<in> set (candidates rx a path) \<and> describes e t' \<and> (t' = t \<or> first_wild t < first_wild t')"
proof (cases t)
  case (Prefix p)
  with assms(4,5) have p: "has_prefix path p" "rx_Get rx (prefixRules a) p = Some perms" by simp_all
  have lp: "longest_prefix (rx_Get rx (prefixRules a)) path (rx_LongestPrefix rx (prefixRules a) path)"
    using assms(1) by (simp add: radix_ok_def)
  with p obtain k v where k: "rx_LongestPrefix rx (prefixRules a) path = Some (k, v)"
    by (cases "rx_LongestPrefix rx (prefixRules a) path") (auto simp: longest_prefix_def)
  with lp p have "has_prefix path k" "length p \<le> length k" by (auto simp: longest_prefix_def)
  then have "Prefix k = t \<or> first_wild t < first_wild (Prefix k)"
    using prefixes_same_length [OF p(1), of k] Prefix by auto
  moreover have "\<exists>e \<in> set (candidates rx a path). describes e (Prefix k)"
    using k by (simp add: candidates_def prefix_descrs_def describes_def)
  ultimately show ?thesis by blast
next
  case (Wild p)
  let ?e = "wc_descr p (plus_segments (split_on (CHR ''/'') (stem p))) perms"
  from Wild assms(4,5) have p: "(p, perms) \<in> set (segmentWildcardPaths a)" "p \<noteq> []" "wild_covers path p"
    by (simp_all add: map_of_SomeD)
  then have "CHR ''+'' \<in> set p" using assms(2) by (auto simp: wilds_ok_def list_all_iff)
  then have "describes ?e t" using describes_wild [OF p(2)] Wild by simp
  moreover have "?e = (\<lambda>(p, perms). wc_descr p (plus_segments (split_on (CHR ''/'') (stem p))) perms) (p, perms)"
    by simp
  then have "?e \<in> set (wild_descrs path (segmentWildcardPaths a))"
    unfolding wild_descrs_def set_map by (rule image_eqI) (use p in simp)
  ultimately show ?thesis unfolding candidates_def by auto
qed (use assms(3) in simp)

text \<open>
  C26. The winning rule. Without an exact rule, the search never fails. It finds nothing exactly
  when no prefix and no wildcard path covers the request path, and otherwise it returns the entry
  of a covering rule to which no other covering rule is preferred by the documented priority.
  Wildcard paths are distinct and contain a plus sign, as the parser leaves them.
\<close>

theorem nonexact_winner:
  assumes "radix_ok rx" "wilds_ok a"
  shows "\<exists>r. CheckAllowedFromNonExactPaths rx a path False = Some r
    \<and> (r = None \<longleftrightarrow> \<not> (\<exists>s. inexact s \<and> covers path s \<and> acl_get rx a s \<noteq> None))
    \<and> (\<forall>perms. r = Some perms \<longrightarrow> (\<exists>s. inexact s \<and> covers path s \<and> acl_get rx a s = Some perms
         \<and> (\<forall>t. inexact t \<and> covers path t \<and> acl_get rx a t \<noteq> None \<longrightarrow> \<not> preferred t s)))"
proof (rule exI [of _ "map_option wd_perms (winner (candidates rx a path))"], intro conjI allI impI)
  show "CheckAllowedFromNonExactPaths rx a path False = Some (map_option wd_perms (winner (candidates rx a path)))"
    by (rule nonexact_candidates)
  show "map_option wd_perms (winner (candidates rx a path)) = None
      \<longleftrightarrow> \<not> (\<exists>s. inexact s \<and> covers path s \<and> acl_get rx a s \<noteq> None)"
  proof (cases "candidates rx a path")
    case Nil
    then show ?thesis using described_candidate [OF assms] by fastforce
  next
    case (Cons d ds)
    then show ?thesis using candidate_described [OF assms, of d path] by fastforce
  qed
  fix perms assume "map_option wd_perms (winner (candidates rx a path)) = Some perms"
  then obtain d where d: "winner (candidates rx a path) = Some d" "wd_perms d = perms" by auto
  note max = winner_max [OF d(1)]
  obtain s where s: "inexact s" "covers path s" "acl_get rx a s = Some perms" "describes d s"
    using candidate_described [OF assms, of d path] max d(2) by blast
  have "\<not> preferred t s" if t: "inexact t" "covers path t" "acl_get rx a t \<noteq> None" for t
  proof -
    obtain e t' where e: "e \<in> set (candidates rx a path)" "describes e t'" "t' = t \<or> first_wild t < first_wild t'"
      using described_candidate [OF assms t(1,2)] t(3) by blast
    then have le: "rank e \<le> rank d" using max by blast
    then have "first_wild t' \<le> first_wild s" using e(2) s(4) by (auto simp: rank_def describes_def)
    then have "first_wild t < first_wild t' \<Longrightarrow> \<not> preferred t s" by (auto simp: preferred_def)
    moreover have "\<not> preferred t' s" using preferred_rank [OF s(4) e(2)] le by (auto simp: not_less)
    ultimately show ?thesis using e(3) by blast
  qed
  with s show "\<exists>s. inexact s \<and> covers path s \<and> acl_get rx a s = Some perms
      \<and> (\<forall>t. inexact t \<and> covers path t \<and> acl_get rx a t \<noteq> None \<longrightarrow> \<not> preferred t s)" by blast
qed

section \<open>Policy checks\<close>

lemma find_slot:
  assumes "radix_ok rx" "distinct (map fst (segmentWildcardPaths a))"
    "find_permissions rx a op path = Some (Some perms)"
  shows "\<exists>s. concerns op path s \<and> acl_get rx a s = Some perms"
proof -
  have exact: "covers p (Exact p)" "acl_get rx a (Exact p) = rx_Get rx (exactRules a) p" for p by simp_all
  from assms(3) consider q where "rx_Get rx (exactRules a) q = Some perms" "q = path \<or> op = ListOperation \<and> q = trim_suffix path ''/''"
    | q where "CheckAllowedFromNonExactPaths rx a q False = Some (Some perms)" "q = path \<or> op = ListOperation \<and> q = trim_suffix path ''/''"
    by (auto simp: find_permissions_def split: option.splits if_splits)
  then show ?thesis
    using exact nonexact_slot [OF assms(1,2)] by cases (metis concerns_def)+
qed

lemma find_total: "\<exists>r. find_permissions rx a op path = Some r"
  by (auto simp: find_permissions_def nonexact_candidates split: option.splits)

definition request_path :: "Namespace \<Rightarrow> Request \<Rightarrow> string" where
  "request_path ns req = dropWhile (\<lambda>c. c = CHR ''/'') (ns_Path ns @ rq_Path req)"

lemma AllowOperation_eq:
  assumes "\<not> acl_root a" "rq_Operation req \<noteq> HelpOperation"
  shows "AllowOperation env rx a (Inr ns) req only =
    Some (case the (find_permissions rx a (rq_Operation req) (request_path ns req)) of
            None \<Rightarrow> no_results
          | Some perms \<Rightarrow> check_permissions env req only perms)"
  using assms find_total [of rx a "rq_Operation req" "request_path ns req"]
  by (auto simp: AllowOperation_def request_path_def split: option.splits)

lemma foldl_add_root: "acl_root (foldl (add_rule env rx policy) a pcs) = acl_root a"
  by (induction pcs arbitrary: a) (auto simp: add_rule_def rule_put_def split: option.splits)

definition root_policy :: "Policy \<Rightarrow> bool" where
  "root_policy p \<longleftrightarrow> po_Type p = PolicyTypeACL \<and> po_Name p = ''root''"

lemma policy_loop_step:
  assumes "policy_loop env rx ns n a (Some policy # policies) = Inr a'"
  obtains a1 where "policy_loop env rx ns n a1 policies = Inr a'"
    "acl_root a1 \<longleftrightarrow> acl_root a \<or> root_policy policy"
    "root_policy policy \<Longrightarrow> n = 1 \<and> ns_ID ns = RootNamespaceID"
proof -
  from assms consider "po_Type policy = PolicyTypeRGP" | "po_Type policy = PolicyTypeACL"
    by (auto split: PolicyType.splits)
  then show ?thesis
  proof cases
    case 1
    with assms that [of "a\<lparr>rgpPolicies := rgpPolicies a @ [policy]\<rparr>"] show ?thesis
      by (simp add: root_policy_def)
  next
    case 2
    let ?a = "if po_Name policy = ''root'' then a\<lparr>acl_root := True\<rparr> else a"
    from assms 2 that [of "foldl (add_rule env rx policy) ?a (po_Paths policy)"] show ?thesis
      by (simp add: Let_def foldl_add_root root_policy_def split: if_splits)
  qed
qed

lemma policy_loop_root:
  "policy_loop env rx ns n a policies = Inr a' \<Longrightarrow>
   (acl_root a' \<longleftrightarrow> acl_root a \<or> (\<exists>p. Some p \<in> set policies \<and> root_policy p))
   \<and> (\<forall>p. Some p \<in> set policies \<and> root_policy p \<longrightarrow> n = 1 \<and> ns_ID ns = RootNamespaceID)"
proof (induction policies arbitrary: a)
  case (Cons q policies)
  show ?case
  proof (cases q)
    case (Some policy)
    with Cons.prems obtain a1 where "policy_loop env rx ns n a1 policies = Inr a'"
      "acl_root a1 \<longleftrightarrow> acl_root a \<or> root_policy policy"
      "root_policy policy \<Longrightarrow> n = 1 \<and> ns_ID ns = RootNamespaceID"
      using policy_loop_step by blast
    with Cons.IH [of a1] Some show ?thesis by auto
  qed (use Cons in auto)
qed simp

lemma NewACL_root:
  assumes "NewACL env rx ctx policies = Inr a"
  shows "acl_root a \<longleftrightarrow> (\<exists>p. policies = [Some p] \<and> root_policy p)"
    "acl_root a \<Longrightarrow> \<exists>ns. ctx = Inr (Some ns) \<and> ns_ID ns = RootNamespaceID"
proof -
  from assms obtain ns where ns: "ctx = Inr (Some ns)"
    "policy_loop env rx ns (length policies) (empty_ACL rx) policies = Inr a"
    by (auto simp: NewACL_def split: sum.splits option.splits)
  have one: "policies = [Some p] \<and> ns_ID ns = RootNamespaceID" if "Some p \<in> set policies" "root_policy p" for p
    using policy_loop_root [OF ns(2)] that by (auto simp: length_Suc_conv)
  have root: "acl_root a \<longleftrightarrow> (\<exists>p. Some p \<in> set policies \<and> root_policy p)"
    using policy_loop_root [OF ns(2)] by (simp add: empty_ACL_def)
  then show "acl_root a \<longleftrightarrow> (\<exists>p. policies = [Some p] \<and> root_policy p)"
    using one by auto
  show "\<exists>ns. ctx = Inr (Some ns) \<and> ns_ID ns = RootNamespaceID" if "acl_root a"
    using that root one ns(1) by blast
qed

text \<open>
  C35. The root policy. A list has root privileges exactly when it was built from the root policy
  and from nothing else, and then in the root namespace.
\<close>

theorem root_policy_alone:
  assumes "NewACL env rx ctx policies = Inr a"
  shows "(acl_root a \<longleftrightarrow> (\<exists>p. policies = [Some p] \<and> root_policy p))
    \<and> (acl_root a \<longrightarrow> (\<exists>ns. ctx = Inr (Some ns) \<and> ns_ID ns = RootNamespaceID))"
  using NewACL_root [OF assms] by blast

lemma operation_capability_of: "operation_capability op = Some b \<Longrightarrow> capability_of b"
  by (cases op) (auto simp: operation_capability_def capability_of_def cap2Int_def)

lemma sudo_capability_of: "capability_of SudoCapabilityInt"
  by (auto simp: capability_of_def cap2Int_def)

lemma check_permissions_allowed:
  assumes "re_Allowed (check_permissions env req False perms)"
  obtains b where "operation_capability (rq_Operation req) = Some b" "ap_CapabilitiesBitmap perms AND b \<noteq> 0"
  using assms by (auto simp: check_permissions_def Let_def no_results_def split: option.splits if_splits)

lemma check_permissions_root:
  "re_IsRoot (check_permissions env req only perms) = False"
  "re_RootPrivs (check_permissions env req only perms) \<longleftrightarrow> ap_CapabilitiesBitmap perms AND SudoCapabilityInt \<noteq> 0"
  by (auto simp: check_permissions_def Let_def no_results_def split: option.splits)

lemma check_permissions_denied:
  assumes "slot_ok pcs s (Some perms)" "denied perms"
  shows "\<not> re_Allowed (check_permissions env req False perms)"
proof
  assume "re_Allowed (check_permissions env req False perms)"
  then obtain b where b: "operation_capability (rq_Operation req) = Some b" "ap_CapabilitiesBitmap perms AND b \<noteq> 0"
    by (rule check_permissions_allowed)
  with assms operation_capability_of show False by (auto simp: slot_ok_def grants_def)
qed

text \<open>
  C21. No ambient authority. When the policy checks allow a request, the list was built from the
  root policy alone, or the request only asks for help, or some policy has a rule that concerns
  the path and gives the capability of the operation (and sudo where the path requires it), and
  no policy denies there.
\<close>

theorem authority_from_policies:
  assumes "radix_ok rx" "NewACL env rx nctx policies = Inr a" "list_all deny_alone (all_rules policies)"
    "\<not> op_Unauth opts" "performPolicyChecksSinglePath env rx (Some a) ctx req opts = Some res" "ar_Allowed res"
  shows "(\<exists>p. policies = [Some p] \<and> root_policy p) \<or> rq_Operation req = HelpOperation
    \<or> (\<exists>ns s b. ctx = Inr ns \<and> concerns (rq_Operation req) (request_path ns req) s
         \<and> operation_capability (rq_Operation req) = Some b \<and> grants (all_rules policies) s b
         \<and> (op_RootPrivsRequired opts \<longrightarrow> grants (all_rules policies) s SudoCapabilityInt))"
proof (cases "acl_root a \<or> rq_Operation req = HelpOperation")
  case True
  with NewACL_root(1) [OF assms(2)] show ?thesis by blast
next
  case False
  note ok = NewACL_ok [OF assms(1-3)]
  from assms(4-6) False obtain ns perms where ns: "ctx = Inr ns"
    and find: "find_permissions rx a (rq_Operation req) (request_path ns req) = Some (Some perms)"
    and allowed: "re_Allowed (check_permissions env req False perms)"
    and sudo: "op_RootPrivsRequired opts \<longrightarrow> re_RootPrivs (check_permissions env req False perms)"
    by (auto simp: performPolicyChecksSinglePath_def AllowOperation_def request_path_def
        check_permissions_root no_results_def split: sum.splits option.splits if_splits)
  from find_slot [OF assms(1) _ find] ok obtain s where
    s: "concerns (rq_Operation req) (request_path ns req) s" "acl_get rx a s = Some perms"
    by (auto simp: acl_ok_def)
  have slot: "slot_ok (all_rules policies) s (Some perms)" using ok s(2) by (metis acl_ok_def)
  obtain b where b: "operation_capability (rq_Operation req) = Some b" "ap_CapabilitiesBitmap perms AND b \<noteq> 0"
    using allowed by (rule check_permissions_allowed)
  have "grants (all_rules policies) s b"
    using slot b operation_capability_of [OF b(1)] by (simp add: slot_ok_def)
  moreover have "op_RootPrivsRequired opts \<longrightarrow> grants (all_rules policies) s SudoCapabilityInt"
    using slot sudo sudo_capability_of by (simp add: slot_ok_def check_permissions_root)
  ultimately show ?thesis using ns s(1) b(1) by blast
qed

text \<open>
  C22. A deny on the path itself. When some policy denies exactly the path of a request, the
  policy checks refuse the request, whatever other policies and wildcards give and in whatever
  order they come, unless the list is that of the root policy.
\<close>

theorem exact_deny_refuses:
  assumes "radix_ok rx" "NewACL env rx nctx policies = Inr a" "list_all deny_alone (all_rules policies)"
    "pc \<in> set (all_rules policies)" "slot_of pc = Exact (request_path ns req)" "denied (pc_Permissions pc)"
    "\<not> op_Unauth opts" "rq_Operation req \<noteq> HelpOperation" "\<not> (\<exists>p. policies = [Some p] \<and> root_policy p)"
  shows "\<exists>res. performPolicyChecksSinglePath env rx (Some a) (Inr ns) req opts = Some res \<and> \<not> ar_Allowed res"
proof -
  let ?s = "Exact (request_path ns req)"
  have root: "\<not> acl_root a" using NewACL_root(1) [OF assms(2)] assms(9) by blast
  have slot: "slot_ok (all_rules policies) ?s (acl_get rx a ?s)"
    using NewACL_ok [OF assms(1-3)] unfolding acl_ok_def by blast
  have mem: "pc \<in> set (rules_at ?s (all_rules policies))" using assms(4,5) by (simp add: rules_at_def)
  with slot obtain perms where perms: "acl_get rx a ?s = Some perms"
    by (cases "acl_get rx a ?s") (auto simp: slot_ok_def)
  with slot mem assms(6) have "denied perms" by (auto simp: slot_ok_def)
  then have no: "\<not> re_Allowed (check_permissions env req False perms)"
    using check_permissions_denied slot perms by metis
  have "find_permissions rx a (rq_Operation req) (request_path ns req) = Some (Some perms)"
    using perms by (simp add: find_permissions_def)
  with AllowOperation_eq [OF root assms(8)] no assms(7) show ?thesis
    by (simp add: performPolicyChecksSinglePath_def check_permissions_root)
qed

lemma segment_loop_mount:
  "2 \<le> length parts \<Longrightarrow> i + 2 \<le> length parts \<Longrightarrow>
   segment_loop True isPrefix path parts n i ws segs k \<noteq> SegPanic"
proof (induction ws arbitrary: i segs k)
  case (Cons w ws)
  then show ?case using Cons.IH [of "Suc i"] by (auto simp: Let_def)
qed simp

lemma wc_loop_total:
  assumes "\<And>p. p \<noteq> [] \<Longrightarrow> wc_match bareMount path p \<noteq> SegPanic"
  shows "wc_loop bareMount path wps ds \<noteq> None"
  using assms
proof (induction wps arbitrary: ds)
  case (Cons wp wps)
  then show ?case by (cases wp) (auto split: segments_end.splits)
qed simp

lemma split_on_slash: "c \<in> set s \<Longrightarrow> 2 \<le> length (split_on c s)"
proof (induction s)
  case (Cons x s)
  then show ?case by (cases "split_on c s") (auto simp: Suc_le_eq split: list.splits)
qed simp

lemma wc_match_mount:
  assumes "CHR ''/'' \<in> set path"
  shows "wc_match True path p \<noteq> SegPanic"
proof -
  have "2 \<le> length (split_on (CHR ''/'') path)" using assms by (rule split_on_slash)
  then show ?thesis
    using segment_loop_mount [of "split_on (CHR ''/'') path" 0]
    by (auto simp: wc_match_def Let_def split: prod.splits)
qed

text \<open>
  C30. The search for a rule always decides. On the path of a request, and on the path of a mount
  that has a slash as all of them do, no wildcard path makes the comparison index out of range.
\<close>

theorem nonexact_never_panics:
  assumes "bareMount \<longrightarrow> CHR ''/'' \<in> set path"
  shows "CheckAllowedFromNonExactPaths rx a path bareMount \<noteq> None"
proof (cases bareMount)
  case True
  with assms wc_match_mount have "wc_match bareMount path p \<noteq> SegPanic" for p by simp
  then have "wc_loop bareMount path wps ds \<noteq> None" for wps ds by (rule wc_loop_total)
  then obtain r where "wc_loop bareMount path (segmentWildcardPaths a) (prefix_descrs rx a path) = Some r"
    by blast
  then show ?thesis
    by (auto simp: CheckAllowedFromNonExactPaths_def prefix_descrs_def Let_def
        split: option.splits sum.splits list.splits)
qed (simp add: nonexact_candidates)

text \<open>A mount path is found when some wildcard path reaches below it and allows anything.\<close>

definition mount_hit :: "string \<Rightarrow> string \<times> ACLPermissions \<Rightarrow> bool" where
  "mount_hit path = (\<lambda>(p, perms). p \<noteq> [] \<and> wc_match True path p = SegMount True \<and> \<not> denied perms
     \<and> ap_CapabilitiesBitmap perms \<noteq> 0)"

lemma wc_loop_mount:
  assumes "\<And>p. wc_match True path p \<noteq> SegPanic"
  shows "(\<exists>perms. wc_loop True path wps ds = Some (Inl perms)) \<longleftrightarrow> (\<exists>wp \<in> set wps. mount_hit path wp)"
    "wc_loop True path wps ds \<noteq> None"
proof -
  show "(\<exists>perms. wc_loop True path wps ds = Some (Inl perms)) \<longleftrightarrow> (\<exists>wp \<in> set wps. mount_hit path wp)"
    using assms
  proof (induction wps arbitrary: ds)
    case (Cons wp wps)
    then show ?case by (cases wp) (auto simp: mount_hit_def split: segments_end.splits)
  qed simp
qed (use wc_loop_total assms in blast)

lemma mount_found:
  assumes "CHR ''/'' \<in> set path" "segmentWildcardPaths a \<noteq> []"
  shows "CheckAllowedFromNonExactPaths rx a path True = Some None
    \<longleftrightarrow> \<not> (\<exists>wp \<in> set (segmentWildcardPaths a). mount_hit path wp)"
proof -
  note w = wc_loop_mount [OF wc_match_mount [OF assms(1)], of "segmentWildcardPaths a" "prefix_descrs rx a path"]
  from w(2) obtain r where r: "wc_loop True path (segmentWildcardPaths a) (prefix_descrs rx a path) = Some r"
    by blast
  with assms(2) have "CheckAllowedFromNonExactPaths rx a path True = Some None \<longleftrightarrow> \<not> (\<exists>perms. r = Inl perms)"
    by (auto simp: CheckAllowedFromNonExactPaths_def prefix_descrs_def Let_def
        split: option.splits sum.splits list.splits)
  with w(1) r show ?thesis by simp
qed

lemma nonexact_order:
  assumes "distinct (map fst (segmentWildcardPaths a))"
    "mset (segmentWildcardPaths b) = mset (segmentWildcardPaths a)" "prefixRules b = prefixRules a"
  shows "CheckAllowedFromNonExactPaths rx b path False = CheckAllowedFromNonExactPaths rx a path False"
proof -
  have "distinct (map fst (segmentWildcardPaths b))"
    using assms(1,2) by (metis mset_map mset_eq_imp_distinct_iff)
  moreover have "set (candidates rx b path) = set (candidates rx a path)"
    using assms(3) mset_eq_setD [OF assms(2)]
    by (simp add: candidates_def prefix_descrs_def wild_descrs_def)
  ultimately have "winner (candidates rx b path) = Some d \<longleftrightarrow> winner (candidates rx a path) = Some d" for d
    using winner_iff [OF assms(1), of rx path d] winner_iff [of b rx path d] by simp
  then have "winner (candidates rx b path) = winner (candidates rx a path)"
    by (metis not_None_eq)
  then show ?thesis by (simp add: nonexact_candidates)
qed

lemma mount_order:
  assumes "mset (segmentWildcardPaths b) = mset (segmentWildcardPaths a)" "prefixRules b = prefixRules a"
    "CHR ''/'' \<in> set path"
  shows "CheckAllowedFromNonExactPaths rx b path True = Some None
    \<longleftrightarrow> CheckAllowedFromNonExactPaths rx a path True = Some None"
proof (cases "segmentWildcardPaths a = []")
  case True
  with assms(1,2) show ?thesis by (simp add: CheckAllowedFromNonExactPaths_def)
next
  case False
  with assms(1) have "segmentWildcardPaths b \<noteq> []" by auto
  with False mset_eq_setD [OF assms(1)] show ?thesis by (simp add: mount_found [OF assms(3)])
qed

text \<open>
  C27. Map order. The wildcard paths are a Go map, whose iteration order is random. For every two
  orders of the same entries the search for the path of a request has the same result. The search
  for a mount path, which ends at the first hit, may return different entries, but whether it
  finds one does not depend on the order.
\<close>

theorem wildcard_order_irrelevant:
  assumes "distinct (map fst (segmentWildcardPaths a))"
    "mset (segmentWildcardPaths b) = mset (segmentWildcardPaths a)" "prefixRules b = prefixRules a"
  shows "CheckAllowedFromNonExactPaths rx b path False = CheckAllowedFromNonExactPaths rx a path False
    \<and> (CHR ''/'' \<in> set path \<longrightarrow> (CheckAllowedFromNonExactPaths rx b path True = Some None
          \<longleftrightarrow> CheckAllowedFromNonExactPaths rx a path True = Some None))"
  using nonexact_order [OF assms] mount_order [OF assms(2,3)] by blast

section \<open>Merged limits\<close>

definition merge_values :: "gval list option \<Rightarrow> gval list option \<Rightarrow> gval list option" where
  "merge_values new old =
     (case new of
        None \<Rightarrow> old
      | Some v \<Rightarrow>
          (case old of
             None \<Rightarrow> Some v
           | Some w \<Rightarrow> if v = [] \<or> w = [] then Some [] else Some (v @ w)))"

lemma merge_values_None [simp]: "merge_values None old = old" "merge_values new None = new"
  by (simp_all add: merge_values_def split: option.splits)

lemma merge_params_lookup:
  "distinct (map fst new) \<Longrightarrow> map_of (merge_params new old) k = merge_values (map_of new k) (map_of old k)"
proof (induction new arbitrary: old)
  case (Cons kv new)
  obtain key val where kv: "kv = (key, val)" by force
  let ?old = "AList.update key (case map_of old key of Some [] \<Rightarrow> []
      | Some w \<Rightarrow> if val = [] then [] else val @ w | None \<Rightarrow> val) old"
  have "merge_params (kv # new) old = merge_params new ?old"
    by (simp add: merge_params_def kv)
  moreover have "map_of new key = None" using Cons.prems by (simp add: kv map_of_eq_None_iff)
  ultimately show ?case using Cons
    by (auto simp: kv update_conv' merge_values_def split: option.splits list.splits)
qed (simp add: merge_params_def merge_values_def)

lemma valueInParameterList_append:
  "valueInParameterList env v (xs @ ys) \<longleftrightarrow> valueInParameterList env v xs \<or> valueInParameterList env v ys"
  by (simp add: valueInParameterList_def)

lemma list_ex_disj: "list_ex (\<lambda>x. P x \<or> Q x) xs \<longleftrightarrow> list_ex P xs \<or> list_ex Q xs"
  by (induction xs) auto

lemma valueInDenied_append:
  "xs \<noteq> [] \<Longrightarrow> ys \<noteq> [] \<Longrightarrow> valueInDeniedParameterList env v (xs @ ys) \<longleftrightarrow>
   valueInDeniedParameterList env v xs \<or> valueInDeniedParameterList env v ys"
  by (auto simp: valueInDeniedParameterList_def valueInParameterList_append list_ex_disj
      split: gval.splits option.splits)

lemma merge_values_denied:
  "(case merge_values new old of None \<Rightarrow> False | Some vs \<Rightarrow> valueInDeniedParameterList env v vs) \<longleftrightarrow>
   (case new of None \<Rightarrow> False | Some vs \<Rightarrow> valueInDeniedParameterList env v vs)
   \<or> (case old of None \<Rightarrow> False | Some vs \<Rightarrow> valueInDeniedParameterList env v vs)"
proof -
  have "valueInDeniedParameterList env v []" by (simp add: valueInDeniedParameterList_def)
  then show ?thesis
    using valueInDenied_append by (auto simp: merge_values_def split: option.splits)
qed

lemma parameter_denied_alt:
  "parameter_denied env ps data \<longleftrightarrow>
     map_of ps ''*'' \<noteq> None
     \<or> list_ex (\<lambda>(parameter, value).
           case map_of ps (to_lower parameter) of
             None \<Rightarrow> False
           | Some vs \<Rightarrow> valueInDeniedParameterList env value vs) data"
  by (auto simp: parameter_denied_def list_ex_iff)

text \<open>
  C31. Denied parameters. Merging the rules of two policies for one path denies exactly the
  parameters and values that one of the two denies.
\<close>

theorem denied_parameters_merge:
  assumes "distinct (map fst (params_of new))"
  shows "parameter_denied env (params_of (merge_parameters new old)) data \<longleftrightarrow>
    parameter_denied env (params_of new) data \<or> parameter_denied env (params_of old) data"
proof -
  have "map_of (params_of (merge_parameters new old)) k =
      merge_values (map_of (params_of new) k) (map_of (params_of old) k)" for k
    using assms merge_params_lookup [of "params_of new" "params_of old" k]
    by (cases new; cases old; cases "the new")
      (simp_all add: merge_parameters_def params_of_def merge_values_None)
  then show ?thesis
    unfolding parameter_denied_alt case_prod_beta
    by (simp add: merge_values_denied list_ex_disj) (auto simp: merge_values_def split: option.splits)
qed

section \<open>Reported capabilities\<close>

text \<open>Rules without limits on wrapping or parameters.\<close>

definition unlimited :: "ACLPermissions \<Rightarrow> bool" where
  "unlimited p \<longleftrightarrow> ap_MaxWrappingTTL p = 0 \<and> ap_MinWrappingTTL p = 0 \<and> params_of (ap_AllowedParameters p) = []
     \<and> params_of (ap_DeniedParameters p) = [] \<and> ap_RequiredParameters p = []"

definition acl_all :: "(ACLPermissions \<Rightarrow> bool) \<Rightarrow> ('t, ACLPermissions) radix_ops \<Rightarrow> 't ACL \<Rightarrow> bool" where
  "acl_all P rx a \<longleftrightarrow> (\<forall>s perms. acl_get rx a s = Some perms \<longrightarrow> P perms)"

lemma merge_parameters_empty:
  "params_of new = [] \<Longrightarrow> merge_parameters new old = old"
  by (auto simp: merge_parameters_def params_of_def split: option.splits)

lemma merged_unlimited:
  assumes "unlimited (pc_Permissions pc)" "\<And>ex. old = Some ex \<Longrightarrow> unlimited ex"
  shows "unlimited (merged env policy pc old)"
proof (cases old)
  case (Some ex)
  with assms have "unlimited ex" by simp
  with assms(1) Some show ?thesis
    by (auto simp: merged_def merge_permissions_def unlimited_def merge_ttl_def merge_required_def
        merge_parameters_empty) (simp_all add: params_of_def)
qed (use assms in \<open>simp add: merged_def fresh_permissions_def unlimited_def\<close>)

lemma acl_all_fold:
  "radix_ok rx \<Longrightarrow> acl_all unlimited rx a \<Longrightarrow> list_all (\<lambda>pc. unlimited (pc_Permissions pc)) pcs \<Longrightarrow>
   acl_all unlimited rx (foldl (add_rule env rx policy) a pcs)"
proof (induction pcs arbitrary: a)
  case (Cons pc pcs)
  have "acl_all unlimited rx (add_rule env rx policy a pc)"
    using Cons.prems merged_unlimited [of pc]
    by (auto simp: acl_all_def add_rule_slot split: if_splits)
  with Cons show ?case by simp
qed simp

lemma acl_all_cong:
  "acl_all P rx (a\<lparr>rgpPolicies := r\<rparr>) = acl_all P rx a" "acl_all P rx (a\<lparr>acl_root := b\<rparr>) = acl_all P rx a"
proof -
  have "acl_get rx (a\<lparr>rgpPolicies := r\<rparr>) s = acl_get rx a s" "acl_get rx (a\<lparr>acl_root := b\<rparr>) s = acl_get rx a s" for s
    by (cases s; simp)+
  then show "acl_all P rx (a\<lparr>rgpPolicies := r\<rparr>) = acl_all P rx a"
    "acl_all P rx (a\<lparr>acl_root := b\<rparr>) = acl_all P rx a" by (simp_all add: acl_all_def)
qed

lemma policy_loop_unlimited:
  "policy_loop env rx ns n a policies = Inr a' \<Longrightarrow> radix_ok rx \<Longrightarrow> acl_all unlimited rx a \<Longrightarrow>
   list_all (\<lambda>pc. unlimited (pc_Permissions pc)) (all_rules policies) \<Longrightarrow> acl_all unlimited rx a'"
proof (induction env rx ns n a policies rule: policy_loop.induct)
  case (3 env rx ns n a policy policies)
  from "3.prems"(1) consider "po_Type policy = PolicyTypeRGP" | "po_Type policy = PolicyTypeACL"
    by (auto split: PolicyType.splits)
  then show ?case
  proof cases
    case 1
    with 3 show ?thesis by (simp add: acl_all_cong)
  next
    case 2
    let ?a = "if po_Name policy = ''root'' then a\<lparr>acl_root := True\<rparr> else a"
    have run: "policy_loop env rx ns n (foldl (add_rule env rx policy) ?a (po_Paths policy)) policies = Inr a'"
      using "3.prems"(1) 2 by (auto simp: Let_def split: if_splits)
    have "acl_all unlimited rx (foldl (add_rule env rx policy) ?a (po_Paths policy))"
      using "3.prems" 2 by (intro acl_all_fold) (auto simp: acl_all_cong)
    with 3 2 run show ?thesis by (auto simp: Let_def split: if_splits)
  qed
qed auto

lemma NewACL_unlimited:
  assumes "radix_ok rx" "NewACL env rx ctx policies = Inr a"
    "list_all (\<lambda>pc. unlimited (pc_Permissions pc)) (all_rules policies)"
  shows "acl_all unlimited rx a"
proof -
  have "acl_get rx (empty_ACL rx) s = None" for s
    using assms(1) by (cases s) (simp_all add: empty_ACL_def radix_ok_def)
  then have "acl_all unlimited rx (empty_ACL rx)" by (simp add: acl_all_def)
  then show ?thesis
    using assms policy_loop_unlimited [of env rx _ _ "empty_ACL rx" policies a]
    by (auto simp: NewACL_def split: sum.splits option.splits)
qed

lemma check_permissions_unlimited:
  assumes "unlimited perms" "operation_capability (rq_Operation req) = Some b"
  shows "re_Allowed (check_permissions env req False perms) \<longleftrightarrow> ap_CapabilitiesBitmap perms AND b \<noteq> 0"
  using assms
  by (auto simp: check_permissions_def Let_def no_results_def unlimited_def wrapping_allowed_def
      parameter_check_def parameter_denied_def parameters_allowed_def)

lemma reported_cap2Int:
  "set cap2Int = insert (DenyCapability, DenyCapabilityInt) (set reported_capabilities)"
  by (auto simp: cap2Int_def reported_capabilities_def)

lemma reported_names: "DenyCapability \<notin> fst ` set reported_capabilities"
  "RootCapability \<notin> insert DenyCapability (fst ` set reported_capabilities)"
  by (simp_all add: reported_capabilities_def capability_names)

lemma capability_list_mem:
  assumes "(c, b) \<in> set cap2Int" "capability_of b" "bits AND DenyCapabilityInt \<noteq> 0 \<Longrightarrow> bits AND b = 0"
  shows "c \<in> set (capability_list bits) \<longleftrightarrow> bits AND b \<noteq> 0"
    "capability_list bits \<noteq> [RootCapability]"
proof -
  let ?names = "map fst (filter (\<lambda>(_, b). bits AND b \<noteq> 0) reported_capabilities)"
  have rep: "(c, b) \<in> set reported_capabilities"
    using assms(1,2) by (auto simp: reported_cap2Int capability_of_def)
  then have c: "c \<noteq> DenyCapability" using reported_names(1) by force
  have uniq: "b' = b" if "(c, b') \<in> set reported_capabilities" for b'
    using that assms(1) cap2Int_names eq_key_imp_eq_value [of cap2Int c b' b] by (simp add: reported_cap2Int)
  have "c \<in> set ?names \<longleftrightarrow> (\<exists>b'. (c, b') \<in> set reported_capabilities \<and> bits AND b' \<noteq> 0)"
    by (auto simp: image_iff)
  also have "\<dots> \<longleftrightarrow> bits AND b \<noteq> 0" using rep uniq by blast
  finally have "c \<in> set ?names \<longleftrightarrow> bits AND b \<noteq> 0" .
  moreover have "c \<in> set (capability_list bits) \<longleftrightarrow> bits AND DenyCapabilityInt = 0 \<and> c \<in> set ?names"
    using c unfolding capability_list_def Let_def by (cases "?names = []") simp_all
  ultimately show "c \<in> set (capability_list bits) \<longleftrightarrow> bits AND b \<noteq> 0" using assms(3) by blast
  have "set (capability_list bits) \<subseteq> insert DenyCapability (fst ` set reported_capabilities)"
    by (auto simp: capability_list_def Let_def split: if_splits)
  with reported_names(2) show "capability_list bits \<noteq> [RootCapability]" by auto
qed

lemma find_operation:
  "op = ListOperation \<or> \<not> has_suffix path ''/'' \<Longrightarrow>
   find_permissions rx a op path = find_permissions rx a ListOperation path"
  by (auto simp: find_permissions_def trim_suffix_def split: option.splits)

text \<open>
  C28. Reported capabilities. Where no policy limits parameters or wrapping, and unless the path
  ends in a slash that only a list request ignores, the capabilities that are reported for a path
  are exactly those with which a request is allowed.
\<close>

theorem capabilities_report:
  assumes "radix_ok rx" "NewACL env rx nctx policies = Inr a" "list_all deny_alone (all_rules policies)"
    "list_all (\<lambda>pc. unlimited (pc_Permissions pc)) (all_rules policies)"
    "operation_capability (rq_Operation req) = Some b" "(c, b) \<in> set cap2Int"
    "rq_Operation req = ListOperation \<or> \<not> has_suffix (request_path ns req) ''/''"
  shows "\<exists>res caps. AllowOperation env rx a (Inr ns) req False = Some res
    \<and> Capabilities env rx a (Inr ns) (rq_Path req) = Some caps
    \<and> (re_Allowed res \<longleftrightarrow> caps = [RootCapability] \<or> c \<in> set caps)"
proof (cases "acl_root a")
  case True
  then show ?thesis
    by (auto simp: AllowOperation_def Capabilities_def CapabilitiesAndSubscribeEventTypes_def)
next
  case False
  have b: "capability_of b" by (rule operation_capability_of [OF assms(5)])
  have nohelp: "rq_Operation req \<noteq> HelpOperation" using assms(5) by (auto simp: operation_capability_def)
  let ?find = "find_permissions rx a (rq_Operation req) (request_path ns req)"
  have path: "request_path ns (list_request (rq_Path req)) = request_path ns req"
    "rq_Operation (list_request (rq_Path req)) = ListOperation"
    by (simp_all add: request_path_def list_request_def)
  have report: "AllowOperation env rx a (Inr ns) (list_request (rq_Path req)) True =
      Some (case the ?find of None \<Rightarrow> no_results
            | Some perms \<Rightarrow> check_permissions env (list_request (rq_Path req)) True perms)"
    using AllowOperation_eq [OF False, of "list_request (rq_Path req)" env rx ns True] find_operation [OF assms(7), of rx a] path
    by simp
  show ?thesis
  proof (cases "the ?find")
    case None
    then show ?thesis
      using AllowOperation_eq [OF False nohelp] report capability_list_mem [OF assms(6) b, of 0]
      by (simp add: Capabilities_def CapabilitiesAndSubscribeEventTypes_def no_results_def)
  next
    case (Some perms)
    then have "?find = Some (Some perms)" using find_total [of rx a] by (metis option.sel)
    then obtain s where s: "acl_get rx a s = Some perms"
      using find_slot [OF assms(1)] NewACL_ok [OF assms(1-3)] unfolding acl_ok_def by blast
    have "unlimited perms" using NewACL_unlimited [OF assms(1,2,4)] s by (simp add: acl_all_def)
    note allowed = check_permissions_unlimited [OF this assms(5)]
    have "slot_ok (all_rules policies) s (Some perms)" using NewACL_ok [OF assms(1-3)] s by (metis acl_ok_def)
    then have "ap_CapabilitiesBitmap perms AND b = 0" if "ap_CapabilitiesBitmap perms AND DenyCapabilityInt \<noteq> 0"
      using that b by (auto simp: slot_ok_def grants_def denied_def)
    with AllowOperation_eq [OF False nohelp] report Some allowed capability_list_mem [OF assms(6) b] show ?thesis
      by (simp add: Capabilities_def CapabilitiesAndSubscribeEventTypes_def check_permissions_def Let_def no_results_def)
  qed
qed

end
