(* ===== verification/ACL_Demo.thy ===== *)
theory ACL_Demo
  imports ACL_Decide
begin

text \<open>
  Instances for the theorems about access control: two policies and the requests they decide,
  with radix trees kept as association lists.
\<close>

section \<open>Policies\<close>

definition root_ns :: Namespace where
  "root_ns = \<lparr>ns_ID = ''root'', ns_Path = []\<rparr>"

definition bits_rule :: "string \<Rightarrow> bitmap \<Rightarrow> bool \<Rightarrow> bool \<Rightarrow> PathRules" where
  "bits_rule path bits isPrefix wild =
     \<lparr>pc_Path = path, pc_Permissions = no_permissions\<lparr>ap_CapabilitiesBitmap := bits\<rparr>,
      pc_IsPrefix = isPrefix, pc_HasSegmentWildcards = wild, pc_Capabilities = []\<rparr>"

definition demo_policy :: "string \<Rightarrow> PathRules list \<Rightarrow> Policy" where
  "demo_policy name rules =
     \<lparr>po_Name = name, po_Paths = rules, po_Raw = [], po_Type = PolicyTypeACL, po_Templated = False,
      po_namespace = root_ns\<rparr>"

definition reader :: Policy where
  "reader = demo_policy ''reader''
     [bits_rule ''secret/'' (ReadCapabilityInt OR ListCapabilityInt) True False,
      bits_rule ''+/x'' ReadCapabilityInt False True,
      bits_rule ''secret/+'' (ReadCapabilityInt OR UpdateCapabilityInt) False True]"

definition denier :: Policy where
  "denier = demo_policy ''denier'' [bits_rule ''secret/x'' DenyCapabilityInt False False]"

definition demo_env :: acl_env where
  "demo_env = \<lparr>ae_legacy = False, ae_parseComma = (\<lambda>_. None), ae_glob = (=), ae_contains = (\<lambda>xs x. x \<in> set xs),
     ae_removeDuplicates = remdups\<rparr>"

definition path_request :: "operation \<Rightarrow> string \<Rightarrow> Request" where
  "path_request op path = (list_request path)\<lparr>rq_Operation := op\<rparr>"

definition demo_opts :: PolicyCheckOpts where
  "demo_opts = \<lparr>op_RootPrivsRequired = False, op_Unauth = False\<rparr>"

definition demo_acl :: "Policy list \<Rightarrow> (string \<times> ACLPermissions) list ACL" where
  "demo_acl policies =
     (case NewACL demo_env alist_radix (Inr (Some root_ns)) (map Some policies) of
        Inr a \<Rightarrow> a
      | Inl _ \<Rightarrow> empty_ACL alist_radix)"

abbreviation "both \<equiv> [reader, denier]"

lemma demo_build:
  "NewACL demo_env alist_radix (Inr (Some root_ns)) (map Some both) = Inr (demo_acl both)"
  by (simp add: demo_acl_def NewACL_def reader_def denier_def demo_policy_def)

lemma demo_rules: "all_rules (map Some both) = po_Paths reader @ po_Paths denier"
  by (simp add: reader_def denier_def demo_policy_def)

lemma demo_deny_alone: "list_all deny_alone (all_rules (map Some both))"
  by (simp add: demo_rules reader_def denier_def demo_policy_def bits_rule_def deny_alone_def denied_def no_permissions_def)

theorem merge_grants_witness:
  "slot_ok (all_rules (map Some both)) (Exact ''secret/x'') (acl_get alist_radix (demo_acl both) (Exact ''secret/x''))"
  by (rule merge_grants [OF alist_radix_ok demo_build demo_deny_alone])

definition verdict :: "Request \<Rightarrow> bool option" where
  "verdict req = map_option ar_Allowed (performPolicyChecksSinglePath demo_env alist_radix
     (Some (demo_acl both)) (Inr root_ns) req demo_opts)"

lemma demo_read: "verdict (path_request ReadOperation ''secret/y'') = Some True"
  by code_simp

theorem authority_from_policies_witness:
  "verdict (path_request ReadOperation ''secret/y'') = Some True
   \<and> (\<exists>s. concerns ReadOperation ''secret/y'' s \<and> grants (all_rules (map Some both)) s ReadCapabilityInt)"
proof -
  let ?req = "path_request ReadOperation ''secret/y''"
  obtain res where res: "performPolicyChecksSinglePath demo_env alist_radix (Some (demo_acl both))
      (Inr root_ns) ?req demo_opts = Some res" "ar_Allowed res"
    using demo_read by (auto simp: verdict_def)
  have op: "rq_Operation ?req = ReadOperation" "request_path root_ns ?req = ''secret/y''"
    by (simp_all add: path_request_def list_request_def request_path_def root_ns_def)
  have "\<not> op_Unauth demo_opts" by (simp add: demo_opts_def)
  from authority_from_policies [OF alist_radix_ok demo_build demo_deny_alone this res] demo_read op
  show ?thesis by (auto simp: operation_capability_def)
qed

theorem exact_deny_refuses_witness:
  "\<exists>res. performPolicyChecksSinglePath demo_env alist_radix (Some (demo_acl both)) (Inr root_ns)
     (path_request ReadOperation ''secret/x'') demo_opts = Some res \<and> \<not> ar_Allowed res"
proof (rule exact_deny_refuses [OF alist_radix_ok demo_build demo_deny_alone])
  show "bits_rule ''secret/x'' DenyCapabilityInt False False \<in> set (all_rules (map Some both))"
    by (simp add: demo_rules denier_def demo_policy_def)
qed (simp_all add: bits_rule_def slot_of_def request_path_def root_ns_def path_request_def list_request_def
    demo_opts_def denied_def no_permissions_def)

definition one_rule :: "(string \<times> ACLPermissions) list \<Rightarrow> (string \<times> ACLPermissions) list ACL" where
  "one_rule wps = (empty_ACL alist_radix)\<lparr>segmentWildcardPaths := wps\<rparr>"

lemma one_rule_get: "acl_get alist_radix (one_rule wps) (Wild p) = map_of wps p"
  by (simp add: one_rule_def)

theorem nonexact_winner_witness:
  "\<exists>r. CheckAllowedFromNonExactPaths alist_radix (one_rule [(''+/x'', no_permissions)]) ''secret/x'' False = Some r
    \<and> r \<noteq> None"
proof -
  let ?a = "one_rule [(''+/x'', no_permissions)]"
  have "wilds_ok ?a" by (simp add: wilds_ok_def one_rule_def)
  moreover have "covers ''secret/x'' (Wild ''+/x'')" by code_simp
  ultimately show ?thesis
    using nonexact_winner [OF alist_radix_ok, of ?a "''secret/x''"] one_rule_get [of _ "''+/x''"]
    by (metis inexact.simps(3) map_of_Cons_code(2) option.distinct(1))
qed

theorem wildcard_order_irrelevant_witness:
  "CheckAllowedFromNonExactPaths alist_radix
     (one_rule [(''secret/+'', no_permissions\<lparr>ap_CapabilitiesBitmap := 1\<rparr>), (''+/x'', no_permissions)]) ''secret/x'' False =
   CheckAllowedFromNonExactPaths alist_radix
     (one_rule [(''+/x'', no_permissions), (''secret/+'', no_permissions\<lparr>ap_CapabilitiesBitmap := 1\<rparr>)]) ''secret/x'' False"
  by (rule conjunct1 [OF wildcard_order_irrelevant]) (simp_all add: one_rule_def add_mset_commute)

theorem root_policy_alone_witness:
  "acl_root (demo_acl [demo_policy ''root'' []])
   \<and> (\<exists>ns. Inr (Some root_ns) = (Inr (Some ns) :: err + Namespace option) \<and> ns_ID ns = RootNamespaceID)"
proof -
  have "NewACL demo_env alist_radix (Inr (Some root_ns)) (map Some [demo_policy ''root'' []]) =
      Inr (demo_acl [demo_policy ''root'' []])"
    by (simp add: demo_acl_def NewACL_def demo_policy_def root_ns_def RootNamespaceID_def)
  from root_policy_alone [OF this] show ?thesis by (simp add: root_policy_def demo_policy_def)
qed

theorem nonexact_never_panics_witness:
  "CheckAllowedFromNonExactPaths alist_radix (demo_acl both) ''secret/'' True \<noteq> None"
  by (rule nonexact_never_panics) simp

lemma demo_denied: "parameter_denied demo_env (params_of (Some [(''ttl'', [])])) [(''ttl'', GStr ''2h'')]"
  by code_simp

theorem denied_parameters_merge_witness:
  "parameter_denied demo_env (params_of (merge_parameters (Some [(''ttl'', [])]) (Some [(''ttl'', [GStr ''1h''])])))
     [(''ttl'', GStr ''2h'')]"
  by (subst denied_parameters_merge) (simp_all add: demo_denied, simp add: params_of_def)

theorem capabilities_report_witness:
  "\<exists>res caps. AllowOperation demo_env alist_radix (demo_acl both) (Inr root_ns)
       (path_request ReadOperation ''secret/y'') False = Some res
     \<and> Capabilities demo_env alist_radix (demo_acl both) (Inr root_ns) ''secret/y'' = Some caps
     \<and> (re_Allowed res \<longleftrightarrow> caps = [RootCapability] \<or> ReadCapability \<in> set caps)"
proof -
  let ?req = "path_request ReadOperation ''secret/y''"
  have "list_all (\<lambda>pc. unlimited (pc_Permissions pc)) (all_rules (map Some both))"
    by (simp add: demo_rules reader_def denier_def demo_policy_def bits_rule_def unlimited_def
        no_permissions_def params_of_def)
  moreover have "operation_capability (rq_Operation ?req) = Some ReadCapabilityInt" "rq_Path ?req = ''secret/y''"
    "\<not> has_suffix (request_path root_ns ?req) ''/''"
    by (simp_all add: path_request_def operation_capability_def request_path_def list_request_def root_ns_def has_suffix_def)
  moreover have "(ReadCapability, ReadCapabilityInt) \<in> set cap2Int" by (simp add: cap2Int_def)
  ultimately show ?thesis
    using capabilities_report [OF alist_radix_ok demo_build demo_deny_alone, of ?req ReadCapabilityInt ReadCapability root_ns]
    by simp
qed

section \<open>A policy text\<close>

definition demo_policy_env :: policy_env where
  "demo_policy_env = \<lparr>pe_populate = (\<lambda>_ s. Inr s), pe_validate = (\<lambda>_. Inr False), pe_parseDuration = (\<lambda>_. Inr 60)\<rparr>"

definition demo_item :: "string \<Rightarrow> string list \<Rightarrow> PathItem" where
  "demo_item key caps =
     \<lparr>it_Key = Some key, it_Attributes = [''capabilities''],
      it_Decoded = Inr \<lparr>hc_Policy = [], hc_Capabilities = caps, hc_MinWrappingTTL = None,
        hc_MaxWrappingTTL = Some (GStr ''1m''), hc_AllowedParameters = None, hc_DeniedParameters = None,
        hc_RequiredParameters = [], hc_MFAMethods = None, hc_ControlGroup = None, hc_SubscribeEventTypes = []\<rparr>\<rparr>"

definition demo_rules_parsed :: "err + bool" where
  "demo_rules_parsed = map_sum id (\<lambda>_. True)
     (parsePaths demo_policy_env False root_ns [demo_item ''/secret/*'' [''read''], demo_item ''secret/x'' [''deny'']])"

lemma demo_parses: "demo_rules_parsed = Inr True"
  by code_simp

theorem parsed_rules_wf_witness:
  "\<exists>pcs t. parsePaths demo_policy_env False root_ns [demo_item ''/secret/*'' [''read''], demo_item ''secret/x'' [''deny'']]
       = Inr (pcs, t) \<and> list_all (rule_wf root_ns) pcs"
proof -
  obtain pcs t where "parsePaths demo_policy_env False root_ns
      [demo_item ''/secret/*'' [''read''], demo_item ''secret/x'' [''deny'']] = Inr (pcs, t)"
    using demo_parses unfolding demo_rules_parsed_def by (auto simp: map_sum_def split: sum.splits)
  moreover have "canonical_ns root_ns" by (simp add: canonical_ns_def root_ns_def)
  ultimately show ?thesis using parsed_rules_wf by blast
qed

section \<open>A path with a trailing slash\<close>

text \<open>
  Capabilities are looked up as for a list request, which ignores a trailing slash. With a rule
  for \<open>secret/foo\<close> alone, reading is reported for \<open>secret/foo/\<close>, but such a request is refused.
\<close>

definition slash_acl :: "(string \<times> ACLPermissions) list ACL" where
  "slash_acl = demo_acl [demo_policy ''foo'' [bits_rule ''secret/foo'' ReadCapabilityInt False False]]"

lemma report_trailing_slash:
  "Capabilities demo_env alist_radix slash_acl (Inr root_ns) ''secret/foo/'' = Some [ReadCapability]"
  "map_option re_Allowed (AllowOperation demo_env alist_radix slash_acl (Inr root_ns)
     (path_request ReadOperation ''secret/foo/'') False) = Some False"
  by code_simp+

end
