(* ===== verification/GF256.thy ===== *)
theory GF256
  imports Complex_Main "HOL-Library.Word"
begin

text \<open>
  The arithmetic in GF(2^8) of \<open>shamir/shamir.go\<close>: addition, the branch-free multiplication loop,
  the addition chain of the inverse, and division. The bytes with these operations are a field;
  \<open>gf256\<close> makes them an instance of the class, so that the library's facts on polynomials apply.
\<close>

unbundle bit_operations_syntax

type_synonym byte = "8 word"

section \<open>The operations\<close>

definition gf_add :: "byte \<Rightarrow> byte \<Rightarrow> byte" where
  "gf_add a b = a XOR b"

definition mult_step :: "byte \<Rightarrow> byte \<Rightarrow> nat \<Rightarrow> byte \<Rightarrow> byte" where
  "mult_step a b i r =
     (- (drop_bit i b AND 1) AND a) XOR (- drop_bit 7 r AND 0x1B) XOR (r + r)"

fun mult_loop :: "byte \<Rightarrow> byte \<Rightarrow> nat \<Rightarrow> byte \<Rightarrow> byte" where
  "mult_loop a b 0 r = r"
| "mult_loop a b (Suc i) r = mult_loop a b i (mult_step a b i r)"

definition gf_mult :: "byte \<Rightarrow> byte \<Rightarrow> byte" where
  "gf_mult a b = mult_loop a b 8 0"

definition gf_inverse :: "byte \<Rightarrow> byte" where
  "gf_inverse a =
     (let b = gf_mult a a;
          c = gf_mult a b;
          b = gf_mult c c;
          b = gf_mult b b;
          c = gf_mult b c;
          b = gf_mult b b;
          b = gf_mult b b;
          b = gf_mult b c;
          b = gf_mult b b;
          b = gf_mult a b
      in gf_mult b b)"

text \<open>Division panics on a zero divisor, which is the result \<open>None\<close>.\<close>

definition gf_div :: "byte \<Rightarrow> byte \<Rightarrow> byte option" where
  "gf_div a b =
     (if b = 0 then None
      else (let ret = gf_mult a (gf_inverse b) in Some (if a = 0 then 0 else ret)))"

section \<open>Multiplication is bilinear\<close>

definition xtime :: "byte \<Rightarrow> byte" where
  "xtime r = (if bit r 7 then 0x1B else 0) XOR (r + r)"

definition pick :: "bool \<Rightarrow> byte \<Rightarrow> byte" where
  "pick c a = (if c then a else 0)"

lemma neg_and_bit: "- (drop_bit i b AND 1) AND a = pick (bit b i) a" for a b :: byte
proof -
  have "drop_bit i b AND 1 = of_bool (bit b i)"
    by (simp add: and_one_eq bit_iff_odd_drop_bit mod2_eq_if)
  then show ?thesis by (simp add: pick_def)
qed

lemma top_bit: "drop_bit 7 r = of_bool (bit r 7)" for r :: byte
proof (rule bit_word_eqI)
  fix n :: nat
  show "bit (drop_bit 7 r) n = bit (of_bool (bit r 7) :: byte) n"
    by (cases "n = 0") (auto simp: bit_simps dest: bit_imp_le_length)
qed

lemma mult_step_eq: "mult_step a b i r = pick (bit b i) a XOR xtime r"
proof -
  have "- drop_bit 7 r AND 0x1B = (if bit r 7 then 0x1B else 0)"
    by (simp add: top_bit)
  then show ?thesis by (simp add: mult_step_def neg_and_bit xtime_def xor.assoc)
qed

lemma double_shift: "r + r = push_bit 1 r" for r :: byte
  by (simp add: push_bit_eq_mult)

lemma xtime_xor: "xtime (r XOR s) = xtime r XOR xtime s"
  by (rule bit_word_eqI) (auto simp: xtime_def double_shift bit_simps)

lemma xtime_0 [simp]: "xtime 0 = 0"
  by (simp add: xtime_def)

lemma pick_xor: "pick c (a XOR a') = pick c a XOR pick c a'"
  by (simp add: pick_def)

lemma pick_bits: "pick (bit (b XOR b') i) a = pick (bit b i) a XOR pick (bit b' i) a"
  by (auto simp: pick_def bit_simps)

lemma xor_swap: "(a XOR b) XOR (c XOR d) = (a XOR c) XOR (b XOR d)" for a b c d :: byte
  by (metis xor.assoc xor.left_commute)

lemma mult_loop_left:
  "mult_loop (a XOR a') b n (r XOR r') = mult_loop a b n r XOR mult_loop a' b n r'"
  by (induction n arbitrary: r r') (simp_all add: mult_step_eq pick_xor xtime_xor xor_swap)

lemma mult_loop_right:
  "mult_loop a (b XOR b') n (r XOR r') = mult_loop a b n r XOR mult_loop a b' n r'"
  by (induction n arbitrary: r r') (simp_all add: mult_step_eq pick_bits xtime_xor xor_swap)

lemma gf_mult_xor_left: "gf_mult (a XOR a') b = gf_mult a b XOR gf_mult a' b"
  using mult_loop_left [of a a' b 8 0 0] by (simp add: gf_mult_def)

lemma gf_mult_xor_right: "gf_mult a (b XOR b') = gf_mult a b XOR gf_mult a b'"
  using mult_loop_right [of a b b' 8 0 0] by (simp add: gf_mult_def)

lemma pick_xtime: "pick c (xtime a) = xtime (pick c a)"
  by (simp add: pick_def)

lemma mult_loop_xtime: "mult_loop (xtime a) b n (xtime r) = xtime (mult_loop a b n r)"
  by (induction n arbitrary: r) (simp_all add: mult_step_eq pick_xtime flip: xtime_xor)

lemma gf_mult_xtime: "gf_mult (xtime a) b = xtime (gf_mult a b)"
  using mult_loop_xtime [of a b 8 0] by (simp add: gf_mult_def)

lemma gf_mult_0 [simp]: "gf_mult 0 b = 0" "gf_mult a 0 = 0"
  using gf_mult_xor_left [of 0 0 b] gf_mult_xor_right [of a 0 0] by simp_all

section \<open>Induction on the bits of a byte\<close>

lemma take_bit_step: "take_bit (Suc n) b = take_bit n b XOR (if bit b n then 2 ^ n else 0)" for b :: byte
  by (rule bit_word_eqI) (auto simp: bit_simps less_Suc_eq)

lemma byte_induct:
  assumes "P 0" "\<And>a b. P a \<Longrightarrow> P b \<Longrightarrow> P (a XOR b)" "\<And>i. i < 8 \<Longrightarrow> P (2 ^ i)"
  shows "P (b :: byte)"
proof -
  have "n \<le> 8 \<Longrightarrow> P (take_bit n b)" for n
    by (induction n) (auto simp: take_bit_step intro!: assms)
  moreover have "take_bit 8 b = b"
    by (rule bit_word_eqI) (simp add: bit_simps)
  ultimately show ?thesis by (metis order_refl)
qed

lemma xtime_pow_xor: "(xtime ^^ n) (r XOR s) = (xtime ^^ n) r XOR (xtime ^^ n) s"
  by (induction n) (simp_all add: xtime_xor)

lemma xtime_pow_0 [simp]: "(xtime ^^ n) 0 = 0"
  by (induction n) simp_all

lemma mult_loop_power:
  "j < 8 \<Longrightarrow> mult_loop a (2 ^ j) n r = (xtime ^^ n) r XOR (if j < n then (xtime ^^ j) a else 0)"
proof (induction n arbitrary: r)
  case (Suc n)
  then show ?case
    by (auto simp: mult_step_eq pick_def bit_exp_iff xtime_pow_xor funpow_swap1 less_Suc_eq xor.commute)
qed simp

lemma gf_mult_power: "j < 8 \<Longrightarrow> gf_mult a (2 ^ j) = (xtime ^^ j) a"
  by (simp add: gf_mult_def mult_loop_power)

lemma xtime_power: "i < 7 \<Longrightarrow> xtime (2 ^ i) = 2 ^ Suc i"
  by (simp add: xtime_def bit_exp_iff)

lemma power_xtime: "i < 8 \<Longrightarrow> 2 ^ i = (xtime ^^ i) 1"
proof (induction i)
  case (Suc i)
  then show ?case using xtime_power [of i] by (simp del: power_Suc)
qed simp

lemma gf_mult_comm: "gf_mult a b = gf_mult b a"
proof (induction a arbitrary: b rule: byte_induct)
  case (3 i)
  show ?case
  proof (induction b rule: byte_induct)
    case (3 j)
    with \<open>i < 8\<close> show ?case
      by (simp only: gf_mult_power) (simp only: power_xtime funpow_add [symmetric, THEN fun_cong, unfolded o_apply] add.commute)
  qed (simp_all add: gf_mult_xor_left gf_mult_xor_right)
qed (simp_all add: gf_mult_xor_left gf_mult_xor_right)

lemma gf_mult_xtime_right: "gf_mult a (xtime b) = xtime (gf_mult a b)"
  by (metis gf_mult_comm gf_mult_xtime)

lemma gf_mult_xtime_pow: "gf_mult a ((xtime ^^ n) b) = (xtime ^^ n) (gf_mult a b)"
  by (induction n) (simp_all add: gf_mult_xtime_right)

lemma gf_mult_assoc: "gf_mult (gf_mult a b) c = gf_mult a (gf_mult b c)"
  by (induction c rule: byte_induct) (simp_all add: gf_mult_xor_right gf_mult_power gf_mult_xtime_pow)

lemma gf_mult_1 [simp]: "gf_mult a 1 = a"
  using gf_mult_power [of 0 a] by simp

section \<open>Squaring and the inverse\<close>

definition square :: "byte \<Rightarrow> byte" where
  "square a = gf_mult a a"

lemma square_xor: "square (a XOR b) = square a XOR square b"
proof -
  have "square (a XOR b) = (square a XOR square b) XOR (gf_mult a b XOR gf_mult b a)"
    by (simp add: square_def gf_mult_xor_left gf_mult_xor_right xor.assoc xor.left_commute xor.commute)
  then show ?thesis by (simp add: gf_mult_comm [of b a])
qed

lemma square_pick: "square (pick c a) = pick c (square a)"
  by (simp add: pick_def square_def)

lemma gf_mult_unfold:
  "gf_mult a b = mult_step a b 0 (mult_step a b 1 (mult_step a b 2 (mult_step a b 3
     (mult_step a b 4 (mult_step a b 5 (mult_step a b 6 (mult_step a b 7 0)))))))"
  by (simp add: gf_mult_def eval_nat_numeral)

lemma square_powers:
  "square 1 = 1" "square 2 = 4" "square 4 = 16" "square 8 = 64" "square 16 = 0x1B" "square 32 = 0x6C"
  "square 64 = 0xAB" "square 128 = 0x9A"
  by (simp_all add: square_def gf_mult_unfold mult_step_def)

lemma bit_pick: "bit (pick c a) n \<longleftrightarrow> c \<and> bit a n"
  by (simp add: pick_def)

lemma less_8: "n < 8 \<Longrightarrow> n = 0 \<or> n = 1 \<or> n = 2 \<or> n = 3 \<or> n = 4 \<or> n = 5 \<or> n = 6 \<or> n = 7" for n :: nat
  by auto

lemma byte_expand:
  "b = pick (bit b 0) 1 XOR pick (bit b 1) 2 XOR pick (bit b 2) 4 XOR pick (bit b 3) 8
     XOR pick (bit b 4) 16 XOR pick (bit b 5) 32 XOR pick (bit b 6) 64 XOR pick (bit b 7) 128"
proof (rule bit_word_eqI)
  fix n :: nat
  assume "n < LENGTH(8)"
  then have "n = 0 \<or> n = 1 \<or> n = 2 \<or> n = 3 \<or> n = 4 \<or> n = 5 \<or> n = 6 \<or> n = 7"
    using less_8 by simp
  then show "bit b n = bit (pick (bit b 0) 1 XOR pick (bit b 1) 2 XOR pick (bit b 2) 4
      XOR pick (bit b 3) 8 XOR pick (bit b 4) 16 XOR pick (bit b 5) 32 XOR pick (bit b 6) 64
      XOR pick (bit b 7) 128) n"
    by (elim disjE) (simp_all add: bit_xor_iff bit_pick)
qed

lemma square_expand:
  "square b = pick (bit b 0) 1 XOR pick (bit b 1) 4 XOR pick (bit b 2) 16 XOR pick (bit b 3) 64
     XOR pick (bit b 4) 0x1B XOR pick (bit b 5) 0x6C XOR pick (bit b 6) 0xAB XOR pick (bit b 7) 0x9A"
  by (subst byte_expand [of b]) (simp only: square_xor square_pick square_powers)

lemma idempotent: "square e = e \<Longrightarrow> e = 0 \<or> e = 1"
proof -
  assume e: "square e = e"
  have "bit (square e) n = bit e n" for n by (simp add: e)
  from this [of 0] this [of 1] this [of 2] this [of 3] this [of 4] this [of 5] this [of 6] this [of 7]
  have "\<not> bit e 1 \<and> \<not> bit e 2 \<and> \<not> bit e 3 \<and> \<not> bit e 4 \<and> \<not> bit e 5 \<and> \<not> bit e 6 \<and> \<not> bit e 7"
    by (simp add: square_expand bit_xor_iff bit_pick) blast
  then show ?thesis
    using byte_expand [of e] by (simp add: pick_def split: if_splits)
qed

section \<open>The field\<close>

typedef gf256 = "UNIV :: byte set" morphisms byte_of gf_of ..

setup_lifting type_definition_gf256

instantiation gf256 :: comm_ring_1
begin

lift_definition zero_gf256 :: gf256 is 0 .
lift_definition one_gf256 :: gf256 is 1 .
lift_definition plus_gf256 :: "gf256 \<Rightarrow> gf256 \<Rightarrow> gf256" is gf_add .
lift_definition minus_gf256 :: "gf256 \<Rightarrow> gf256 \<Rightarrow> gf256" is gf_add .
lift_definition uminus_gf256 :: "gf256 \<Rightarrow> gf256" is id .
lift_definition times_gf256 :: "gf256 \<Rightarrow> gf256 \<Rightarrow> gf256" is gf_mult .

instance
proof
  fix a b c :: gf256
  show "a * b * c = a * (b * c)" by transfer (rule gf_mult_assoc)
  show "a * b = b * a" by transfer (rule gf_mult_comm)
  show "1 * a = a" by transfer (simp add: gf_mult_comm [of 1])
  show "a + b + c = a + (b + c)" by transfer (simp add: gf_add_def xor.assoc)
  show "a + b = b + a" by transfer (simp add: gf_add_def xor.commute)
  show "0 + a = a" by transfer (simp add: gf_add_def)
  show "- a + a = 0" by transfer (simp add: gf_add_def)
  show "a - b = a + - b" by transfer simp
  show "(a + b) * c = a * c + b * c" by transfer (simp add: gf_add_def gf_mult_xor_left)
  show "(0::gf256) \<noteq> 1" by transfer simp
qed

end

lemma funpow_8: "(f ^^ 8) x = f (f (f (f (f (f (f (f x)))))))"
  by (simp add: eval_nat_numeral)

lemma square_power_8: "(square ^^ 8) b = b"
proof -
  have xor: "(square ^^ n) (a XOR b) = (square ^^ n) a XOR (square ^^ n) b" for n a b
    by (induction n) (simp_all add: square_xor)
  have "(square ^^ n) 0 = 0" for n by (induction n) (simp_all add: square_def)
  moreover have "(square ^^ 8) (2 ^ i) = 2 ^ i" if "i < 8" for i
    using less_8 [OF that]
    by (elim disjE) (simp_all add: funpow_8 square_def gf_mult_unfold mult_step_def)
  ultimately show ?thesis
    by (induction b rule: byte_induct) (simp_all add: xor)
qed

lemma byte_of_square: "byte_of (a ^ 2 ^ n) = (square ^^ n) (byte_of a)"
proof (induction n)
  case (Suc n)
  have "a ^ 2 ^ Suc n = a ^ 2 ^ n * a ^ 2 ^ n"
    by (simp add: mult_2 flip: power_add)
  then show ?case by (simp add: times_gf256.rep_eq square_def Suc)
qed simp

lemma power_256: "a ^ 256 = a" for a :: gf256
proof -
  have "byte_of (a ^ 2 ^ 8) = byte_of a" by (simp only: byte_of_square square_power_8)
  then show ?thesis by (simp add: byte_of_inject)
qed

lemma idempotent_gf256: "e * e = e \<Longrightarrow> e = 0 \<or> e = 1" for e :: gf256
  by transfer (use idempotent in \<open>simp add: square_def\<close>)

lemma power_255: "a \<noteq> 0 \<Longrightarrow> a ^ 255 = 1" for a :: gf256
proof -
  assume a: "a \<noteq> 0"
  have "a ^ 255 * a ^ 255 = a ^ 256 * a ^ 254" by (simp flip: power_add)
  also have "\<dots> = a ^ 255" by (simp add: power_256 flip: power_Suc)
  finally have "a ^ 255 = 0 \<or> a ^ 255 = 1" by (rule idempotent_gf256)
  moreover have "a * a ^ 255 = a" using power_256 [of a] by (simp flip: power_Suc)
  ultimately show ?thesis using a by auto
qed

lift_definition chain :: "gf256 \<Rightarrow> gf256" is gf_inverse .

lemma chain_power: "chain a = a ^ 254"
proof -
  have "chain a =
     (let b = a * a; c = a * b; b = c * c; b = b * b; c = b * c; b = b * b; b = b * b; b = b * c;
          b = b * b; b = a * b in b * b)"
    by transfer (simp add: gf_inverse_def Let_def)
  also have "\<dots> = a ^ 254"
    by (simp add: Let_def power2_eq_square [symmetric] flip: power_mult power_add power_Suc power_Suc2)
  finally show ?thesis .
qed

instantiation gf256 :: field
begin

definition inverse_gf256 :: "gf256 \<Rightarrow> gf256" where
  "inverse a = chain a"

definition divide_gf256 :: "gf256 \<Rightarrow> gf256 \<Rightarrow> gf256" where
  "a div b = a * chain b"

instance
proof
  fix a b :: gf256
  show "a \<noteq> 0 \<Longrightarrow> inverse a * a = 1"
    using power_255 [of a] by (simp add: inverse_gf256_def chain_power flip: power_Suc2)
  show "a div b = a * inverse b" by (simp add: divide_gf256_def inverse_gf256_def)
  show "inverse (0 :: gf256) = 0" by (simp add: inverse_gf256_def chain_power)
qed

end

section \<open>The reference: products of polynomials modulo a polynomial\<close>

text \<open>
  A byte is a polynomial over GF(2) of degree below 8. \<open>clmul\<close> multiplies two of them without
  carries, and \<open>reduce\<close> subtracts multiples of x^8 + x^4 + x^3 + x + 1, highest degree first.
\<close>

fun clmul :: "nat \<Rightarrow> byte \<Rightarrow> byte \<Rightarrow> 16 word" where
  "clmul 0 a b = 0"
| "clmul (Suc n) a b = clmul n a b XOR (if bit b n then push_bit n (ucast a) else 0)"

fun reduce :: "nat \<Rightarrow> 16 word \<Rightarrow> 16 word" where
  "reduce 0 r = r"
| "reduce (Suc k) r = reduce k (if bit r (8 + k) then r XOR push_bit k 0x11B else r)"

definition poly_mult :: "byte \<Rightarrow> byte \<Rightarrow> byte" where
  "poly_mult a b = ucast (reduce 7 (clmul 8 a b))"

lemma xor_swap16: "(a XOR b) XOR (c XOR d) = (a XOR c) XOR (b XOR d)" for a b c d :: "16 word"
  by (metis xor.assoc xor.left_commute)

lemma xor_cancel16: "(a XOR c) XOR (b XOR c) = a XOR b" for a b c :: "16 word"
  by (metis xor_swap16 xor_self_eq xor.right_neutral)

lemma ucast_xor: "ucast (a XOR b) = (ucast a XOR ucast b :: 16 word)" for a b :: byte
  by (rule bit_word_eqI) (auto simp: bit_simps)

lemma ucast_xor8: "ucast (a XOR b) = (ucast a XOR ucast b :: byte)" for a b :: "16 word"
  by (rule bit_word_eqI) (auto simp: bit_simps)

lemma clmul_left: "clmul n (a XOR a') b = clmul n a b XOR clmul n a' b"
  by (induction n) (simp_all add: ucast_xor push_bit_xor xor_swap16)

lemma clmul_right: "clmul n a (b XOR b') = clmul n a b XOR clmul n a b'"
  by (induction n) (auto simp: bit_xor_iff xor_swap16 xor_cancel16 xor.assoc xor.commute xor.left_commute)

lemma reduce_xor: "reduce k (r XOR s) = reduce k r XOR reduce k s"
proof (induction k arbitrary: r s)
  case (Suc k)
  have "(if bit (r XOR s) (8 + k) then (r XOR s) XOR push_bit k 0x11B else r XOR s) =
      (if bit r (8 + k) then r XOR push_bit k 0x11B else r) XOR
      (if bit s (8 + k) then s XOR push_bit k 0x11B else s)"
    by (auto simp: bit_xor_iff xor_cancel16 xor.assoc xor.commute xor.left_commute)
  then show ?case by (simp add: Suc del: push_bit_numeral)
qed simp

lemma poly_mult_left: "poly_mult (a XOR a') b = poly_mult a b XOR poly_mult a' b"
  by (simp add: poly_mult_def clmul_left reduce_xor ucast_xor8)

lemma poly_mult_right: "poly_mult a (b XOR b') = poly_mult a b XOR poly_mult a b'"
  by (simp add: poly_mult_def clmul_right reduce_xor ucast_xor8)

lemma poly_mult_0 [simp]: "poly_mult 0 b = 0" "poly_mult a 0 = 0"
  using poly_mult_left [of 0 0 b] poly_mult_right [of a 0 0] by simp_all

lemma clmul_power: "j < 8 \<Longrightarrow> clmul n a (2 ^ j) = (if j < n then push_bit j (ucast a) else 0)"
  by (induction n) (auto simp: bit_exp_iff less_Suc_eq)

definition reduce_step :: "nat \<Rightarrow> 16 word \<Rightarrow> 16 word" where
  "reduce_step k r = (if bit r (8 + k) then r XOR push_bit k 0x11B else r)"

lemma reduce_unfold:
  "reduce 7 r = reduce_step 0 (reduce_step 1 (reduce_step 2 (reduce_step 3 (reduce_step 4
     (reduce_step 5 (reduce_step 6 r))))))"
proof -
  have "reduce (Suc k) r = reduce k (reduce_step k r)" for k r
    by (simp add: reduce_step_def)
  then show ?thesis by (simp add: eval_nat_numeral(2,3) del: reduce.simps(2))
qed

lemma poly_mult_power: "i < 8 \<Longrightarrow> j < 8 \<Longrightarrow> poly_mult (2 ^ i) (2 ^ j) = gf_mult (2 ^ i) (2 ^ j)"
proof (drule less_8, drule less_8)
  have push: "poly_mult a (2 ^ j) = ucast (reduce 7 (push_bit j (ucast a)))" if "j < 8" for a j
    using that by (simp add: poly_mult_def clmul_power)
  assume "i = 0 \<or> i = 1 \<or> i = 2 \<or> i = 3 \<or> i = 4 \<or> i = 5 \<or> i = 6 \<or> i = 7"
    "j = 0 \<or> j = 1 \<or> j = 2 \<or> j = 3 \<or> j = 4 \<or> j = 5 \<or> j = 6 \<or> j = 7"
  then show ?thesis
    by (elim disjE; hypsubst; subst push)
       (simp_all add: reduce_unfold reduce_step_def gf_mult_unfold mult_step_def)
qed

lemma gf_mult_poly: "gf_mult a b = poly_mult a b"
proof (induction a arbitrary: b rule: byte_induct)
  case (3 i)
  then show ?case
  proof (induction b rule: byte_induct)
    case (3 j)
    then show ?case by (simp add: poly_mult_power)
  qed (simp_all add: gf_mult_xor_right poly_mult_right)
qed (simp_all add: gf_mult_xor_left poly_mult_left)

section \<open>Bytes and field elements\<close>

lemma gf_of_ops [simp]:
  "gf_of (gf_add a b) = gf_of a + gf_of b" "gf_of (gf_mult a b) = gf_of a * gf_of b"
  "gf_of 0 = 0" "gf_of 1 = 1" "gf_of (byte_of x) = x" "byte_of (gf_of a) = a"
  by (simp_all add: plus_gf256.abs_eq times_gf256.abs_eq zero_gf256.abs_eq one_gf256.abs_eq
      byte_of_inverse gf_of_inverse)

lemma gf_of_eq [simp]: "gf_of a = gf_of b \<longleftrightarrow> a = b" "gf_of a = 0 \<longleftrightarrow> a = 0"
  by (metis gf_of_ops(6), metis gf_of_ops(3,6))

lemma gf_add_self [simp]: "gf_add a a = 0" and gf_add_eq_0: "gf_add a b = 0 \<longleftrightarrow> a = b"
proof -
  show "gf_add a a = 0" by (simp add: gf_add_def)
  show "gf_add a b = 0 \<longleftrightarrow> a = b"
    unfolding gf_add_def by (metis xor.assoc xor.left_neutral xor.right_neutral xor_self_eq)
qed

lemma gf_div_eq: "gf_div a b = (if b = 0 then None else Some (byte_of (gf_of a / gf_of b)))"
  by (auto simp: gf_div_def Let_def divide_gf256_def chain.abs_eq times_gf256.rep_eq eq_onp_def)

lemma gf_div_undo:
  assumes "b \<noteq> 0"
  shows "gf_div (gf_mult a b) b = Some a" "gf_mult b (gf_inverse b) = 1"
proof -
  have "gf_of b * chain (gf_of b) = 1" using assms by (simp flip: inverse_gf256_def)
  then have "gf_of (gf_mult b (gf_inverse b)) = gf_of 1" by (simp add: chain.abs_eq)
  then show "gf_mult b (gf_inverse b) = 1" by (simp only: gf_of_eq)
  show "gf_div (gf_mult a b) b = Some a" using assms by (simp add: gf_div_eq)
qed

text \<open>
  C40. The arithmetic of bytes. The branch-free multiplication loop computes the product of
  polynomials over GF(2) modulo x^8 + x^4 + x^3 + x + 1. Division panics exactly for the divisor
  zero and otherwise undoes multiplication, so the addition chain of the inverse computes
  inverses.
\<close>

theorem gf_arithmetic:
  "gf_mult a b = poly_mult a b \<and> (gf_div a b = None \<longleftrightarrow> b = 0)
   \<and> (b \<noteq> 0 \<longrightarrow> gf_div (gf_mult a b) b = Some a \<and> gf_mult b (gf_inverse b) = 1)"
  using gf_mult_poly gf_div_undo by (simp add: gf_div_eq)

theorem gf_arithmetic_witness: "gf_div (gf_mult 0x53 0xCA) 0xCA = Some 0x53"
proof -
  have "(0xCA :: 8 word) \<noteq> 0" by simp
  then show ?thesis using gf_arithmetic [of "0x53" "0xCA"] by blast
qed

end
