(* ===== verification/Shamir.thy ===== *)
theory Shamir
  imports GF256
begin

text \<open>
  Shamir's secret sharing as in \<open>shamir/shamir.go\<close>, which splits the unseal key. Random
  coefficients and the permutation of the x coordinates are parameters: \<open>rand k n\<close> is what the
  k-th call of \<open>rand.Read\<close> with a buffer of \<open>n\<close> bytes delivers, or an error, and \<open>perm\<close> the value of
  \<open>mathrand.Perm(255)\<close>.
\<close>

section \<open>The operations\<close>

text \<open>A Go call panics, fails with an error, or returns.\<close>

datatype 'a outcome = Panic | Fail string | Return 'a

primrec and_then :: "'a outcome \<Rightarrow> ('a \<Rightarrow> 'b outcome) \<Rightarrow> 'b outcome" where
  "and_then Panic f = Panic"
| "and_then (Fail e) f = Fail e"
| "and_then (Return x) f = f x"

record polynomial =
  coefficients :: "byte list"

type_synonym rand_source = "nat \<Rightarrow> nat \<Rightarrow> byte list option"

text \<open>The buffer has \<open>degree + 1\<close> bytes, computed in eight bits.\<close>

definition makePolynomial :: "rand_source \<Rightarrow> nat \<Rightarrow> byte \<Rightarrow> byte \<Rightarrow> polynomial outcome" where
  "makePolynomial rand k intercept degree =
     (let n = unat (degree + 1) in
      if n = 0 then Panic
      else (case rand k (n - 1) of
              None \<Rightarrow> Fail ''rand''
            | Some bs \<Rightarrow> Return \<lparr>coefficients = intercept # bs\<rparr>))"

fun horner_loop :: "byte list \<Rightarrow> byte \<Rightarrow> nat \<Rightarrow> byte \<Rightarrow> byte" where
  "horner_loop cs x 0 out = out"
| "horner_loop cs x (Suc i) out = horner_loop cs x i (gf_add (gf_mult out x) (cs ! i))"

definition evaluate :: "polynomial \<Rightarrow> byte \<Rightarrow> byte" where
  "evaluate p x =
     (if x = 0 then coefficients p ! 0
      else (let degree = length (coefficients p) - 1
            in horner_loop (coefficients p) x degree (coefficients p ! degree)))"

fun basis_loop :: "byte list \<Rightarrow> byte \<Rightarrow> nat \<Rightarrow> nat list \<Rightarrow> byte \<Rightarrow> byte outcome" where
  "basis_loop x_samples x i [] basis = Return basis"
| "basis_loop x_samples x i (j # js) basis =
     (if i = j then basis_loop x_samples x i js basis
      else (case gf_div (gf_add x (x_samples ! j)) (gf_add (x_samples ! i) (x_samples ! j)) of
              None \<Rightarrow> Panic
            | Some t \<Rightarrow> basis_loop x_samples x i js (gf_mult basis t)))"

fun interpolate_loop :: "byte list \<Rightarrow> byte list \<Rightarrow> byte \<Rightarrow> nat list \<Rightarrow> byte \<Rightarrow> byte outcome" where
  "interpolate_loop x_samples y_samples x [] result = Return result"
| "interpolate_loop x_samples y_samples x (i # is) result =
     and_then (basis_loop x_samples x i [0..<length x_samples] 1)
       (\<lambda>basis. if i < length y_samples
               then interpolate_loop x_samples y_samples x is
                      (gf_add result (gf_mult (y_samples ! i) basis))
               else Panic)"

definition interpolatePolynomial :: "byte list \<Rightarrow> byte list \<Rightarrow> byte \<Rightarrow> byte outcome" where
  "interpolatePolynomial x_samples y_samples x =
     interpolate_loop x_samples y_samples x [0..<length x_samples] 0"

text \<open>One polynomial for each byte of the secret; the first error of the source ends the loop.\<close>

fun poly_loop :: "rand_source \<Rightarrow> nat \<Rightarrow> byte list \<Rightarrow> byte \<Rightarrow> polynomial list outcome" where
  "poly_loop rand k [] degree = Return []"
| "poly_loop rand k (val # secret) degree =
     (case makePolynomial rand k val degree of
        Panic \<Rightarrow> Panic
      | Fail e \<Rightarrow> Fail (''failed to generate polynomial: '' @ e)
      | Return p \<Rightarrow> and_then (poly_loop rand (Suc k) secret degree) (\<lambda>ps. Return (p # ps)))"

definition share_x :: "nat list \<Rightarrow> nat \<Rightarrow> byte" where
  "share_x perm i = word_of_nat (perm ! i) + 1"

definition share :: "nat list \<Rightarrow> polynomial list \<Rightarrow> nat \<Rightarrow> byte list" where
  "share perm ps i = map (\<lambda>p. evaluate p (share_x perm i)) ps @ [share_x perm i]"

definition Split :: "rand_source \<Rightarrow> nat list \<Rightarrow> byte list \<Rightarrow> int \<Rightarrow> int \<Rightarrow> byte list list outcome" where
  "Split rand perm secret parts threshold =
     (if parts < threshold then Fail ''parts cannot be less than threshold''
      else if parts > 255 then Fail ''parts cannot exceed 255''
      else if threshold < 2 then Fail ''threshold must be at least 2''
      else if threshold > 255 then Fail ''threshold cannot exceed 255''
      else if secret = [] then Fail ''cannot split an empty secret''
      else and_then (poly_loop rand 0 secret (word_of_int (threshold - 1)))
             (\<lambda>ps. Return (map (share perm ps) [0..<nat parts])))"

fun sample_loop :: "nat \<Rightarrow> byte list \<Rightarrow> byte list list \<Rightarrow> byte list outcome" where
  "sample_loop n seen [] = Return []"
| "sample_loop n seen (part # parts) =
     (let samp = part ! n in
      if samp \<in> set seen then Fail ''duplicate part detected''
      else and_then (sample_loop n (samp # seen) parts) (\<lambda>xs. Return (samp # xs)))"

fun secret_loop :: "byte list \<Rightarrow> byte list list \<Rightarrow> nat list \<Rightarrow> byte list outcome" where
  "secret_loop x_samples parts [] = Return []"
| "secret_loop x_samples parts (idx # idxs) =
     and_then (interpolatePolynomial x_samples (map (\<lambda>part. part ! idx) parts) 0)
       (\<lambda>val. and_then (secret_loop x_samples parts idxs) (\<lambda>vals. Return (val # vals)))"

definition Combine :: "byte list list \<Rightarrow> byte list outcome" where
  "Combine parts =
     (if length parts < 2 then Fail ''less than two parts cannot be used to reconstruct the secret''
      else let firstPartLen = length (parts ! 0) in
        if firstPartLen < 2 then Fail ''parts must be at least two bytes''
        else if list_ex (\<lambda>part. length part \<noteq> firstPartLen) (tl parts)
        then Fail ''all parts must be the same length''
        else and_then (sample_loop (firstPartLen - 1) [] parts)
               (\<lambda>x_samples. secret_loop x_samples parts [0..<firstPartLen - 1]))"

section \<open>Polynomial functions over a field\<close>

definition poly_fun :: "nat \<Rightarrow> ('a::field \<Rightarrow> 'a) \<Rightarrow> bool" where
  "poly_fun d f \<longleftrightarrow> (\<exists>c. \<forall>x. f x = (\<Sum>i\<le>d. c i * x ^ i))"

lemma poly_fun_const: "poly_fun d (\<lambda>_. a)"
  unfolding poly_fun_def
  by (rule exI [of _ "\<lambda>i. if i = 0 then a else 0"])
     (auto simp: sum.delta if_distrib [of "\<lambda>c. c * _"] cong: if_cong)

lemma poly_fun_add: "poly_fun d f \<Longrightarrow> poly_fun d g \<Longrightarrow> poly_fun d (\<lambda>x. f x + g x)"
  unfolding poly_fun_def
proof (elim exE)
  fix c e assume "\<forall>x. f x = (\<Sum>i\<le>d. c i * x ^ i)" "\<forall>x. g x = (\<Sum>i\<le>d. e i * x ^ i)"
  then show "\<exists>b. \<forall>x. f x + g x = (\<Sum>i\<le>d. b i * x ^ i)"
    by (intro exI [of _ "\<lambda>i. c i + e i"]) (simp add: sum.distrib distrib_right)
qed

lemma poly_fun_scale: "poly_fun d f \<Longrightarrow> poly_fun d (\<lambda>x. a * f x)"
  unfolding poly_fun_def
proof (elim exE)
  fix c assume "\<forall>x. f x = (\<Sum>i\<le>d. c i * x ^ i)"
  then show "\<exists>b. \<forall>x. a * f x = (\<Sum>i\<le>d. b i * x ^ i)"
    by (intro exI [of _ "\<lambda>i. a * c i"]) (simp add: sum_distrib_left mult.assoc)
qed

lemma poly_fun_shift: "poly_fun d f \<Longrightarrow> poly_fun (Suc d) (\<lambda>x. x * f x)"
  unfolding poly_fun_def
proof (elim exE)
  fix c assume "\<forall>x. f x = (\<Sum>i\<le>d. c i * x ^ i)"
  then show "\<exists>b. \<forall>x. x * f x = (\<Sum>i\<le>Suc d. b i * x ^ i)"
    by (intro exI [of _ "\<lambda>i. if i = 0 then 0 else c (i - 1)"])
       (simp add: sum.atMost_Suc_shift sum_distrib_left mult.left_commute del: sum.atMost_Suc)
qed

lemma poly_fun_mono: "poly_fun d f \<Longrightarrow> d \<le> e \<Longrightarrow> poly_fun e f"
  unfolding poly_fun_def
proof (elim exE)
  fix c assume c: "\<forall>x. f x = (\<Sum>i\<le>d. c i * x ^ i)" and "d \<le> e"
  then have "(\<Sum>i\<le>e. (if i \<le> d then c i else 0) * x ^ i) = (\<Sum>i\<le>d. c i * x ^ i)" for x
    by (intro sum.mono_neutral_cong_right) auto
  with c show "\<exists>b. \<forall>x. f x = (\<Sum>i\<le>e. b i * x ^ i)"
    by (intro exI [of _ "\<lambda>i. if i \<le> d then c i else 0"]) simp
qed

lemma poly_fun_linear: "poly_fun d f \<Longrightarrow> poly_fun (Suc d) (\<lambda>x. f x * (a * (x - b)))"
proof -
  assume f: "poly_fun d f"
  have "poly_fun (Suc d) (\<lambda>x. a * (x * f x) + (- (a * b)) * f x)"
    by (intro poly_fun_add poly_fun_scale poly_fun_shift poly_fun_mono [OF f] f) simp
  then show ?thesis by (simp add: algebra_simps)
qed

lemma poly_fun_zero:
  assumes "poly_fun d f" "finite S" "d < card S" "\<And>x. x \<in> S \<Longrightarrow> f x = 0"
  shows "f x = 0"
  using assms
proof (induction d arbitrary: f S x)
  case 0
  then obtain c where "\<forall>x. f x = c" by (auto simp: poly_fun_def)
  moreover from 0 obtain y where "y \<in> S" by fastforce
  ultimately show ?case using 0(4) by auto
next
  case (Suc d)
  from Suc(2) obtain c where c: "\<And>x. f x = (\<Sum>i\<le>Suc d. c i * x ^ i)" unfolding poly_fun_def by blast
  from Suc(4) obtain a where a: "a \<in> S" by fastforce
  have "(\<Sum>i\<le>Suc d. c i * a ^ i) = 0" using Suc(5) [OF a] by (simp only: c)
  then obtain b where b: "\<And>z. (\<Sum>i\<le>Suc d. c i * z ^ i) = (z - a) * (\<Sum>i<Suc d. b i * z ^ i)"
    using polyfun_linear_factor_root [where c = c and n = "Suc d" and a = a] by blast
  have "(\<Sum>i\<le>d. b i * x ^ i) = 0" for x
  proof (rule Suc.IH [of "\<lambda>x. \<Sum>i\<le>d. b i * x ^ i" "S - {a}"])
    show "poly_fun d (\<lambda>x. \<Sum>i\<le>d. b i * x ^ i)" unfolding poly_fun_def by blast
    show "(\<Sum>i\<le>d. b i * z ^ i) = 0" if "z \<in> S - {a}" for z
      using that Suc(5) [of z] b [of z] by (auto simp: c lessThan_Suc_atMost simp del: sum.atMost_Suc)
  qed (use Suc a in auto)
  then show ?case by (simp only: c b lessThan_Suc_atMost mult_zero_right)
qed

section \<open>Lagrange interpolation\<close>

definition lagrange :: "'a::field list \<Rightarrow> 'a list \<Rightarrow> 'a \<Rightarrow> 'a" where
  "lagrange xs ys x =
     (\<Sum>i<length xs. ys ! i * (\<Prod>j \<in> {..<length xs} - {i}. (x - xs ! j) / (xs ! i - xs ! j)))"

lemma poly_fun_prod:
  assumes "finite J"
  shows "poly_fun (card J) (\<lambda>x. \<Prod>j\<in>J. (x - a j) / b j)"
  using assms
proof (induction J)
  case (insert j J)
  from poly_fun_linear [OF insert(3), of "1 / b j" "a j"] insert(1,2) show ?case
    by (simp add: mult.commute)
qed (simp add: poly_fun_const)

lemma poly_fun_sum: "finite I \<Longrightarrow> (\<And>i. i \<in> I \<Longrightarrow> poly_fun d (f i)) \<Longrightarrow> poly_fun d (\<lambda>x. \<Sum>i\<in>I. f i x)"
  by (induction I rule: finite_induct) (auto intro: poly_fun_const poly_fun_add)

lemma poly_fun_lagrange:
  assumes "length xs = Suc d"
  shows "poly_fun d (lagrange xs ys)"
proof -
  have "card ({..<length xs} - {i}) = d" if "i < length xs" for i
    using assms that by simp
  then have "poly_fun d (\<lambda>x. \<Prod>j \<in> {..<length xs} - {i}. (x - xs ! j) / (xs ! i - xs ! j))"
    if "i < length xs" for i
    using poly_fun_prod [of "{..<length xs} - {i}" "\<lambda>j. xs ! j" "\<lambda>j. xs ! i - xs ! j"] that by simp
  then show ?thesis
    unfolding lagrange_def by (intro poly_fun_sum poly_fun_scale) auto
qed

lemma lagrange_at:
  assumes "distinct xs" "k < length xs"
  shows "lagrange xs ys (xs ! k) = ys ! k"
proof -
  let ?n = "length xs"
  have "(\<Prod>j \<in> {..<?n} - {i}. (xs ! k - xs ! j) / (xs ! i - xs ! j)) = of_bool (i = k)"
    if "i < ?n" for i
  proof (cases "i = k")
    case True
    have "(xs ! k - xs ! j) / (xs ! k - xs ! j) = 1" if "j \<in> {..<?n} - {k}" for j
      using that assms by (simp add: nth_eq_iff_index_eq)
    with True show ?thesis by (simp add: prod.neutral)
  next
    case False
    then have "k \<in> {..<?n} - {i}" using assms by simp
    then show ?thesis using False by (auto intro!: prod_zero)
  qed
  then have "lagrange xs ys (xs ! k) = (\<Sum>i<?n. if i = k then ys ! i else 0)"
    unfolding lagrange_def by (intro sum.cong) (simp_all only: lessThan_iff, simp)
  then show ?thesis using assms(2) by simp
qed

lemma lagrange_unique:
  assumes "poly_fun d f" "d < length xs" "distinct xs"
  shows "lagrange xs (map f xs) x = f x"
proof -
  obtain e where e: "length xs = Suc e" using assms(2) by (cases "length xs") auto
  have "poly_fun e (\<lambda>x. lagrange xs (map f xs) x + (- 1) * f x)"
    using assms(1,2) e
    by (intro poly_fun_add poly_fun_lagrange poly_fun_scale poly_fun_mono [OF assms(1)]) auto
  then have "lagrange xs (map f xs) x + (- 1) * f x = 0"
  proof (rule poly_fun_zero)
    show "e < card (set xs)" using assms(3) e by (simp add: distinct_card)
    show "lagrange xs (map f xs) z + (- 1) * f z = 0" if "z \<in> set xs" for z
      using that assms(3) lagrange_at [of xs _ "map f xs"] by (auto simp: in_set_conv_nth)
  qed simp
  then show ?thesis by simp
qed

section \<open>The code computes in the field\<close>

lemma gf_minus: "a - b = a + b" for a b :: gf256
  by transfer simp

lemma horner_sum:
  "i < length cs \<Longrightarrow>
   gf_of (horner_loop cs x i out) = gf_of out * gf_of x ^ i + (\<Sum>k<i. gf_of (cs ! k) * gf_of x ^ k)"
  by (induction i arbitrary: out) (simp_all add: algebra_simps)

lemma evaluate_sum:
  assumes "coefficients p \<noteq> []"
  shows "gf_of (evaluate p x) =
    (\<Sum>k<length (coefficients p). gf_of (coefficients p ! k) * gf_of x ^ k)"
proof (cases "x = 0")
  case True
  with assms show ?thesis by (cases "coefficients p") (simp_all add: evaluate_def sum.lessThan_Suc_shift del: sum.lessThan_Suc)
next
  case False
  obtain n where n: "length (coefficients p) = Suc n" using assms by (cases "coefficients p") auto
  with False show ?thesis by (simp add: evaluate_def Let_def horner_sum)
qed

lemma basis_product:
  assumes "distinct xs" "i < length xs" "distinct js" "set js \<subseteq> {..<length xs}"
  shows "basis_loop xs x i js basis = Return (byte_of (gf_of basis *
    (\<Prod>j \<in> set js - {i}. (gf_of x - gf_of (xs ! j)) / (gf_of (xs ! i) - gf_of (xs ! j)))))"
  using assms(3,4)
proof (induction js arbitrary: basis)
  case (Cons j js)
  have ne: "gf_add (xs ! i) (xs ! j) \<noteq> 0" if "i \<noteq> j"
    using that assms(1,2) Cons(3) by (simp add: gf_add_eq_0 nth_eq_iff_index_eq)
  have "set (j # js) - {i} = (if i = j then set js - {i} else insert j (set js - {i}))" by auto
  with Cons ne show ?case
    by (auto simp: gf_div_eq gf_minus mult.assoc)
qed simp

lemma interpolate_sum:
  assumes "distinct xs" "length ys = length xs" "distinct is" "set is \<subseteq> {..<length xs}"
  shows "interpolate_loop xs ys x is result = Return (byte_of (gf_of result +
    (\<Sum>i \<in> set is. gf_of (ys ! i) * (\<Prod>j \<in> {..<length xs} - {i}.
       (gf_of x - gf_of (xs ! j)) / (gf_of (xs ! i) - gf_of (xs ! j))))))"
  using assms(3,4)
proof (induction "is" arbitrary: result)
  case (Cons i "is")
  have "set [0..<length xs] = {..<length xs}" by auto
  with Cons assms(1,2) show ?case
    by (simp add: basis_product add.assoc)
qed simp

lemma interpolate_lagrange:
  assumes "distinct xs" "length ys = length xs"
  shows "interpolatePolynomial xs ys x = Return (byte_of (lagrange (map gf_of xs) (map gf_of ys) (gf_of x)))"
proof -
  have "set [0..<length xs] = {..<length xs}" by auto
  with assms show ?thesis
    unfolding interpolatePolynomial_def lagrange_def
    by (subst interpolate_sum) (auto intro!: arg_cong [where f = byte_of] sum.cong prod.cong)
qed

section \<open>Combine\<close>

lemma sample_loop_eq:
  "sample_loop n seen parts =
    (if distinct (map (\<lambda>p. p ! n) parts) \<and> set (map (\<lambda>p. p ! n) parts) \<inter> set seen = {}
     then Return (map (\<lambda>p. p ! n) parts) else Fail ''duplicate part detected'')"
  by (induction parts arbitrary: seen) (auto simp: Let_def)

definition intercept_at :: "byte list \<Rightarrow> byte list list \<Rightarrow> nat \<Rightarrow> byte" where
  "intercept_at xs parts idx =
     byte_of (lagrange (map gf_of xs) (map (\<lambda>part. gf_of (part ! idx)) parts) 0)"

lemma secret_loop_eq:
  assumes "distinct xs" "length xs = length parts"
  shows "secret_loop xs parts idxs = Return (map (intercept_at xs parts) idxs)"
  by (induction idxs) (simp_all add: assms interpolate_lagrange intercept_at_def comp_def)

definition well_formed_parts :: "byte list list \<Rightarrow> bool" where
  "well_formed_parts parts \<longleftrightarrow> 2 \<le> length parts \<and> 2 \<le> length (parts ! 0)
     \<and> list_all (\<lambda>part. length part = length (parts ! 0)) parts
     \<and> distinct (map last parts)"

lemma last_tags:
  "list_all (\<lambda>part. length part = n) parts \<Longrightarrow> 0 < n \<Longrightarrow>
   map (\<lambda>p. p ! (n - 1)) parts = map last parts"
  by (induction parts) (auto simp: last_conv_nth)

lemma Combine_eq:
  "well_formed_parts parts \<Longrightarrow>
   Combine parts = Return (map (intercept_at (map last parts) parts) [0..<length (parts ! 0) - 1])"
  "\<not> well_formed_parts parts \<Longrightarrow> \<exists>e. Combine parts = Fail e"
proof -
  let ?n = "length (parts ! 0)"
  have same: "\<not> list_ex (\<lambda>part. length part \<noteq> ?n) (tl parts) \<longleftrightarrow>
      list_all (\<lambda>part. length part = ?n) parts" if "2 \<le> length parts"
    using that by (cases parts) (auto simp: list_ex_iff list_all_iff)
  note tags = last_tags [of ?n parts]
  show "Combine parts = Return (map (intercept_at (map last parts) parts) [0..<?n - 1])"
    if "well_formed_parts parts"
  proof -
    have "map (\<lambda>p. p ! (?n - 1)) parts = map last parts"
      using that by (intro tags) (auto simp: well_formed_parts_def)
    with that same show ?thesis
      by (simp add: Combine_def Let_def well_formed_parts_def sample_loop_eq secret_loop_eq
          del: map_eq_conv One_nat_def)
  qed
  show "\<exists>e. Combine parts = Fail e" if "\<not> well_formed_parts parts"
  proof (cases "2 \<le> length parts \<and> 2 \<le> ?n \<and> list_all (\<lambda>part. length part = ?n) parts")
    case True
    then have "map (\<lambda>p. p ! (?n - 1)) parts = map last parts" by (intro tags) auto
    with that True same show ?thesis
      by (simp add: Combine_def Let_def well_formed_parts_def sample_loop_eq
          del: map_eq_conv One_nat_def)
  next
    case False
    with same show ?thesis by (auto simp: Combine_def Let_def)
  qed
qed

text \<open>
  C32. Combine is total. It never panics, whatever bytes it is given: the division by zero that
  would panic is excluded by the check for duplicate tags. It returns a secret exactly for at
  least two parts of one length above one with pairwise different last bytes.
\<close>

theorem combine_total:
  "Combine parts \<noteq> Panic \<and> ((\<exists>secret. Combine parts = Return secret) \<longleftrightarrow> well_formed_parts parts)"
  using Combine_eq [of parts] by (cases "well_formed_parts parts") auto

section \<open>Split\<close>

definition perm_ok :: "nat list \<Rightarrow> bool" where
  "perm_ok perm \<longleftrightarrow> distinct perm \<and> set perm = {..<255}"

definition rand_ok :: "rand_source \<Rightarrow> bool" where
  "rand_ok rand \<longleftrightarrow> (\<forall>k n bs. rand k n = Some bs \<longrightarrow> length bs = n)"

lemma unat_share_x: "perm_ok perm \<Longrightarrow> i < 255 \<Longrightarrow> unat (share_x perm i) = Suc (perm ! i)"
proof -
  assume p: "perm_ok perm" "i < 255"
  then have "length perm = 255" by (metis card_lessThan distinct_card perm_ok_def)
  then have "perm ! i < 255" using p nth_mem [of i perm] by (auto simp: perm_ok_def)
  then show ?thesis
    by (simp add: share_x_def unat_word_ariths unat_of_nat)
qed

lemma share_x_distinct:
  assumes "perm_ok perm" "i < 255" "j < 255"
  shows "share_x perm i = share_x perm j \<longleftrightarrow> i = j"
proof -
  have "length perm = 255" using assms(1) by (metis card_lessThan distinct_card perm_ok_def)
  then have "perm ! i = perm ! j \<longleftrightarrow> i = j"
    using assms by (simp add: perm_ok_def nth_eq_iff_index_eq)
  then show ?thesis using unat_share_x [OF assms(1)] assms(2,3) by (metis Suc_inject)
qed

lemma share_x_nonzero: "perm_ok perm \<Longrightarrow> i < 255 \<Longrightarrow> share_x perm i \<noteq> 0"
  using unat_share_x [of perm i] by auto

definition poly_for :: "nat \<Rightarrow> byte \<Rightarrow> polynomial \<Rightarrow> bool" where
  "poly_for t val p \<longleftrightarrow> length (coefficients p) = t \<and> coefficients p ! 0 = val"

lemma poly_loop_Return:
  assumes "rand_ok rand" "unat (degree + 1) = t" "0 < t" "poly_loop rand k secret degree = Return ps"
  shows "list_all2 (poly_for t) secret ps"
  using assms(4)
proof (induction secret arbitrary: k ps)
  case (Cons val secret)
  obtain bs where bs: "rand k (t - 1) = Some bs" "length bs = t - 1"
    using Cons(2) assms(1,2,3)
    by (auto simp: makePolynomial_def Let_def rand_ok_def split: option.splits)
  then have "poly_for t val \<lparr>coefficients = val # bs\<rparr>" using assms(3) by (simp add: poly_for_def)
  with Cons bs assms(2,3) show ?case
    by (cases "poly_loop rand (Suc k) secret degree") (auto simp: makePolynomial_def Let_def)
qed simp

lemma poly_loop_no_panic:
  "unat (degree + 1) \<noteq> 0 \<Longrightarrow> poly_loop rand k secret degree \<noteq> Panic"
proof (induction secret arbitrary: k)
  case (Cons val secret)
  then show ?case
    by (cases "poly_loop rand (Suc k) secret degree")
       (auto simp: makePolynomial_def Let_def split: option.splits)
qed simp

lemma poly_loop_succeeds:
  "\<forall>k n. rand k n \<noteq> None \<Longrightarrow> unat (degree + 1) \<noteq> 0 \<Longrightarrow> \<exists>ps. poly_loop rand k secret degree = Return ps"
proof (induction secret arbitrary: k)
  case (Cons val secret)
  obtain ps where "poly_loop rand (Suc k) secret degree = Return ps" using Cons by blast
  moreover obtain bs where "rand k (unat (degree + 1) - 1) = Some bs" using Cons.prems(1) by blast
  ultimately show ?case using Cons.prems(2) by (simp add: makePolynomial_def Let_def)
qed simp

lemma degree_width:
  "2 \<le> threshold \<Longrightarrow> threshold \<le> 255 \<Longrightarrow> unat (word_of_int (threshold - 1) + 1 :: byte) = nat threshold"
proof -
  assume t: "2 \<le> threshold" "threshold \<le> 255"
  have "word_of_int (threshold - 1) + 1 = (word_of_int threshold :: byte)"
    by (simp add: wi_hom_syms)
  with t show ?thesis by (simp add: unat_eq_nat_uint uint_word_of_int)
qed

definition split_args_ok :: "byte list \<Rightarrow> int \<Rightarrow> int \<Rightarrow> bool" where
  "split_args_ok secret parts threshold \<longleftrightarrow>
     2 \<le> threshold \<and> threshold \<le> parts \<and> parts \<le> 255 \<and> secret \<noteq> []"

lemma Split_Return:
  assumes "rand_ok rand" "Split rand perm secret parts threshold = Return shares"
  obtains ps where "split_args_ok secret parts threshold" "shares = map (share perm ps) [0..<nat parts]"
    "list_all2 (poly_for (nat threshold)) secret ps"
proof -
  from assms(2) have ok: "split_args_ok secret parts threshold"
    by (auto simp: Split_def split_args_ok_def split: if_splits)
  then obtain ps where ps: "poly_loop rand 0 secret (word_of_int (threshold - 1)) = Return ps"
    "shares = map (share perm ps) [0..<nat parts]"
    using assms(2)
    by (cases "poly_loop rand 0 secret (word_of_int (threshold - 1))")
       (auto simp: Split_def split_args_ok_def)
  have "list_all2 (poly_for (nat threshold)) secret ps"
    using ok by (intro poly_loop_Return [OF assms(1) _ _ ps(1)] degree_width)
      (auto simp: split_args_ok_def)
  with ok ps(2) show ?thesis by (rule that)
qed

section \<open>Reconstruction\<close>

lemma poly_for_fun:
  assumes "poly_for (Suc d) val p"
  shows "poly_fun d (\<lambda>x. gf_of (evaluate p (byte_of x)))" "evaluate p 0 = val"
proof -
  have "gf_of (evaluate p (byte_of x)) = (\<Sum>k\<le>d. gf_of (coefficients p ! k) * x ^ k)" for x
    using assms by (subst evaluate_sum) (auto simp: poly_for_def lessThan_Suc_atMost)
  then show "poly_fun d (\<lambda>x. gf_of (evaluate p (byte_of x)))"
    unfolding poly_fun_def by (intro exI [of _ "\<lambda>k. gf_of (coefficients p ! k)"]) simp
  show "evaluate p 0 = val" using assms by (simp add: poly_for_def evaluate_def)
qed

lemma intercept_shares:
  assumes "list_all2 (poly_for (Suc d)) secret ps" "idx < length secret"
    "d < length ks" "distinct (map (share_x perm) ks)"
  shows "intercept_at (map (share_x perm) ks) (map (share perm ps) ks) idx = secret ! idx"
proof -
  let ?p = "ps ! idx"
  have p: "poly_for (Suc d) (secret ! idx) ?p" and len: "idx < length ps"
    using assms(1,2) by (auto simp: list_all2_conv_all_nth)
  let ?f = "\<lambda>x. gf_of (evaluate ?p (byte_of x))"
  let ?xs = "map gf_of (map (share_x perm) ks)"
  have "map (\<lambda>part. gf_of (part ! idx)) (map (share perm ps) ks) = map ?f ?xs"
    using len by (simp add: share_def nth_append)
  note ys = this
  have "lagrange ?xs (map ?f ?xs) 0 = ?f 0"
    using assms(3,4) by (intro lagrange_unique [OF poly_for_fun(1) [OF p]])
      (simp_all add: distinct_map inj_on_def)
  then show ?thesis
    unfolding intercept_at_def ys using poly_for_fun(2) [OF p] by (simp add: zero_gf256.rep_eq)
qed

lemma parts_indices:
  assumes "set qs \<subseteq> set (map f [0..<n])"
  obtains ks where "qs = map f ks" "set ks \<subseteq> {..<n}"
proof -
  have "\<exists>ks. qs = map f ks \<and> set ks \<subseteq> {..<n}"
    using assms
  proof (induction qs)
    case (Cons q qs)
    then obtain ks i where "qs = map f ks" "set ks \<subseteq> {..<n}" "q = f i" "i < n" by fastforce
    then show ?case by (intro exI [of _ "i # ks"]) simp
  qed simp
  with that show ?thesis by blast
qed

lemma shares_combine:
  assumes "perm_ok perm" "list_all2 (poly_for (Suc d)) secret ps" "secret \<noteq> []" "1 \<le> d"
    "d < length ks" "distinct ks" "set ks \<subseteq> {..<255}"
  shows "Combine (map (share perm ps) ks) = Return secret"
proof -
  let ?parts = "map (share perm ps) ks"
  have len: "length ps = length secret" using assms(2) by (simp add: list_all2_lengthD)
  have tags: "map last ?parts = map (share_x perm) ks" by (simp add: share_def)
  have dist: "distinct (map (share_x perm) ks)"
    using assms(6,7) share_x_distinct [OF assms(1)] by (auto simp: distinct_map inj_on_def subset_iff)
  have n: "length (?parts ! 0) = Suc (length secret)"
    using assms(5) len by (cases ks) (auto simp: share_def)
  have "well_formed_parts ?parts"
    unfolding well_formed_parts_def tags n
    using assms(3-5) dist len by (cases secret) (auto simp: share_def list_all_iff)
  from Combine_eq(1) [OF this] have "Combine ?parts =
      Return (map (intercept_at (map (share_x perm) ks) ?parts) [0..<length secret])"
    unfolding tags n by simp
  also have "map (intercept_at (map (share_x perm) ks) ?parts) [0..<length secret] =
      map (\<lambda>i. secret ! i) [0..<length secret]"
    using intercept_shares [OF assms(2) _ assms(5) dist] by simp
  finally show ?thesis by (simp add: map_nth)
qed

text \<open>
  C24. Any threshold of shares gives the secret back: whatever coefficients and coordinates were
  drawn, combining at least \<open>threshold\<close> different shares of a split, in any order, returns the
  secret that was split.
\<close>

theorem split_combine:
  assumes "rand_ok rand" "perm_ok perm" "Split rand perm secret parts threshold = Return shares"
    "set qs \<subseteq> set shares" "distinct qs" "threshold \<le> int (length qs)"
  shows "Combine qs = Return secret"
proof -
  obtain ps where ps: "split_args_ok secret parts threshold" "shares = map (share perm ps) [0..<nat parts]"
    "list_all2 (poly_for (nat threshold)) secret ps"
    using Split_Return [OF assms(1,3)] .
  obtain ks where ks: "qs = map (share perm ps) ks" "set ks \<subseteq> {..<nat parts}"
    using parts_indices assms(4) ps(2) by metis
  obtain d where d: "nat threshold = Suc d" "1 \<le> d"
    using ps(1) by (cases "nat threshold") (auto simp: split_args_ok_def)
  show ?thesis
    unfolding ks(1)
    using ps(1) ks assms(5,6) d
    by (intro shares_combine [OF assms(2) ps(3) [unfolded d(1)]])
       (auto simp: split_args_ok_def distinct_map)
qed

text \<open>
  C33. Split. It never panics, it refuses the arguments outside its documented ranges, and it
  succeeds on all others when the random source works. What it returns is the requested number
  of shares, each one byte longer than the secret, with pairwise different non-zero tags.
\<close>

theorem split_shape:
  assumes "rand_ok rand" "perm_ok perm"
  shows "Split rand perm secret parts threshold \<noteq> Panic
    \<and> (\<not> split_args_ok secret parts threshold \<longrightarrow> (\<exists>e. Split rand perm secret parts threshold = Fail e))
    \<and> (split_args_ok secret parts threshold \<and> (\<forall>k n. rand k n \<noteq> None) \<longrightarrow>
         (\<exists>shares. Split rand perm secret parts threshold = Return shares))
    \<and> (\<forall>shares. Split rand perm secret parts threshold = Return shares \<longrightarrow>
         int (length shares) = parts \<and> list_all (\<lambda>s. length s = length secret + 1 \<and> last s \<noteq> 0) shares
         \<and> distinct (map last shares))"
proof (intro conjI allI impI)
  show "Split rand perm secret parts threshold \<noteq> Panic"
  proof (cases "split_args_ok secret parts threshold")
    case True
    then have "unat (word_of_int (threshold - 1) + 1 :: byte) \<noteq> 0"
      using degree_width [of threshold] by (simp add: split_args_ok_def)
    from poly_loop_no_panic [OF this] show ?thesis
      by (cases "poly_loop rand 0 secret (word_of_int (threshold - 1))") (auto simp: Split_def)
  qed (auto simp: Split_def split_args_ok_def)
  show "\<exists>e. Split rand perm secret parts threshold = Fail e" if "\<not> split_args_ok secret parts threshold"
    using that by (auto simp: Split_def split_args_ok_def)
  show "\<exists>shares. Split rand perm secret parts threshold = Return shares"
    if ok: "split_args_ok secret parts threshold \<and> (\<forall>k n. rand k n \<noteq> None)"
  proof -
    have "unat (word_of_int (threshold - 1) + 1 :: byte) \<noteq> 0"
      using ok degree_width [of threshold] by (simp add: split_args_ok_def)
    with ok obtain ps where "poly_loop rand 0 secret (word_of_int (threshold - 1)) = Return ps"
      using poly_loop_succeeds by blast
    with ok show ?thesis by (auto simp: Split_def split_args_ok_def)
  qed
  fix shares assume "Split rand perm secret parts threshold = Return shares"
  then obtain ps where ps: "split_args_ok secret parts threshold"
    "shares = map (share perm ps) [0..<nat parts]" "list_all2 (poly_for (nat threshold)) secret ps"
    by (rule Split_Return [OF assms(1)])
  have len: "length ps = length secret" using ps(3) by (simp add: list_all2_lengthD)
  show "int (length shares) = parts" using ps by (simp add: split_args_ok_def)
  show "list_all (\<lambda>s. length s = length secret + 1 \<and> last s \<noteq> 0) shares"
    using ps(1) len share_x_nonzero [OF assms(2)]
    by (auto simp: ps(2) list_all_iff share_def split_args_ok_def)
  show "distinct (map last shares)"
    using ps(1) share_x_distinct [OF assms(2)]
    by (auto simp: ps(2) share_def split_args_ok_def distinct_map inj_on_def comp_def)
qed

section \<open>Secrecy\<close>

lemma poly_exists:
  assumes "distinct xs" "0 \<notin> set xs" "length ys = length xs"
  shows "\<exists>rs. length rs = length xs \<and> map (evaluate \<lparr>coefficients = s # rs\<rparr>) xs = ys"
proof -
  let ?n = "length xs" and ?xs = "map gf_of (0 # xs)" and ?ys = "map gf_of (s # ys)"
  have "poly_fun ?n (lagrange ?xs ?ys)" by (rule poly_fun_lagrange) simp
  then obtain c where c: "\<And>x. lagrange ?xs ?ys x = (\<Sum>i\<le>?n. c i * x ^ i)"
    unfolding poly_fun_def by blast
  have dist: "distinct ?xs" using assms(1,2) by (auto simp: distinct_map inj_on_def)
  have "lagrange ?xs ?ys (?xs ! 0) = ?ys ! 0" by (rule lagrange_at [OF dist]) simp
  then have c0: "c 0 = gf_of s" using c [of 0] by (simp add: power_0_left sum.delta if_distrib cong: if_cong)
  let ?cs = "map (\<lambda>i. byte_of (c i)) [0..<Suc ?n]"
  have cs: "?cs = s # map (\<lambda>i. byte_of (c i)) [1..<Suc ?n]"
    by (subst upt_conv_Cons) (simp_all add: c0)
  have ev: "gf_of (evaluate \<lparr>coefficients = ?cs\<rparr> x) = lagrange ?xs ?ys (gf_of x)" for x
    unfolding c by (subst evaluate_sum) (simp_all add: lessThan_Suc_atMost del: upt_Suc)
  have "evaluate \<lparr>coefficients = ?cs\<rparr> (xs ! k) = ys ! k" if "k < ?n" for k
  proof -
    have "lagrange ?xs ?ys (?xs ! Suc k) = ?ys ! Suc k"
      by (rule lagrange_at [OF dist]) (use that in simp)
    then have "gf_of (evaluate \<lparr>coefficients = ?cs\<rparr> (xs ! k)) = gf_of (ys ! k)"
      using that assms(3) by (simp add: ev del: upt_Suc)
    then show ?thesis by (simp only: gf_of_eq)
  qed
  then have "map (evaluate \<lparr>coefficients = ?cs\<rparr>) xs = ys"
    using assms(3) by (intro nth_equalityI) simp_all
  then show ?thesis
    unfolding cs by (intro exI [of _ "map (\<lambda>i. byte_of (c i)) [1..<Suc ?n]"]) (simp del: upt_Suc)
qed

lemma poly_unique:
  assumes "distinct xs" "0 \<notin> set xs" "length ys = length xs"
  shows "\<exists>!rs. length rs = length xs \<and> map (evaluate \<lparr>coefficients = s # rs\<rparr>) xs = ys"
proof -
  let ?L = "{rs :: byte list. length rs = length xs}"
  let ?F = "\<lambda>rs. map (evaluate \<lparr>coefficients = s # rs\<rparr>) xs"
  have "finite ?L"
    using finite_lists_length_eq [of "UNIV :: byte set" "length xs"] by simp
  moreover have "?L \<subseteq> ?F ` ?L"
  proof
    fix zs :: "byte list" assume "zs \<in> ?L"
    then show "zs \<in> ?F ` ?L" using poly_exists [OF assms(1,2), of zs s] by auto
  qed
  ultimately have "inj_on ?F ?L" by (rule finite_surj_inj)
  then show ?thesis
    using poly_exists [OF assms, of s] by (auto simp: inj_on_def)
qed

text \<open>Tags can be added until there are as many as coefficients.\<close>

lemma more_tags:
  assumes "distinct xs" "0 \<notin> set xs" "length xs \<le> n" "n \<le> 255"
  obtains zs where "length zs = n - length xs" "distinct (xs @ zs)" "0 \<notin> set (xs @ zs :: byte list)"
proof -
  let ?A = "UNIV - {0} - set xs"
  have "card (UNIV - {0} :: byte set) = 255" by (simp add: card_Diff_singleton card_word)
  then have "n - length xs \<le> card ?A"
    using assms by (subst card_Diff_subset) (auto simp: distinct_card)
  then obtain B where B: "B \<subseteq> ?A" "card B = n - length xs" "finite B"
    by (meson finite_subset obtain_subset_with_card_n finite)
  then obtain zs where z: "set zs = B" "distinct zs" using finite_distinct_list by blast
  have "length zs = n - length xs" using z B(2) distinct_card by metis
  moreover have "distinct (xs @ zs)" "0 \<notin> set (xs @ zs)" using z B(1) assms(1,2) by auto
  ultimately show ?thesis by (rule that)
qed

text \<open>
  C25. Fewer shares reveal nothing. Take any number of shares below the threshold, that is, the
  values of one share position at no more different tags than there are random coefficients.
  Whatever byte \<open>s\<close> the secret has at that position, the number of choices of the random
  coefficients that explain these shares is the same: 256 to the power of the number of missing
  shares. With uniformly drawn coefficients all secrets are equally likely.
\<close>

theorem shares_reveal_nothing:
  assumes "distinct xs" "0 \<notin> set xs" "length ys = length xs" "length xs \<le> n" "n \<le> 255"
  shows "card {rs. length rs = n \<and> map (evaluate \<lparr>coefficients = s # rs\<rparr>) xs = ys} = 256 ^ (n - length xs)"
proof -
  obtain zs where zs: "length zs = n - length xs" "distinct (xs @ zs)" "0 \<notin> set (xs @ zs)"
    using more_tags [OF assms(1,2,4,5)] .
  let ?S = "{rs. length rs = n \<and> map (evaluate \<lparr>coefficients = s # rs\<rparr>) xs = ys}"
  let ?F = "\<lambda>rs. map (evaluate \<lparr>coefficients = s # rs\<rparr>) zs"
  let ?L = "{vs :: byte list. set vs \<subseteq> UNIV \<and> length vs = n - length xs}"
  have n: "length (xs @ zs) = n" using zs(1) assms(4) by simp
  have one: "\<exists>!rs. rs \<in> ?S \<and> ?F rs = vs" if "vs \<in> ?L" for vs
  proof -
    have "length (ys @ vs) = length (xs @ zs)" using that assms(3) zs(1) by simp
    note u = poly_unique [OF zs(2,3) this, of s, unfolded n]
    have eq: "length rs = n \<and> map (evaluate \<lparr>coefficients = s # rs\<rparr>) (xs @ zs) = ys @ vs
        \<longleftrightarrow> rs \<in> ?S \<and> ?F rs = vs" for rs
      using assms(3) by (simp add: append_eq_append_conv)
    from u show ?thesis unfolding eq .
  qed
  have range: "?F rs \<in> ?L" for rs using zs(1) by simp
  have "bij_betw ?F ?S ?L"
    unfolding bij_betw_def
  proof
    show "inj_on ?F ?S"
    proof (rule inj_onI)
      fix rs rs' assume "rs \<in> ?S" "rs' \<in> ?S" "?F rs = ?F rs'"
      with one [OF range, of rs'] show "rs = rs'" by blast
    qed
    show "?F ` ?S = ?L"
    proof
      show "?L \<subseteq> ?F ` ?S"
      proof
        fix vs assume "vs \<in> ?L"
        from one [OF this] obtain rs where "rs \<in> ?S" "?F rs = vs" by blast
        then show "vs \<in> ?F ` ?S" by (intro image_eqI [of _ _ rs]) simp_all
      qed
    qed (use range in blast)
  qed
  then have "card ?S = card ?L" by (rule bij_betw_same_card)
  also have "\<dots> = 256 ^ (n - length xs)" by (subst card_lists_length_eq) (simp_all add: card_word)
  finally show ?thesis .
qed

section \<open>The theorems applied\<close>

definition demo_rand :: rand_source where
  "demo_rand k n = Some (replicate n (word_of_nat k + 7))"

definition demo_perm :: "nat list" where
  "demo_perm = [0..<255]"

lemma demo_sources: "rand_ok demo_rand" "perm_ok demo_perm"
  by (auto simp: rand_ok_def demo_rand_def perm_ok_def demo_perm_def)

definition demo_shares :: "byte list list" where
  "demo_shares = (case Split demo_rand demo_perm [0x2A, 0x10] 3 2 of Return s \<Rightarrow> s | _ \<Rightarrow> [])"

lemma demo_split: "Split demo_rand demo_perm [0x2A, 0x10] 3 2 = Return demo_shares"
  by (simp add: demo_shares_def Split_def makePolynomial_def demo_rand_def)

lemma demo_share_list: "\<exists>ps. demo_shares = [share demo_perm ps 0, share demo_perm ps 1, share demo_perm ps 2]"
proof -
  obtain ps where "demo_shares = map (share demo_perm ps) [0..<nat 3]"
    using Split_Return [OF demo_sources(1) demo_split] by blast
  then show ?thesis by (auto simp: upt_rec numeral_2_eq_2)
qed

theorem split_combine_witness: "Combine [demo_shares ! 2, demo_shares ! 0] = Return [0x2A, 0x10]"
proof -
  obtain ps where ps: "demo_shares = [share demo_perm ps 0, share demo_perm ps 1, share demo_perm ps 2]"
    using demo_share_list by blast
  have "share_x demo_perm 2 \<noteq> share_x demo_perm 0"
    using share_x_distinct [OF demo_sources(2), of 2 0] by simp
  then have "distinct [demo_shares ! 2, demo_shares ! 0]"
    by (auto simp: ps share_def)
  from split_combine [OF demo_sources demo_split _ this] show ?thesis by (simp add: ps)
qed

theorem split_shape_witness: "int (length demo_shares) = 3 \<and> distinct (map last demo_shares)"
  using split_shape [OF demo_sources, of "[0x2A, 0x10]" 3 2] demo_split by blast

theorem shares_reveal_nothing_witness:
  "card {rs. length rs = 2 \<and> map (evaluate \<lparr>coefficients = 0x2A # rs\<rparr>) [7] = [0x11]} = 256"
  using shares_reveal_nothing [of "[7]" "[0x11]" 2 "0x2A"] by simp

end
