(* ===== verification/Queue.thy ===== *)
theory Queue
  imports Main "HOL-Library.Multiset"
begin

text \<open>
  The keyed priority queue of \<open>sdk/queue/priority_queue.go\<close>. The slice and the map of the source
  hold pointers to the same items, and removal by key relies on the index that the heap
  operations write through these pointers, so the items live in an explicit store of addresses.
  The functions of \<open>container/heap\<close> that the queue calls are those of Go's library.
\<close>

section \<open>Data\<close>

text \<open>Priorities are only compared, so that the width of \<open>int64\<close> does not matter.\<close>

record 'v Item =
  it_Name :: string
  it_Value :: 'v
  it_Priority :: int
  it_index :: int

record 'v PriorityQueue =
  pq_items :: "nat \<Rightarrow> 'v Item"
  pq_fresh :: nat
  pq_data :: "nat list"
  pq_dataMap :: "string \<Rightarrow> nat option"

text \<open>
  The two error values of the package, the error of \<open>Push\<close> for a missing key, and an error of the
  deep copy.
\<close>

datatype queue_error = ErrEmpty | ErrDuplicateItem | ErrKeyRequired | ErrCopy string

section \<open>The slice as a heap interface\<close>

definition prio :: "'v PriorityQueue \<Rightarrow> nat \<Rightarrow> int" where
  "prio pq i = it_Priority (pq_items pq (pq_data pq ! i))"

definition queue_Less :: "'v PriorityQueue \<Rightarrow> nat \<Rightarrow> nat \<Rightarrow> bool" where
  "queue_Less pq i j \<longleftrightarrow> prio pq i < prio pq j"

definition set_index :: "nat \<Rightarrow> int \<Rightarrow> (nat \<Rightarrow> 'v Item) \<Rightarrow> (nat \<Rightarrow> 'v Item)" where
  "set_index a i items = items(a := (items a)\<lparr>it_index := i\<rparr>)"

definition queue_Swap :: "'v PriorityQueue \<Rightarrow> nat \<Rightarrow> nat \<Rightarrow> 'v PriorityQueue" where
  "queue_Swap pq i j =
     (let d = pq_data pq; d' = d[i := d ! j, j := d ! i] in
      pq\<lparr>pq_data := d', pq_items := set_index (d' ! j) (int j) (set_index (d' ! i) (int i) (pq_items pq))\<rparr>)"

definition queue_Push :: "'v PriorityQueue \<Rightarrow> nat \<Rightarrow> 'v PriorityQueue" where
  "queue_Push pq a =
     pq\<lparr>pq_items := set_index a (int (length (pq_data pq))) (pq_items pq), pq_data := pq_data pq @ [a]\<rparr>"

definition queue_Pop :: "'v PriorityQueue \<Rightarrow> nat \<times> 'v PriorityQueue" where
  "queue_Pop pq =
     (let a = last (pq_data pq) in
      (a, pq\<lparr>pq_items := set_index a (-1) (pq_items pq), pq_data := butlast (pq_data pq)\<rparr>))"

section \<open>Heap operations\<close>

definition parent :: "nat \<Rightarrow> nat" where
  "parent j = (j - 1) div 2"

function heap_up :: "'v PriorityQueue \<Rightarrow> nat \<Rightarrow> 'v PriorityQueue" where
  "heap_up pq j =
     (let i = parent j in
      if i = j \<or> \<not> queue_Less pq j i then pq else heap_up (queue_Swap pq i j) i)"
  by auto
termination by (relation "measure snd") (auto simp: parent_def)

text \<open>The smaller child of \<open>i\<close>, when there is one below \<open>n\<close>.\<close>

definition smaller_child :: "'v PriorityQueue \<Rightarrow> nat \<Rightarrow> nat \<Rightarrow> nat" where
  "smaller_child pq i n =
     (if 2 * i + 2 < n \<and> queue_Less pq (2 * i + 2) (2 * i + 1) then 2 * i + 2 else 2 * i + 1)"

function heap_down :: "'v PriorityQueue \<Rightarrow> nat \<Rightarrow> nat \<Rightarrow> 'v PriorityQueue \<times> nat" where
  "heap_down pq i n =
     (if 2 * i + 1 \<ge> n then (pq, i)
      else let j = smaller_child pq i n in
        if \<not> queue_Less pq j i then (pq, i) else heap_down (queue_Swap pq i j) j n)"
  by auto
termination
  by (relation "measure (\<lambda>(_, i, n). n - i)") (auto simp: smaller_child_def)

declare heap_up.simps [simp del] heap_down.simps [simp del]

definition heap_Push :: "'v PriorityQueue \<Rightarrow> nat \<Rightarrow> 'v PriorityQueue" where
  "heap_Push pq a = (let pq' = queue_Push pq a in heap_up pq' (length (pq_data pq') - 1))"

definition heap_Pop :: "'v PriorityQueue \<Rightarrow> nat \<times> 'v PriorityQueue" where
  "heap_Pop pq =
     (let n = length (pq_data pq) - 1 in queue_Pop (fst (heap_down (queue_Swap pq 0 n) 0 n)))"

text \<open>Removal at an index outside the slice panics (\<open>None\<close>).\<close>

definition heap_Remove :: "'v PriorityQueue \<Rightarrow> int \<Rightarrow> (nat \<times> 'v PriorityQueue) option" where
  "heap_Remove pq index =
     (if index < 0 \<or> index \<ge> int (length (pq_data pq)) then None
      else let i = nat index; n = length (pq_data pq) - 1 in
        Some (queue_Pop
          (if n = i then pq
           else let (pq', i') = heap_down (queue_Swap pq i n) i n in
             if i' > i then pq' else heap_up pq' i)))"

section \<open>The queue\<close>

text \<open>\<open>heap.Init\<close> has nothing to do on an empty slice.\<close>

definition New :: "(nat \<Rightarrow> 'v Item) \<Rightarrow> 'v PriorityQueue" where
  "New items = \<lparr>pq_items = items, pq_fresh = 0, pq_data = [], pq_dataMap = Map.empty\<rparr>"

definition Len :: "'v PriorityQueue \<Rightarrow> nat" where
  "Len pq = length (pq_data pq)"

definition Pop :: "'v PriorityQueue \<Rightarrow> (queue_error + 'v Item) \<times> 'v PriorityQueue" where
  "Pop pq =
     (if length (pq_data pq) = 0 then (Inl ErrEmpty, pq)
      else let (a, pq') = heap_Pop pq; item = pq_items pq' a in
        (Inr item, pq'\<lparr>pq_dataMap := (pq_dataMap pq')(it_Name item := None)\<rparr>))"

text \<open>\<open>copy\<close> stands for \<open>copystructure.Copy\<close>; a new item gets the next address.\<close>

definition Push ::
  "('v Item \<Rightarrow> string + 'v Item) \<Rightarrow> 'v Item option \<Rightarrow> 'v PriorityQueue \<Rightarrow> queue_error option \<times> 'v PriorityQueue" where
  "Push copy i pq =
     (case i of
        None \<Rightarrow> (Some ErrKeyRequired, pq)
      | Some item \<Rightarrow>
          if it_Name item = [] then (Some ErrKeyRequired, pq)
          else if pq_dataMap pq (it_Name item) \<noteq> None then (Some ErrDuplicateItem, pq)
          else (case copy item of
                  Inl e \<Rightarrow> (Some (ErrCopy e), pq)
                | Inr clone \<Rightarrow>
                    let a = pq_fresh pq in
                    (None, heap_Push (pq\<lparr>pq_items := (pq_items pq)(a := clone), pq_fresh := Suc a,
                       pq_dataMap := (pq_dataMap pq)(it_Name item \<mapsto> a)\<rparr>) a)))"

text \<open>The outer \<open>None\<close> is a panic, the inner one a nil item.\<close>

definition PopByKey :: "'v PriorityQueue \<Rightarrow> string \<Rightarrow> ('v Item option \<times> 'v PriorityQueue) option" where
  "PopByKey pq key =
     (case pq_dataMap pq key of
        None \<Rightarrow> Some (None, pq)
      | Some a \<Rightarrow>
          (case heap_Remove pq (it_index (pq_items pq a)) of
             None \<Rightarrow> None
           | Some (a', pq') \<Rightarrow>
               Some (Some (pq_items pq' a'), pq'\<lparr>pq_dataMap := (pq_dataMap pq')(key := None)\<rparr>)))"

section \<open>The heap order on an array of priorities\<close>

definition heap_order :: "nat \<Rightarrow> (nat \<Rightarrow> int) \<Rightarrow> bool" where
  "heap_order n f \<longleftrightarrow> (\<forall>c. 0 < c \<and> c < n \<longrightarrow> f (parent c) \<le> f c)"

text \<open>Heap order except at \<open>i\<close>, whose parent is still below its children.\<close>

definition heap_except :: "nat \<Rightarrow> nat \<Rightarrow> (nat \<Rightarrow> int) \<Rightarrow> bool" where
  "heap_except n i f \<longleftrightarrow>
     (\<forall>c. 0 < c \<and> c < n \<and> c \<noteq> i \<and> parent c \<noteq> i \<longrightarrow> f (parent c) \<le> f c)
     \<and> (\<forall>c. 0 < c \<and> c < n \<and> parent c = i \<and> 0 < i \<longrightarrow> f (parent i) \<le> f c)"

definition above_ok :: "nat \<Rightarrow> (nat \<Rightarrow> int) \<Rightarrow> bool" where
  "above_ok i f \<longleftrightarrow> (0 < i \<longrightarrow> f (parent i) \<le> f i)"

definition below_ok :: "nat \<Rightarrow> nat \<Rightarrow> (nat \<Rightarrow> int) \<Rightarrow> bool" where
  "below_ok n i f \<longleftrightarrow> (\<forall>c. 0 < c \<and> c < n \<and> parent c = i \<longrightarrow> f i \<le> f c)"

abbreviation swapped :: "nat \<Rightarrow> nat \<Rightarrow> (nat \<Rightarrow> int) \<Rightarrow> (nat \<Rightarrow> int)" where
  "swapped i j f \<equiv> f(i := f j, j := f i)"

lemma parent_less [simp]: "0 < c \<Longrightarrow> parent c < c"
  by (simp add: parent_def)

lemma parent_iff: "0 < c \<Longrightarrow> parent c = i \<longleftrightarrow> c = 2 * i + 1 \<or> c = 2 * i + 2"
  unfolding parent_def by presburger

lemma heap_order_iff:
  "heap_except n i f \<Longrightarrow> above_ok i f \<Longrightarrow> below_ok n i f \<Longrightarrow> heap_order n f"
  unfolding heap_order_def heap_except_def above_ok_def below_ok_def by metis

lemma heap_order_except: "heap_order n f \<Longrightarrow> heap_except n i f"
proof -
  assume h: "heap_order n f"
  have "f (parent i) \<le> f c" if "0 < c" "c < n" "parent c = i" "0 < i" for c
  proof -
    have "i < n" using that parent_less [of c] by linarith
    then have "f (parent i) \<le> f i" "f i \<le> f c" using h that by (auto simp: heap_order_def)
    then show ?thesis by simp
  qed
  with h show ?thesis by (auto simp: heap_except_def heap_order_def)
qed

lemma heap_order_root: "heap_order n f \<Longrightarrow> i < n \<Longrightarrow> f 0 \<le> f i"
proof (induction i rule: less_induct)
  case (less i)
  show ?case
  proof (cases "i = 0")
    case False
    then have "parent i < i" by simp
    with less have "f 0 \<le> f (parent i)" by simp
    also have "\<dots> \<le> f i" using less.prems False by (simp add: heap_order_def)
    finally show ?thesis .
  qed simp
qed

lemma heap_except_down:
  assumes "heap_except n i f" "0 < j" "j < n" "parent j = i" "f j < f i"
    "\<And>c. 0 < c \<Longrightarrow> c < n \<Longrightarrow> parent c = i \<Longrightarrow> f j \<le> f c"
  shows "heap_except n j (swapped i j f)" "above_ok j (swapped i j f)"
proof -
  have ij: "i < j" using assms(2,4) parent_less by blast
  show "above_ok j (swapped i j f)" using assms ij by (simp add: above_ok_def)
  have one: "swapped i j f (parent c) \<le> swapped i j f c"
    if c: "0 < c" "c < n" "c \<noteq> j" "parent c \<noteq> j" for c
  proof (cases "c = i")
    case True
    with c ij assms(1,2,3,4) show ?thesis by (auto simp: heap_except_def)
  next
    case False
    with c ij assms show ?thesis by (cases "parent c = i") (auto simp: heap_except_def)
  qed
  have two: "swapped i j f (parent j) \<le> swapped i j f c" if c: "0 < c" "c < n" "parent c = j" for c
  proof -
    have "c \<noteq> i" "c \<noteq> j" using c ij parent_less [of c] by auto
    moreover have "f (parent c) \<le> f c" using assms(1) c calculation ij by (auto simp: heap_except_def)
    ultimately show ?thesis using c ij assms(4) by simp
  qed
  show "heap_except n j (swapped i j f)" using one two by (auto simp: heap_except_def)
qed

lemma heap_except_up:
  assumes "heap_except n j f" "below_ok n j f" "0 < j" "j < n" "f j < f (parent j)"
  shows "heap_except n (parent j) (swapped (parent j) j f)" "below_ok n (parent j) (swapped (parent j) j f)"
proof -
  let ?q = "parent j" and ?g = "swapped (parent j) j f"
  have q: "?q < j" using assms(3) by simp
  have edge: "f (parent c) \<le> f c" if "0 < c" "c < n" "c \<noteq> j" "parent c \<noteq> j" for c
    using that assms(1) by (simp add: heap_except_def)
  have qc: "f ?q \<le> f c" if "0 < c" "c < n" "parent c = ?q" "c \<noteq> j" for c
    using edge [of c] that q by simp
  show "below_ok n ?q ?g"
    unfolding below_ok_def
  proof (intro allI impI)
    fix c assume c: "0 < c \<and> c < n \<and> parent c = ?q"
    show "?g ?q \<le> ?g c"
    proof (cases "c = j")
      case False
      with c qc [of c] assms(5) q parent_less [of c] show ?thesis by auto
    qed (use assms(5) q in auto)
  qed
  have one: "?g (parent c) \<le> ?g c" if c: "0 < c" "c < n" "c \<noteq> ?q" "parent c \<noteq> ?q" for c
  proof (cases "parent c = j")
    case True
    then have "f ?q \<le> f c" using assms(1,3) c by (simp add: heap_except_def)
    with True c parent_less [of c] q show ?thesis by auto
  next
    case False
    then have "c \<noteq> j" using c by auto
    with edge [of c] c False show ?thesis by simp
  qed
  have two: "?g (parent ?q) \<le> ?g c" if c: "0 < c" "c < n" "parent c = ?q" "0 < ?q" for c
  proof -
    have pq: "parent ?q < ?q" using c by simp
    have e: "f (parent ?q) \<le> f ?q" using edge [of ?q] c(4) q pq assms(4) by simp
    show ?thesis
    proof (cases "c = j")
      case False
      with qc [of c] c e pq q parent_less [of c] show ?thesis by auto
    qed (use e pq q in auto)
  qed
  show "heap_except n ?q ?g" using one two by (auto simp: heap_except_def)
qed

section \<open>Moving items\<close>

definition core_of :: "'v Item \<Rightarrow> string \<times> 'v \<times> int" where
  "core_of item = (it_Name item, it_Value item, it_Priority item)"

definition moved :: "nat \<Rightarrow> 'v PriorityQueue \<Rightarrow> 'v PriorityQueue \<Rightarrow> bool" where
  "moved n pq pq' \<longleftrightarrow>
     mset (take n (pq_data pq')) = mset (take n (pq_data pq)) \<and> drop n (pq_data pq') = drop n (pq_data pq)
     \<and> pq_dataMap pq' = pq_dataMap pq \<and> pq_fresh pq' = pq_fresh pq
     \<and> (\<forall>a. core_of (pq_items pq' a) = core_of (pq_items pq a))"

definition indexed :: "'v PriorityQueue \<Rightarrow> bool" where
  "indexed pq \<longleftrightarrow> distinct (pq_data pq)
     \<and> (\<forall>i < length (pq_data pq). it_index (pq_items pq (pq_data pq ! i)) = int i)"

lemma moved_refl [simp]: "moved n pq pq"
  by (simp add: moved_def)

lemma moved_trans: "moved n p q \<Longrightarrow> moved n q r \<Longrightarrow> moved n p r"
  by (simp add: moved_def)

lemma moved_mset:
  assumes "moved n pq pq'"
  shows "mset (pq_data pq') = mset (pq_data pq)"
proof -
  have "mset (take n (pq_data q)) + mset (drop n (pq_data q)) = mset (pq_data q)" for q :: "'a PriorityQueue"
    by (metis append_take_drop_id mset_append)
  then show ?thesis using assms unfolding moved_def by metis
qed

lemma moved_length: "moved n pq pq' \<Longrightarrow> length (pq_data pq') = length (pq_data pq)"
  using moved_mset by (metis size_mset)

lemma core_set_index [simp]: "core_of (set_index a i items b) = core_of (items b)"
  by (simp add: set_index_def core_of_def)

lemma prio_core: "prio pq i = snd (snd (core_of (pq_items pq (pq_data pq ! i))))"
  by (simp add: prio_def core_of_def)

lemma swap_length [simp]: "length (pq_data (queue_Swap pq i j)) = length (pq_data pq)"
  by (simp add: queue_Swap_def Let_def)

lemma swap_moved:
  assumes "i < n" "j < n" "n \<le> length (pq_data pq)"
  shows "moved n pq (queue_Swap pq i j)"
proof -
  let ?d = "pq_data pq"
  have "take n (?d[i := ?d ! j, j := ?d ! i]) = (take n ?d)[i := take n ?d ! j, j := take n ?d ! i]"
    using assms by (simp add: take_update_swap)
  moreover have "mset \<dots> = mset (take n ?d)" using assms by (intro mset_swap) simp_all
  ultimately show ?thesis
    using assms by (simp add: moved_def queue_Swap_def Let_def)
qed

lemma swap_indexed:
  assumes "indexed pq" "i < length (pq_data pq)" "j < length (pq_data pq)"
  shows "indexed (queue_Swap pq i j)"
proof -
  let ?d = "pq_data pq" and ?d' = "(pq_data pq)[i := pq_data pq ! j, j := pq_data pq ! i]"
  have d': "distinct ?d'" using assms by (metis distinct_swap indexed_def)
  have eq: "?d' ! k = ?d' ! l \<longleftrightarrow> k = l" if "k < length ?d" "l < length ?d" for k l
    using that d' by (simp add: nth_eq_iff_index_eq)
  have "it_index (pq_items (queue_Swap pq i j) (?d' ! k)) = int k" if k: "k < length ?d" for k
    using assms k eq [of k i] eq [of k j] eq [of i j]
    by (cases "k = j"; cases "k = i") (auto simp: queue_Swap_def Let_def set_index_def indexed_def)
  with d' show ?thesis by (simp add: indexed_def queue_Swap_def Let_def)
qed

lemma swap_prio:
  assumes "i < length (pq_data pq)" "j < length (pq_data pq)" "k < length (pq_data pq)"
  shows "prio (queue_Swap pq i j) k = swapped i j (prio pq) k"
  using assms by (simp add: prio_core queue_Swap_def Let_def nth_list_update)

lemma order_cong:
  assumes "\<forall>k < n. f k = g k" "i < n"
  shows "heap_except n i g \<Longrightarrow> heap_except n i f" "above_ok i g \<Longrightarrow> above_ok i f" "below_ok n i g \<Longrightarrow> below_ok n i f"
proof -
  have p: "parent c < n" if "0 < c" "c < n" for c using that parent_less less_trans by blast
  show "heap_except n i g \<Longrightarrow> heap_except n i f" using assms p by (simp add: heap_except_def)
  show "above_ok i g \<Longrightarrow> above_ok i f" using assms p by (simp add: above_ok_def)
  show "below_ok n i g \<Longrightarrow> below_ok n i f" using assms by (simp add: below_ok_def)
qed

lemma heap_order_cong: "(\<And>k. k < n \<Longrightarrow> f k = g k) \<Longrightarrow> heap_order n f = heap_order n g"
  unfolding heap_order_def by (simp cong: conj_cong) (metis parent_less less_trans)

lemma heap_up_correct:
  "indexed pq \<Longrightarrow> j < n \<Longrightarrow> n \<le> length (pq_data pq) \<Longrightarrow> heap_except n j (prio pq) \<Longrightarrow> below_ok n j (prio pq) \<Longrightarrow>
   moved n pq (heap_up pq j) \<and> indexed (heap_up pq j) \<and> heap_order n (prio (heap_up pq j))"
proof (induction pq j rule: heap_up.induct)
  case (1 pq j)
  let ?i = "parent j" and ?s = "queue_Swap pq (parent j) j"
  show ?case
  proof (cases "?i = j \<or> \<not> queue_Less pq j ?i")
    case True
    then have "above_ok j (prio pq)" using parent_less [of j] by (auto simp: above_ok_def queue_Less_def)
    with 1(5,6) have "heap_order n (prio pq)" by (intro heap_order_iff)
    with True 1(2) show ?thesis by (simp add: heap_up.simps)
  next
    case False
    then have j: "0 < j" "prio pq j < prio pq ?i" by (auto simp: queue_Less_def parent_def intro: gr0I)
    have i: "?i < n" using j(1) 1(3) parent_less less_trans by blast
    have f: "\<forall>k < n. prio ?s k = swapped ?i j (prio pq) k"
      using i 1(3,4) by (intro allI impI swap_prio) simp_all
    note ex = heap_except_up [OF 1(5,6) j(1) 1(3) j(2)]
    have "moved n ?s (heap_up ?s ?i) \<and> indexed (heap_up ?s ?i) \<and> heap_order n (prio (heap_up ?s ?i))"
    proof (rule 1(1) [OF refl False])
      show "indexed ?s" using 1(2,3,4) i by (intro swap_indexed) simp_all
      show "heap_except n ?i (prio ?s)" by (rule order_cong(1) [OF f i ex(1)])
      show "below_ok n ?i (prio ?s)" by (rule order_cong(3) [OF f i ex(2)])
    qed (use i 1(4) in simp_all)
    moreover have "heap_up pq j = heap_up ?s ?i"
      by (subst heap_up.simps) (use False in \<open>auto simp: Let_def\<close>)
    moreover have "moved n pq ?s" using i 1(3,4) by (rule swap_moved)
    ultimately show ?thesis using moved_trans by metis
  qed
qed

lemma smaller_child_least:
  assumes "2 * i + 1 < n"
  shows "smaller_child pq i n < n" "0 < smaller_child pq i n" "parent (smaller_child pq i n) = i"
    "0 < c \<Longrightarrow> c < n \<Longrightarrow> parent c = i \<Longrightarrow> prio pq (smaller_child pq i n) \<le> prio pq c"
  using assms by (auto simp: smaller_child_def parent_iff queue_Less_def)

lemma heap_down_correct:
  "indexed pq \<Longrightarrow> i < n \<Longrightarrow> n \<le> length (pq_data pq) \<Longrightarrow> heap_except n i (prio pq) \<Longrightarrow>
   heap_down pq i n = (pq', i') \<Longrightarrow>
   moved n pq pq' \<and> indexed pq' \<and> i \<le> i'
   \<and> (i' = i \<longrightarrow> pq' = pq \<and> below_ok n i (prio pq))
   \<and> (i < i' \<or> above_ok i (prio pq) \<longrightarrow> heap_order n (prio pq'))"
proof (induction pq i n arbitrary: pq' i' rule: heap_down.induct)
  case (1 pq i n)
  let ?j = "smaller_child pq i n"
  let ?s = "queue_Swap pq i ?j"
  consider (leaf) "n \<le> 2 * i + 1" | (stop) "2 * i + 1 < n" "\<not> queue_Less pq ?j i"
    | (swap) "2 * i + 1 < n" "queue_Less pq ?j i" by (meson not_le)
  then show ?case
  proof cases
    case leaf
    have no: "\<not> (0 < c \<and> c < n \<and> parent c = i)" for c using leaf parent_iff [of c i] by linarith
    then have "below_ok n i (prio pq)" unfolding below_ok_def by blast
    moreover have "heap_down pq i n = (pq, i)" using leaf by (subst heap_down.simps) simp
    ultimately show ?thesis using 1(2,6) heap_order_iff [OF 1(5)] by auto
  next
    case stop
    then have "prio pq i \<le> prio pq ?j" by (simp add: queue_Less_def)
    then have "below_ok n i (prio pq)"
      unfolding below_ok_def using smaller_child_least(4) [OF stop(1), where pq = pq] order_trans by blast
    moreover have "heap_down pq i n = (pq, i)" using stop by (subst heap_down.simps) (simp add: Let_def)
    ultimately show ?thesis using 1(2,6) heap_order_iff [OF 1(5)] by auto
  next
    case swap
    note child = smaller_child_least [OF swap(1), where pq = pq]
    have ij: "i < ?j" using child(2,3) parent_less by metis
    have f: "\<forall>k < n. prio ?s k = swapped i ?j (prio pq) k"
      using child(1) 1(3,4) by (intro allI impI swap_prio) simp_all
    have less: "prio pq ?j < prio pq i" using swap(2) by (simp add: queue_Less_def)
    note ex = heap_except_down [OF 1(5) child(2,1,3) less child(4)]
    have "heap_down pq i n = heap_down ?s ?j n" using swap by (subst heap_down.simps) (simp add: Let_def)
    with 1(6) have run: "heap_down ?s ?j n = (pq', i')" by simp
    have "moved n ?s pq' \<and> indexed pq' \<and> ?j \<le> i'
        \<and> (i' = ?j \<longrightarrow> pq' = ?s \<and> below_ok n ?j (prio ?s))
        \<and> (?j < i' \<or> above_ok ?j (prio ?s) \<longrightarrow> heap_order n (prio pq'))"
    proof (rule 1(1) [OF _ refl _ _ _ _ _ run])
      show "indexed ?s" using 1(2,3,4) child(1) by (intro swap_indexed) simp_all
      show "heap_except n ?j (prio ?s)" by (rule order_cong(1) [OF f child(1) ex(1)])
      show "?j < n" by (rule child(1))
      show "n \<le> length (pq_data ?s)" using 1(4) by simp
    qed (use swap in \<open>simp_all only: not_le not_not\<close>)
    moreover have "above_ok ?j (prio ?s)" by (rule order_cong(2) [OF f child(1) ex(2)])
    moreover have "moved n pq ?s" using 1(3,4) child(1) by (intro swap_moved) simp_all
    ultimately have "moved n pq pq'" "indexed pq'" "i < i'" "heap_order n (prio pq')"
      using ij moved_trans by (blast, blast, linarith, blast)
    then show ?thesis by simp
  qed
qed

section \<open>The invariant\<close>

text \<open>The map has exactly the items of the slice, each under its key, and the slice is a heap.\<close>

definition synced :: "'v PriorityQueue \<Rightarrow> bool" where
  "synced pq \<longleftrightarrow> (\<forall>a \<in> set (pq_data pq). a < pq_fresh pq)
     \<and> (\<forall>k a. pq_dataMap pq k = Some a \<longleftrightarrow> a \<in> set (pq_data pq) \<and> it_Name (pq_items pq a) = k)"

definition pq_ok :: "'v PriorityQueue \<Rightarrow> bool" where
  "pq_ok pq \<longleftrightarrow> indexed pq \<and> synced pq \<and> heap_order (length (pq_data pq)) (prio pq)"

definition contents :: "'v PriorityQueue \<Rightarrow> string \<Rightarrow> ('v \<times> int) option" where
  "contents pq k = map_option (\<lambda>a. snd (core_of (pq_items pq a))) (pq_dataMap pq k)"

definition same_queue :: "'v PriorityQueue \<Rightarrow> 'v PriorityQueue \<Rightarrow> bool" where
  "same_queue pq q \<longleftrightarrow> set (pq_data q) = set (pq_data pq) \<and> length (pq_data q) = length (pq_data pq)
     \<and> pq_dataMap q = pq_dataMap pq \<and> pq_fresh q = pq_fresh pq
     \<and> (\<forall>a. core_of (pq_items q a) = core_of (pq_items pq a))"

lemma moved_same:
  assumes "moved n pq q"
  shows "same_queue pq q"
  using assms moved_length [OF assms] mset_eq_setD [OF moved_mset [OF assms]]
  by (simp add: moved_def same_queue_def)

lemma same_trans: "same_queue p q \<Longrightarrow> same_queue q r \<Longrightarrow> same_queue p r"
  by (simp add: same_queue_def)

lemma name_core: "it_Name item = fst (core_of item)"
  by (simp add: core_of_def)

lemma heap_order_mono: "heap_order n f \<Longrightarrow> m \<le> n \<Longrightarrow> heap_order m f"
  by (simp add: heap_order_def)

lemma heap_except_point:
  assumes "heap_order n f" "\<forall>k < m. k \<noteq> i \<longrightarrow> g k = f k" "m \<le> n" "i < m"
  shows "heap_except m i g"
proof -
  have "heap_except m i f" by (rule heap_order_except [OF heap_order_mono [OF assms(1,3)]])
  moreover have "parent c < m" if "0 < c" "c < m" for c using that parent_less less_trans by blast
  ultimately show ?thesis using assms(2,4) by (simp add: heap_except_def) (metis parent_less nat_neq_iff)
qed

text \<open>Dropping the last element of a rearranged slice removes its key.\<close>

lemma queue_Pop_removes:
  assumes "pq_ok pq" "same_queue pq q" "indexed q" "heap_order (length (pq_data q) - 1) (prio q)"
    "pq_data q \<noteq> []" "queue_Pop q = (a, q')"
  defines "k \<equiv> it_Name (pq_items q' a)"
  defines "r \<equiv> q'\<lparr>pq_dataMap := (pq_dataMap q')(k := None)\<rparr>"
  shows "a = last (pq_data q) \<and> core_of (pq_items q' a) = core_of (pq_items pq a) \<and> pq_ok r
    \<and> contents r = (contents pq)(k := None)"
proof -
  have a: "a = last (pq_data q)" and q': "q' = q\<lparr>pq_items := set_index a (-1) (pq_items q), pq_data := butlast (pq_data q)\<rparr>"
    using assms(6) by (auto simp: queue_Pop_def Let_def)
  have core: "core_of (pq_items q' b) = core_of (pq_items pq b)" for b
    using assms(2) by (simp add: q' same_queue_def)
  have split: "pq_data q = butlast (pq_data q) @ [a]" using assms(5) a by simp
  have dist: "distinct (pq_data q)" using assms(3) by (simp add: indexed_def)
  then have notin: "a \<notin> set (butlast (pq_data q))" by (metis split not_distinct_conv_prefix distinct_append disjoint_insert(1) list.set(2))
  have set: "set (pq_data pq) = insert a (set (butlast (pq_data q)))"
    using assms(2) split by (metis same_queue_def list.simps(15) rotate1.simps(2) set_rotate1)
  have nth: "butlast (pq_data q) ! i = pq_data q ! i" if "i < length (pq_data q) - 1" for i
    using that by (simp add: nth_butlast)
  have ne: "butlast (pq_data q) ! i \<noteq> a" if "i < length (pq_data q) - 1" for i
    using that notin by (metis length_butlast nth_mem)
  have "indexed r"
    using assms(3) dist nth ne
    by (auto simp: indexed_def r_def q' set_index_def distinct_butlast)
  moreover have "heap_order (length (pq_data r)) (prio r)"
  proof -
    have "prio r i = prio q i" if "i < length (pq_data q) - 1" for i
      using nth [OF that] by (simp add: prio_core r_def q')
    then show ?thesis
      using assms(4) heap_order_cong [of "length (pq_data q) - 1" "prio r" "prio q"] by (simp add: r_def q')
  qed
  moreover have "synced r"
  proof -
    have map: "pq_dataMap q' j = Some b \<longleftrightarrow> b \<in> set (pq_data pq) \<and> it_Name (pq_items q' b) = j" for j b
      using assms(1,2) core by (auto simp: q' same_queue_def pq_ok_def synced_def name_core)
    have "pq_dataMap r j = Some b \<longleftrightarrow> b \<in> set (butlast (pq_data q)) \<and> it_Name (pq_items q' b) = j" for j b
      using map [of j b] map [of k a] map [of k b] set notin by (auto simp: r_def k_def)
    moreover have "\<forall>b \<in> set (butlast (pq_data q)). b < pq_fresh q"
      using assms(1,2) set by (auto simp: pq_ok_def synced_def same_queue_def)
    ultimately show ?thesis by (simp add: synced_def r_def q')
  qed
  moreover have "contents r = (contents pq)(k := None)"
    using assms(2) core by (auto simp: contents_def r_def q' same_queue_def fun_eq_iff)
  ultimately show ?thesis using a core by (simp add: pq_ok_def)
qed

section \<open>The operations\<close>

lemma swap_last_prio:
  assumes "i < length (pq_data pq)" "k < length (pq_data pq) - 1" "k \<noteq> i"
  shows "prio (queue_Swap pq i (length (pq_data pq) - 1)) k = prio pq k"
  using assms by (subst swap_prio) auto

lemma heap_Pop_correct:
  assumes "pq_ok pq" "pq_data pq \<noteq> []" "heap_Pop pq = (a, q')"
  defines "k \<equiv> it_Name (pq_items q' a)"
  shows "a = pq_data pq ! 0 \<and> core_of (pq_items q' a) = core_of (pq_items pq a)
    \<and> pq_ok (q'\<lparr>pq_dataMap := (pq_dataMap q')(k := None)\<rparr>)
    \<and> contents (q'\<lparr>pq_dataMap := (pq_dataMap q')(k := None)\<rparr>) = (contents pq)(k := None)"
proof -
  let ?n = "length (pq_data pq) - 1"
  let ?s = "queue_Swap pq 0 ?n"
  obtain q i where q: "heap_down ?s 0 ?n = (q, i)" by force
  have len: "?n < length (pq_data pq)" using assms(2) by (cases "pq_data pq") auto
  have ok: "indexed pq" "heap_order (length (pq_data pq)) (prio pq)" using assms(1) by (simp_all add: pq_ok_def)
  have s: "same_queue pq ?s" "indexed ?s"
    using len ok by (auto intro!: moved_same [OF swap_moved [where n = "length (pq_data pq)"]] swap_indexed)
  have q_ok: "moved ?n ?s q \<and> indexed q \<and> heap_order ?n (prio q)"
  proof (cases "?n = 0")
    case True
    then have "heap_down ?s 0 ?n = (?s, 0)" by (subst heap_down.simps) simp
    with q True s(2) show ?thesis by (auto simp: heap_order_def)
  next
    case False
    have "heap_except ?n 0 (prio ?s)"
      using len False assms(2) swap_last_prio [of 0 pq] by (intro heap_except_point [OF ok(2)]) auto
    with heap_down_correct [OF s(2) _ _ this q] False show ?thesis by (simp add: above_ok_def)
  qed
  then have same: "same_queue pq q" using s(1) moved_same same_trans by blast
  have "drop ?n (pq_data q) = [pq_data pq ! 0]"
    using q_ok len by (auto simp: moved_def queue_Swap_def Let_def simp flip: Cons_nth_drop_Suc)
  then have "last (pq_data q) = pq_data pq ! 0" by (metis last_drop last.simps list.distinct(1) length_drop length_0_conv zero_less_diff linorder_not_less drop_all)
  moreover have "queue_Pop q = (a, q')" using assms(3) q by (simp add: heap_Pop_def Let_def)
  moreover have "pq_data q \<noteq> []" "length (pq_data q) = length (pq_data pq)"
    using same assms(2) by (auto simp: same_queue_def)
  ultimately show ?thesis
    using queue_Pop_removes [OF assms(1) same, of a q'] q_ok unfolding k_def by metis
qed

text \<open>The slice after the element at \<open>i\<close> went to the end and the rest was repaired.\<close>

definition repaired :: "'v PriorityQueue \<Rightarrow> nat \<Rightarrow> 'v PriorityQueue" where
  "repaired pq i =
     (let n = length (pq_data pq) - 1; (pq', i') = heap_down (queue_Swap pq i n) i n in
      if i' > i then pq' else heap_up pq' i)"

lemma repaired_correct:
  assumes "pq_ok pq" "i < length (pq_data pq) - 1"
  shows "same_queue pq (repaired pq i) \<and> indexed (repaired pq i)
    \<and> heap_order (length (pq_data pq) - 1) (prio (repaired pq i)) \<and> last (pq_data (repaired pq i)) = pq_data pq ! i"
proof -
  let ?n = "length (pq_data pq) - 1" and ?q = "repaired pq i"
  let ?s = "queue_Swap pq i ?n"
  have ok: "indexed pq" "heap_order (length (pq_data pq)) (prio pq)" using assms(1) by (simp_all add: pq_ok_def)
  have n: "i < length (pq_data pq)" "?n < length (pq_data pq)" using assms(2) by auto
  have s: "same_queue pq ?s" "indexed ?s"
    using n ok by (auto intro!: moved_same [OF swap_moved [where n = "length (pq_data pq)"]] swap_indexed)
  have ex: "heap_except ?n i (prio ?s)"
    using n assms(2) swap_last_prio [of i pq] by (intro heap_except_point [OF ok(2)]) auto
  obtain p j where p: "heap_down ?s i ?n = (p, j)" by force
  note down = heap_down_correct [OF s(2) assms(2) _ ex p]
  have q: "moved ?n ?s ?q \<and> indexed ?q \<and> heap_order ?n (prio ?q)"
  proof (cases "i < j")
    case True
    then show ?thesis using down p by (simp add: repaired_def Let_def)
  next
    case False
    then have "p = ?s" "below_ok ?n i (prio ?s)" using down by auto
    with heap_up_correct [OF s(2) assms(2) _ ex] p False show ?thesis by (simp add: repaired_def Let_def)
  qed
  then have "drop ?n (pq_data ?q) = [pq_data pq ! i]"
    using n by (auto simp: moved_def queue_Swap_def Let_def simp flip: Cons_nth_drop_Suc)
  then have "last (pq_data ?q) = pq_data pq ! i" by (metis append_take_drop_id last_snoc)
  with q s(1) moved_same same_trans show ?thesis by blast
qed

lemma heap_Remove_correct:
  assumes "pq_ok pq" "pq_dataMap pq k = Some a"
  shows "\<exists>q'. heap_Remove pq (it_index (pq_items pq a)) = Some (a, q')
    \<and> core_of (pq_items q' a) = core_of (pq_items pq a)
    \<and> pq_ok (q'\<lparr>pq_dataMap := (pq_dataMap q')(k := None)\<rparr>)
    \<and> contents (q'\<lparr>pq_dataMap := (pq_dataMap q')(k := None)\<rparr>) = (contents pq)(k := None)"
proof -
  let ?n = "length (pq_data pq) - 1"
  have a: "a \<in> set (pq_data pq)" "it_Name (pq_items pq a) = k"
    using assms by (auto simp: pq_ok_def synced_def)
  then obtain i where i: "i < length (pq_data pq)" "pq_data pq ! i = a" by (metis in_set_conv_nth)
  have ok: "indexed pq" "heap_order (length (pq_data pq)) (prio pq)" using assms(1) by (simp_all add: pq_ok_def)
  define q where "q = (if ?n = i then pq else repaired pq i)"
  have q: "same_queue pq q \<and> indexed q \<and> heap_order ?n (prio q) \<and> last (pq_data q) = a"
  proof (cases "?n = i")
    case True
    moreover have "pq_data pq \<noteq> []" using i by auto
    ultimately show ?thesis
      using ok i heap_order_mono [OF ok(2), of ?n]
      by (auto simp: q_def same_queue_def last_conv_nth)
  next
    case False
    with i repaired_correct [OF assms(1), of i] show ?thesis by (simp add: q_def)
  qed
  have "it_index (pq_items pq a) = int i" using i ok(1) by (auto simp: indexed_def)
  then have Rem: "heap_Remove pq (it_index (pq_items pq a)) = Some (queue_Pop q)"
    using i by (simp add: heap_Remove_def q_def repaired_def Let_def)
  obtain b q' where pop: "queue_Pop q = (b, q')" by force
  have ne: "pq_data q \<noteq> []" "length (pq_data q) = length (pq_data pq)" using q i by (auto simp: same_queue_def)
  note rem = queue_Pop_removes [OF assms(1) _ _ _ ne(1) pop]
  have "b = a" "it_Name (pq_items q' a) = k"
    using rem q ne a(2) by (auto simp: name_core)
  with rem q ne Rem pop show ?thesis by auto
qed

lemma heap_Push_correct:
  assumes "pq_ok pq" "pq_dataMap pq (it_Name clone) = None"
  defines "q \<equiv> pq\<lparr>pq_items := (pq_items pq)(pq_fresh pq := clone), pq_fresh := Suc (pq_fresh pq),
    pq_dataMap := (pq_dataMap pq)(it_Name clone \<mapsto> pq_fresh pq)\<rparr>"
  shows "pq_ok (heap_Push q (pq_fresh pq))"
    "contents (heap_Push q (pq_fresh pq)) = (contents pq)(it_Name clone \<mapsto> (it_Value clone, it_Priority clone))"
proof -
  let ?a = "pq_fresh pq" and ?n = "length (pq_data pq)"
  define r where "r = queue_Push q ?a"
  have ok: "indexed pq" "synced pq" "heap_order ?n (prio pq)" using assms(1) by (simp_all add: pq_ok_def)
  have new: "?a \<notin> set (pq_data pq)" using ok(2) by (auto simp: synced_def)
  have data: "pq_data r = pq_data pq @ [?a]" by (simp add: r_def queue_Push_def q_def)
  have core: "core_of (pq_items r b) = (if b = ?a then core_of clone else core_of (pq_items pq b))" for b
    by (simp add: r_def queue_Push_def q_def)
  have items: "pq_items r b = pq_items pq b" if "b \<noteq> ?a" for b
    using that by (simp add: r_def queue_Push_def q_def set_index_def)
  have ne: "pq_data pq ! i \<noteq> ?a" if "i < ?n" for i using that new nth_mem by metis
  have ind: "indexed r"
    using ok(1) new ne items
    by (auto simp: indexed_def data nth_append less_Suc_eq) (simp add: r_def queue_Push_def q_def set_index_def)
  have prio: "prio r k = prio pq k" if "k < ?n" for k
    using that ne [OF that] by (simp add: prio_core core data nth_append)
  have leaf: "\<not> (0 < c \<and> c < Suc ?n \<and> parent c = ?n)" for c using parent_less [of c] by linarith
  have ex: "heap_except (Suc ?n) ?n (prio r)"
    unfolding heap_except_def
  proof (intro conjI allI impI)
    fix c assume "0 < c \<and> c < Suc ?n \<and> c \<noteq> ?n \<and> parent c \<noteq> ?n"
    then have c: "0 < c" "c < ?n" by auto
    then show "prio r (parent c) \<le> prio r c"
      using ok(3) prio [of c] prio [of "parent c"] less_trans [OF parent_less [of c]]
      by (simp add: heap_order_def)
  qed (use leaf in blast)
  have "below_ok (Suc ?n) ?n (prio r)" using leaf unfolding below_ok_def by blast
  with heap_up_correct [OF ind _ _ ex] data
  have up: "moved (Suc ?n) r (heap_up r ?n)" "indexed (heap_up r ?n)" "heap_order (Suc ?n) (prio (heap_up r ?n))"
    by simp_all
  have eq: "heap_Push q ?a = heap_up r ?n" by (simp add: heap_Push_def r_def [symmetric] data Let_def)
  have same: "same_queue r (heap_up r ?n)" by (rule moved_same [OF up(1)])
  have map: "pq_dataMap r = (pq_dataMap pq)(it_Name clone \<mapsto> ?a)" "pq_fresh r = Suc ?a"
    by (simp_all add: r_def queue_Push_def q_def)
  have other: "fst (core_of (pq_items pq b)) \<noteq> fst (core_of clone)" if "b \<in> set (pq_data pq)" for b
    using that ok(2) assms(2) unfolding synced_def name_core by (metis option.distinct(1))
  have "synced (heap_up r ?n)"
    using same ok(2) new other core
    by (auto simp: synced_def same_queue_def map data name_core less_Suc_eq split: if_splits)
  then show "pq_ok (heap_Push q ?a)" using up same data by (simp add: pq_ok_def eq same_queue_def)
  have "pq_dataMap pq k \<noteq> Some ?a" for k using ok(2) new by (simp add: synced_def)
  then show "contents (heap_Push q ?a) = (contents pq)(it_Name clone \<mapsto> (it_Value clone, it_Priority clone))"
    using same core
    by (auto simp: contents_def eq same_queue_def map fun_eq_iff core_of_def [of clone] intro!: map_option_cong)
qed

section \<open>The contract\<close>

text \<open>A queue of values under keys, seen as a map; \<open>pop\<close> takes out an entry of least priority.\<close>

fun drain :: "('q \<Rightarrow> ('x \<times> 'q) option) \<Rightarrow> nat \<Rightarrow> 'q \<Rightarrow> 'x list" where
  "drain pop 0 q = []"
| "drain pop (Suc n) q = (case pop q of None \<Rightarrow> [] | Some (x, q') \<Rightarrow> x # drain pop n q')"

locale keyed_queue =
  fixes invar :: "'q \<Rightarrow> bool"
    and entries :: "'q \<Rightarrow> string \<Rightarrow> ('v \<times> int) option"
    and pop :: "'q \<Rightarrow> ((string \<times> 'v \<times> int) \<times> 'q) option"
  assumes finite_entries: "invar q \<Longrightarrow> finite (dom (entries q))"
    and pop_None: "invar q \<Longrightarrow> pop q = None \<longleftrightarrow> entries q = Map.empty"
    and pop_Some: "invar q \<Longrightarrow> pop q = Some ((k, v, p), q') \<Longrightarrow>
      invar q' \<and> entries q k = Some (v, p) \<and> entries q' = (entries q)(k := None)"
    and pop_least: "invar q \<Longrightarrow> pop q = Some ((k, v, p), q') \<Longrightarrow> entries q k' = Some (v', p') \<Longrightarrow> p \<le> p'"
begin

lemma drain_sorts:
  "invar q \<Longrightarrow> card (dom (entries q)) \<le> n \<Longrightarrow>
   sorted (map (\<lambda>(k, v, p). p) (drain pop n q)) \<and> distinct (map fst (drain pop n q))
   \<and> map_of (map (\<lambda>(k, v, p). (k, v, p)) (drain pop n q)) = entries q"
proof (induction n arbitrary: q)
  case 0
  then show ?case using finite_entries [of q] by simp
next
  case (Suc n)
  show ?case
  proof (cases "pop q")
    case None
    then have "entries q = Map.empty" using pop_None Suc.prems(1) by blast
    with None show ?thesis by simp
  next
    case (Some x)
    then obtain k v p q' where x: "pop q = Some ((k, v, p), q')" by (cases x) auto
    note s = pop_Some [OF Suc.prems(1) x]
    have "card (dom (entries q')) \<le> n"
      using Suc.prems finite_entries [of q] s by (auto simp: dom_def [of "entries q"] card_Diff_singleton)
    from Suc.IH [OF conjunct1 [OF s] this] have IH: "sorted (map (\<lambda>(k, v, p). p) (drain pop n q'))"
      "distinct (map fst (drain pop n q'))" "map_of (drain pop n q') = entries q'" by simp_all
    have "p \<le> p'" if "(k', v', p') \<in> set (drain pop n q')" for k' v' p'
    proof -
      have "entries q' k' = Some (v', p')" using that IH(2,3) by (metis map_of_is_SomeI)
      then have "entries q k' = Some (v', p')" using s by (auto split: if_splits)
      then show ?thesis by (rule pop_least [OF Suc.prems(1) x])
    qed
    moreover have "k \<notin> fst ` set (drain pop n q')"
      using IH(3) s by (metis fun_upd_same map_of_eq_None_iff)
    ultimately show ?thesis using x IH s by auto
  qed
qed

end

definition popped :: "'v PriorityQueue \<Rightarrow> ((string \<times> 'v \<times> int) \<times> 'v PriorityQueue) option" where
  "popped pq = (case Pop pq of (Inl _, _) \<Rightarrow> None | (Inr item, pq') \<Rightarrow> Some (core_of item, pq'))"

lemma Pop_correct:
  assumes "pq_ok pq" "pq_data pq \<noteq> []"
  shows "\<exists>item pq'. Pop pq = (Inr item, pq') \<and> pq_ok pq' \<and> core_of item = core_of (pq_items pq (pq_data pq ! 0))
    \<and> contents pq' = (contents pq)(it_Name item := None)"
proof -
  obtain a q where "heap_Pop pq = (a, q)" by force
  with heap_Pop_correct [OF assms this] assms(2) show ?thesis by (auto simp: Pop_def Let_def)
qed

lemma contents_least:
  assumes "pq_ok pq" "contents pq k = Some (v, p)"
  shows "pq_data pq \<noteq> []" "it_Priority (pq_items pq (pq_data pq ! 0)) \<le> p"
proof -
  obtain a where a: "pq_dataMap pq k = Some a" "core_of (pq_items pq a) = (it_Name (pq_items pq a), v, p)"
    using assms(2) by (auto simp: contents_def core_of_def)
  then have "a \<in> set (pq_data pq)" using assms(1) by (simp add: pq_ok_def synced_def)
  then obtain i where i: "i < length (pq_data pq)" "pq_data pq ! i = a" by (metis in_set_conv_nth)
  then show "pq_data pq \<noteq> []" by auto
  have "prio pq 0 \<le> prio pq i" using assms(1) i heap_order_root by (auto simp: pq_ok_def)
  then show "it_Priority (pq_items pq (pq_data pq ! 0)) \<le> p" using i a by (simp add: prio_def core_of_def)
qed

lemma contents_first:
  assumes "pq_ok pq" "pq_data pq \<noteq> []"
  shows "contents pq (it_Name (pq_items pq (pq_data pq ! 0))) = Some (snd (core_of (pq_items pq (pq_data pq ! 0))))"
proof -
  have "pq_data pq ! 0 \<in> set (pq_data pq)" using assms(2) by simp
  then have "pq_dataMap pq (it_Name (pq_items pq (pq_data pq ! 0))) = Some (pq_data pq ! 0)"
    using assms(1) by (simp add: pq_ok_def synced_def)
  then show ?thesis by (simp add: contents_def)
qed

lemma dom_contents: "pq_ok pq \<Longrightarrow> dom (contents pq) = (\<lambda>a. it_Name (pq_items pq a)) ` set (pq_data pq)"
  by (auto simp: contents_def pq_ok_def synced_def dom_def)

lemma card_contents:
  assumes "pq_ok pq"
  shows "card (dom (contents pq)) = Len pq"
proof -
  have "inj_on (\<lambda>a. it_Name (pq_items pq a)) (set (pq_data pq))"
    using assms by (intro inj_onI) (metis option.inject pq_ok_def synced_def)
  moreover have "distinct (pq_data pq)" using assms by (simp add: pq_ok_def indexed_def)
  ultimately show ?thesis using assms by (simp add: dom_contents card_image distinct_card Len_def)
qed

interpretation vault_queue: keyed_queue pq_ok contents popped
proof
  fix q :: "'v PriorityQueue" and k k' v v' p p' q'
  assume ok: "pq_ok q"
  show "finite (dom (contents q))" using dom_contents [OF ok] by simp
  show "popped q = None \<longleftrightarrow> contents q = Map.empty"
  proof (cases "pq_data q = []")
    case True
    then have "contents q = Map.empty" using dom_contents [OF ok] by (simp add: dom_eq_empty_conv)
    with True show ?thesis by (simp add: popped_def Pop_def)
  next
    case False
    with contents_first [OF ok] Pop_correct [OF ok] show ?thesis by (auto simp: popped_def fun_eq_iff)
  qed
  assume pop: "popped q = Some ((k, v, p), q')"
  then have ne: "pq_data q \<noteq> []" by (auto simp: popped_def Pop_def)
  obtain item where item: "Pop q = (Inr item, q')" "pq_ok q'" "core_of item = core_of (pq_items q (pq_data q ! 0))"
      "contents q' = (contents q)(it_Name item := None)" "core_of item = (k, v, p)"
    using Pop_correct [OF ok ne] pop by (auto simp: popped_def)
  then have first: "core_of (pq_items q (pq_data q ! 0)) = (k, v, p)" by simp
  then show "pq_ok q' \<and> contents q k = Some (v, p) \<and> contents q' = (contents q)(k := None)"
    using contents_first [OF ok ne] item(2,4,5) by (simp add: name_core)
  show "p \<le> p'" if "contents q k' = Some (v', p')"
    using contents_least(2) [OF ok that] item(3,5) by (simp add: core_of_def)
qed

definition copy_ok :: "('v Item \<Rightarrow> string + 'v Item) \<Rightarrow> bool" where
  "copy_ok copy \<longleftrightarrow> (\<forall>i c. copy i = Inr c \<longrightarrow> core_of c = core_of i)"

lemma Push_correct:
  assumes "pq_ok pq" "copy_ok copy" "Push copy (Some item) pq = (None, pq')"
  shows "pq_ok pq' \<and> contents pq (it_Name item) = None
    \<and> contents pq' = (contents pq)(it_Name item \<mapsto> (it_Value item, it_Priority item))"
proof -
  from assms(3) obtain clone where c: "copy item = Inr clone" "pq_dataMap pq (it_Name item) = None"
    by (auto simp: Push_def split: if_splits sum.splits)
  have "core_of clone = core_of item" using assms(2) c(1) by (simp add: copy_ok_def)
  then have eq: "it_Name clone = it_Name item" "it_Value clone = it_Value item" "it_Priority clone = it_Priority item"
    by (simp_all add: core_of_def)
  with heap_Push_correct [OF assms(1), of clone] c assms(3) show ?thesis
    by (auto simp: Push_def Let_def contents_def split: if_splits)
qed

lemma Push_error: "Push copy i pq = (Some e, pq') \<Longrightarrow> pq' = pq"
  by (auto simp: Push_def Let_def split: option.splits if_splits sum.splits)

lemma PopByKey_correct:
  assumes "pq_ok pq"
  shows "\<exists>r pq'. PopByKey pq key = Some (r, pq') \<and> pq_ok pq' \<and> contents pq' = (contents pq)(key := None)
    \<and> map_option (\<lambda>item. snd (core_of item)) r = contents pq key"
proof (cases "pq_dataMap pq key")
  case None
  then have "contents pq key = None" by (simp add: contents_def)
  with None assms show ?thesis by (auto simp: PopByKey_def fun_eq_iff)
next
  case (Some a)
  with heap_Remove_correct [OF assms Some] show ?thesis by (auto simp: PopByKey_def contents_def)
qed

text \<open>
  C38. Removal by key. An item that was pushed under its key is returned by \<open>PopByKey\<close> with its value
  and priority, and the queue has the contents it had before the push.
\<close>

theorem push_pop_by_key:
  assumes "pq_ok pq" "copy_ok copy" "Push copy (Some item) pq = (None, pq')"
  shows "\<exists>item' pq''. PopByKey pq' (it_Name item) = Some (Some item', pq'')
    \<and> it_Value item' = it_Value item \<and> it_Priority item' = it_Priority item
    \<and> pq_ok pq'' \<and> contents pq'' = contents pq"
proof -
  note push = Push_correct [OF assms]
  then obtain r pq'' where "PopByKey pq' (it_Name item) = Some (r, pq'')" "pq_ok pq''"
    "contents pq'' = (contents pq')(it_Name item := None)"
    "map_option (\<lambda>item. snd (core_of item)) r = Some (it_Value item, it_Priority item)"
    using PopByKey_correct [of pq' "it_Name item"] by auto
  moreover from this(3) push have "contents pq'' = contents pq" by (auto simp: fun_eq_iff)
  ultimately show ?thesis by (auto simp: core_of_def)
qed

datatype 'v call = CallPush "'v Item option" | CallPop | CallPopByKey string

fun run_calls :: "('v Item \<Rightarrow> string + 'v Item) \<Rightarrow> 'v call list \<Rightarrow> 'v PriorityQueue \<Rightarrow> 'v PriorityQueue option" where
  "run_calls copy [] pq = Some pq"
| "run_calls copy (CallPush i # cs) pq = run_calls copy cs (snd (Push copy i pq))"
| "run_calls copy (CallPop # cs) pq = run_calls copy cs (snd (Pop pq))"
| "run_calls copy (CallPopByKey key # cs) pq =
     (case PopByKey pq key of None \<Rightarrow> None | Some (_, pq') \<Rightarrow> run_calls copy cs pq')"

lemma New_ok: "pq_ok (New items)"
  by (simp add: New_def pq_ok_def indexed_def synced_def heap_order_def)

lemma Push_keeps: "pq_ok pq \<Longrightarrow> copy_ok copy \<Longrightarrow> pq_ok (snd (Push copy i pq))"
  using Push_correct [of pq copy] Push_error [of copy i pq]
  by (cases "Push copy i pq"; cases "fst (Push copy i pq)"; cases i) (auto simp: Push_def [of copy None])

lemma Pop_keeps: "pq_ok pq \<Longrightarrow> pq_ok (snd (Pop pq))"
  using Pop_correct [of pq] by (cases "pq_data pq = []") (auto simp: Pop_def [of pq])

text \<open>No call on a consistent queue panics or makes it inconsistent.\<close>

lemma run_calls_ok:
  assumes "copy_ok copy"
  shows "\<exists>pq. run_calls copy cs (New items) = Some pq \<and> pq_ok pq"
proof -
  have "pq_ok q \<Longrightarrow> \<exists>pq. run_calls copy cs q = Some pq \<and> pq_ok pq" for q
  proof (induction cs arbitrary: q)
    case (Cons c cs)
    show ?case
    proof (cases c)
      case (CallPush i)
      then show ?thesis using Cons.IH Push_keeps [OF Cons.prems assms] by simp
    next
      case CallPop
      then show ?thesis using Cons.IH Pop_keeps [OF Cons.prems] by simp
    next
      case (CallPopByKey key)
      then show ?thesis using Cons.IH PopByKey_correct [OF Cons.prems, of key] by auto
    qed
  qed simp
  then show ?thesis using New_ok by blast
qed

text \<open>
  C39. The queue. After any sequence of calls on a new queue, none of which can panic, the queue
  is consistent: the slice is a heap, every item knows its index, and the map has exactly the
  items of the slice. Taking items out until it is empty then returns every item once, in the
  order of their priorities, smallest first.
\<close>

theorem queue_drains_sorted:
  assumes "copy_ok copy"
  shows "\<exists>pq. run_calls copy cs (New items) = Some pq \<and> pq_ok pq
    \<and> sorted (map (\<lambda>(k, v, p). p) (drain popped (Len pq) pq))
    \<and> distinct (map fst (drain popped (Len pq) pq)) \<and> map_of (drain popped (Len pq) pq) = contents pq"
proof -
  obtain pq where pq: "run_calls copy cs (New items) = Some pq" "pq_ok pq"
    using run_calls_ok [OF assms] by blast
  then show ?thesis
    using vault_queue.drain_sorts [OF pq(2)] card_contents [OF pq(2)] by simp
qed

section \<open>An example\<close>

definition demo_item_of :: "string \<Rightarrow> int \<Rightarrow> nat Item" where
  "demo_item_of key p = \<lparr>it_Name = key, it_Value = length key, it_Priority = p, it_index = 0\<rparr>"

definition demo_calls :: "nat call list" where
  "demo_calls =
     [CallPush (Some (demo_item_of ''db'' 30)), CallPush (Some (demo_item_of ''aws'' 10)),
      CallPush (Some (demo_item_of ''ldap'' 20)), CallPush (Some (demo_item_of ''aws'' 5)), CallPush None]"

definition demo_queue :: "nat PriorityQueue" where
  "demo_queue = the (run_calls Inr demo_calls (New (\<lambda>_. demo_item_of [] 0)))"

lemma demo_copy: "copy_ok Inr"
  by (simp add: copy_ok_def)

lemma demo_queue_ok: "pq_ok demo_queue"
proof -
  let ?q = "New (\<lambda>_. demo_item_of [] 0)"
  have "demo_queue = snd (Push Inr None (snd (Push Inr (Some (demo_item_of ''aws'' 5))
      (snd (Push Inr (Some (demo_item_of ''ldap'' 20)) (snd (Push Inr (Some (demo_item_of ''aws'' 10))
      (snd (Push Inr (Some (demo_item_of ''db'' 30)) ?q)))))))))"
    by (simp add: demo_queue_def demo_calls_def)
  then show ?thesis using Push_keeps [OF _ demo_copy] New_ok by metis
qed

lemma demo_drained: "drain popped (Len demo_queue) demo_queue = [(''aws'', 3, 10), (''ldap'', 4, 20), (''db'', 2, 30)]"
  by code_simp

theorem queue_drains_sorted_witness:
  "sorted (map (\<lambda>(k, v, p). p) [(''aws'', 3::nat, 10::int), (''ldap'', 4, 20), (''db'', 2, 30)])
   \<and> contents demo_queue ''ldap'' = Some (4, 20)"
proof -
  obtain pq where pq: "run_calls Inr demo_calls (New (\<lambda>_. demo_item_of [] 0)) = Some pq"
    "sorted (map (\<lambda>(k, v, p). p) (drain popped (Len pq) pq))" "map_of (drain popped (Len pq) pq) = contents pq"
    using queue_drains_sorted [OF demo_copy, of demo_calls "\<lambda>_. demo_item_of [] 0"] by blast
  then have "pq = demo_queue" by (simp add: demo_queue_def)
  with pq demo_drained have "contents demo_queue = map_of [(''aws'', 3, 10), (''ldap'', 4, 20), (''db'', 2, 30)]"
    "sorted (map (\<lambda>(k, v, p). p) [(''aws'', 3::nat, 10::int), (''ldap'', 4, 20), (''db'', 2, 30)])"
    by simp_all
  then show ?thesis by simp
qed

lemma demo_pushed: "fst (Push Inr (Some (demo_item_of ''kv'' 15)) demo_queue) = None"
  by code_simp

theorem push_pop_by_key_witness:
  "\<exists>item' pq''. PopByKey (snd (Push Inr (Some (demo_item_of ''kv'' 15)) demo_queue)) ''kv'' = Some (Some item', pq'')
     \<and> it_Priority item' = 15 \<and> contents pq'' = contents demo_queue"
proof -
  have "Push Inr (Some (demo_item_of ''kv'' 15)) demo_queue =
      (None, snd (Push Inr (Some (demo_item_of ''kv'' 15)) demo_queue))"
    using demo_pushed by (simp add: prod_eq_iff)
  from push_pop_by_key [OF demo_queue_ok demo_copy this] show ?thesis by (auto simp: demo_item_of_def)
qed

end
