(* ===== verification/Router.thy ===== *)
theory Router
  imports Storage Policy Radix
begin

text \<open>
  The router of \<open>vault/router.go\<close>: the table of mounts, the search for the mount of a path, and the
  special paths of a backend (those that need root privileges, those that need no login). The
  route entries are shared by two trees of the source, so they live in a store of addresses. The
  radix trees are parameters.
\<close>

section \<open>Data\<close>

record Paths =
  ps_Root :: "string list"
  ps_Unauthenticated :: "string list"
  ps_LocalStorage :: "string list"
  ps_SealWrapStorage :: "string list"
  ps_WriteForwardedStorage :: "string list"
  ps_Binary :: "string list"
  ps_Limited :: "string list"
  ps_AllowSnapshotRead :: "string list"

definition no_paths :: Paths where
  "no_paths =
     \<lparr>ps_Root = [], ps_Unauthenticated = [], ps_LocalStorage = [], ps_SealWrapStorage = [],
      ps_WriteForwardedStorage = [], ps_Binary = [], ps_Limited = [], ps_AllowSnapshotRead = []\<rparr>"

text \<open>Of a backend, the router reads its special paths; \<open>None\<close> is nil.\<close>

record Backend =
  be_SpecialPaths :: "Paths option"

text \<open>The fields of a mount entry that the router reads.\<close>

record MountEntry =
  me_Table :: string
  me_Path :: string
  me_Type :: string
  me_UUID :: string
  me_Accessor :: string
  me_Local :: bool
  me_Tainted :: bool
  me_namespace :: Namespace

record wildcardPath =
  wp_segments :: "string list"
  wp_isPrefix :: bool

record 'p specialPathsEntry =
  se_paths :: 'p
  se_wildcardPaths :: "wildcardPath list"

record 'p routeEntry =
  re_tainted :: bool
  re_backend :: "Backend option"
  re_mountEntry :: MountEntry
  re_storageView :: BarrierView
  re_storagePrefix :: string
  re_rootPaths :: 'p
  re_loginPaths :: "'p specialPathsEntry"
  re_binaryPaths :: "'p specialPathsEntry"
  re_limitedPaths :: "'p specialPathsEntry"
  re_allowSnapshotReadPaths :: "'p specialPathsEntry"

record ('r, 'm, 'p) Router =
  ro_root :: 'r
  ro_mountUUIDCache :: 'm
  ro_mountAccessorCache :: 'm
  ro_storagePrefix :: 'r
  ro_entries :: "nat \<Rightarrow> 'p routeEntry"
  ro_fresh :: nat

text \<open>The trees of addresses, of mount entries and of special paths.\<close>

record ('r, 'm, 'p) trees =
  tr_route :: "('r, nat) radix_ops"
  tr_mount :: "('m, MountEntry) radix_ops"
  tr_path :: "('p, bool) radix_ops"

section \<open>Special paths\<close>

definition pathMatchesWildcardPath :: "string list \<Rightarrow> string list \<Rightarrow> bool \<Rightarrow> bool" where
  "pathMatchesWildcardPath path wcPath isPrefix =
     (if wcPath = [] then False
      else if length path < length wcPath then False
      else if \<not> isPrefix \<and> length wcPath \<noteq> length path then False
      else list_all (\<lambda>i. wcPath ! i = ''+'' \<or> wcPath ! i = path ! i
               \<or> isPrefix \<and> Suc i = length wcPath \<and> has_prefix (path ! i) (wcPath ! i))
             [0..<length wcPath])"

text \<open>The pattern finds a plus next to a character other than a slash.\<close>

fun wcAdjacentNonSlashRegEx :: "string \<Rightarrow> bool" where
  "wcAdjacentNonSlashRegEx (a # b # s) \<longleftrightarrow>
     a = CHR ''+'' \<and> b \<noteq> CHR ''/'' \<or> a \<noteq> CHR ''/'' \<and> b = CHR ''+'' \<or> wcAdjacentNonSlashRegEx (b # s)"
| "wcAdjacentNonSlashRegEx _ \<longleftrightarrow> False"

definition wildcardError :: "string \<Rightarrow> string \<Rightarrow> err" where
  "wildcardError path msg = ErrWrap (''path '' @ path) (ErrBackend (''invalid use of wildcards '' @ msg))"

definition isValidSpecialPath :: "string \<Rightarrow> err option" where
  "isValidSpecialPath path =
     (if count_list path (CHR ''*'') > 1 then Some (wildcardError path ''(multiple '*' is forbidden)'')
      else if contains_sub path ''+*'' then Some (wildcardError path ''('+*' is forbidden)'')
      else if CHR ''*'' \<in> set path \<and> last path \<noteq> CHR ''*''
      then Some (wildcardError path ''('*' is only allowed at the end of a path)'')
      else if wcAdjacentNonSlashRegEx path
      then Some (wildcardError path ''('+' is not allowed next to a non-slash)'')
      else None)"

definition add_path :: "('p, bool) radix_ops \<Rightarrow> 'p \<Rightarrow> string \<Rightarrow> 'p" where
  "add_path rx tree path =
     (if path \<noteq> [] \<and> last path = CHR ''*'' then rx_Insert rx tree (butlast path) True
      else rx_Insert rx tree path False)"

definition pathsToRadix :: "('p, bool) radix_ops \<Rightarrow> string list \<Rightarrow> 'p" where
  "pathsToRadix rx paths = foldl (add_path rx) (rx_New rx) paths"

definition wildcard_path :: "string \<Rightarrow> wildcardPath" where
  "wildcard_path path =
     (if last path = CHR ''*''
      then \<lparr>wp_segments = split_on (CHR ''/'') (butlast path), wp_isPrefix = True\<rparr>
      else \<lparr>wp_segments = split_on (CHR ''/'') path, wp_isPrefix = False\<rparr>)"

fun special_loop :: "string list \<Rightarrow> string list \<Rightarrow> wildcardPath list \<Rightarrow> err + (string list \<times> wildcardPath list)" where
  "special_loop [] tempPaths tempWildcardPaths = Inr (tempPaths, tempWildcardPaths)"
| "special_loop (path # paths) tempPaths tempWildcardPaths =
     (case isValidSpecialPath path of
        Some e \<Rightarrow> Inl e
      | None \<Rightarrow>
          if CHR ''+'' \<in> set path
          then special_loop paths tempPaths (tempWildcardPaths @ [wildcard_path path])
          else special_loop paths (tempPaths @ [path]) tempWildcardPaths)"

definition parseSpecialPaths :: "('p, bool) radix_ops \<Rightarrow> string list \<Rightarrow> err + 'p specialPathsEntry" where
  "parseSpecialPaths rx paths =
     (case special_loop paths [] [] of
        Inl e \<Rightarrow> Inl e
      | Inr (tempPaths, tempWildcardPaths) \<Rightarrow>
          Inr \<lparr>se_paths = pathsToRadix rx tempPaths, se_wildcardPaths = tempWildcardPaths\<rparr>)"

definition match_root :: "('p, bool) radix_ops \<Rightarrow> 'p \<Rightarrow> string \<Rightarrow> bool" where
  "match_root rx rootPaths remain =
     (case rx_LongestPrefix rx rootPaths remain of
        None \<Rightarrow> False
      | Some (match, prefixMatch) \<Rightarrow> if prefixMatch then has_prefix remain match else match = remain)"

definition match_special :: "('p, bool) radix_ops \<Rightarrow> 'p specialPathsEntry \<Rightarrow> string \<Rightarrow> bool" where
  "match_special rx pe remain =
     (let wild = list_ex (\<lambda>w. pathMatchesWildcardPath (split_on (CHR ''/'') remain) (wp_segments w) (wp_isPrefix w))
            (se_wildcardPaths pe) in
      case rx_LongestPrefix rx (se_paths pe) remain of
        None \<Rightarrow> if se_wildcardPaths pe = [] then False else wild
      | Some (match, prefixMatch) \<Rightarrow>
          if prefixMatch then has_prefix remain match
          else if match = remain then True
          else wild)"

section \<open>Mounting\<close>

definition NewRouter :: "('r, 'm, 'p) trees \<Rightarrow> (nat \<Rightarrow> 'p routeEntry) \<Rightarrow> ('r, 'm, 'p) Router" where
  "NewRouter ts entries =
     \<lparr>ro_root = rx_New (tr_route ts), ro_mountUUIDCache = rx_New (tr_mount ts),
      ro_mountAccessorCache = rx_New (tr_mount ts), ro_storagePrefix = rx_New (tr_route ts),
      ro_entries = entries, ro_fresh = 0\<rparr>"

definition reset :: "('r, 'm, 'p) trees \<Rightarrow> ('r, 'm, 'p) Router \<Rightarrow> ('r, 'm, 'p) Router" where
  "reset ts r =
     r\<lparr>ro_root := rx_New (tr_route ts), ro_storagePrefix := rx_New (tr_route ts),
       ro_mountUUIDCache := rx_New (tr_mount ts), ro_mountAccessorCache := rx_New (tr_mount ts)\<rparr>"

definition backend_paths :: "Backend option \<Rightarrow> Paths" where
  "backend_paths backend =
     (case backend of
        None \<Rightarrow> no_paths
      | Some b \<Rightarrow> (case be_SpecialPaths b of None \<Rightarrow> no_paths | Some ps \<Rightarrow> ps))"

definition new_entry ::
  "('p, bool) radix_ops \<Rightarrow> Backend option \<Rightarrow> MountEntry \<Rightarrow> BarrierView \<Rightarrow> err + 'p routeEntry" where
  "new_entry rx backend mountEntry storageView =
     (let paths = backend_paths backend in
      case parseSpecialPaths rx (ps_Unauthenticated paths) of
        Inl e \<Rightarrow> Inl e
      | Inr loginPaths \<Rightarrow>
        (case parseSpecialPaths rx (ps_Binary paths) of
           Inl e \<Rightarrow> Inl e
         | Inr binaryPaths \<Rightarrow>
           (case parseSpecialPaths rx (ps_Limited paths) of
              Inl e \<Rightarrow> Inl e
            | Inr limitedPaths \<Rightarrow>
              (case parseSpecialPaths rx (ps_AllowSnapshotRead paths) of
                 Inl e \<Rightarrow> Inl e
               | Inr snapshotPaths \<Rightarrow>
                   Inr \<lparr>re_tainted = me_Tainted mountEntry, re_backend = backend, re_mountEntry = mountEntry,
                        re_storageView = storageView, re_storagePrefix = sv_prefix (bv_storage storageView),
                        re_rootPaths = pathsToRadix rx (ps_Root paths), re_loginPaths = loginPaths,
                        re_binaryPaths = binaryPaths, re_limitedPaths = limitedPaths,
                        re_allowSnapshotReadPaths = snapshotPaths\<rparr>))))"

text \<open>Every error leaves the table as it is.\<close>

definition Mount ::
  "('r, 'm, 'p) trees \<Rightarrow> ('r, 'm, 'p) Router \<Rightarrow> Backend option \<Rightarrow> string \<Rightarrow> MountEntry \<Rightarrow> BarrierView \<Rightarrow>
   err + ('r, 'm, 'p) Router" where
  "Mount ts r backend mountPath mountEntry storageView =
     (let prefix = ns_Path (me_namespace mountEntry) @ mountPath;
          nested = (case rx_LongestPrefix (tr_route ts) (ro_root r) prefix of
                      None \<Rightarrow> False
                    | Some (existing, _) \<Rightarrow> existing \<noteq> []) in
      if nested then fail ''cannot mount under existing mount''
      else (case new_entry (tr_path ts) backend mountEntry storageView of
              Inl e \<Rightarrow> Inl e
            | Inr re \<Rightarrow>
                if prefix = [] then fail ''missing prefix to be used for router entry''
                else if re_storagePrefix re = [] then fail ''missing storage view prefix''
                else if me_UUID mountEntry = [] then fail ''missing mount identifier''
                else if me_Accessor mountEntry = [] then fail ''missing mount accessor''
                else Inr (r
                  \<lparr>ro_entries := (ro_entries r)(ro_fresh r := re), ro_fresh := Suc (ro_fresh r),
                   ro_root := rx_Insert (tr_route ts) (ro_root r) prefix (ro_fresh r),
                   ro_storagePrefix :=
                     rx_Insert (tr_route ts) (ro_storagePrefix r) (re_storagePrefix re) (ro_fresh r),
                   ro_mountUUIDCache := rx_Insert (tr_mount ts) (ro_mountUUIDCache r) (me_UUID mountEntry) mountEntry,
                   ro_mountAccessorCache :=
                     rx_Insert (tr_mount ts) (ro_mountAccessorCache r) (me_Accessor mountEntry) mountEntry\<rparr>)))"

text \<open>The source also calls the \<open>Cleanup\<close> of the backend, which does not touch the router.\<close>

definition Unmount ::
  "('r, 'm, 'p) trees \<Rightarrow> ('r, 'm, 'p) Router \<Rightarrow> err + Namespace \<Rightarrow> string \<Rightarrow> err + ('r, 'm, 'p) Router" where
  "Unmount ts r ctx mountPath =
     (case ctx of
        Inl e \<Rightarrow> Inl e
      | Inr ns \<Rightarrow>
          (let prefix = ns_Path ns @ mountPath in
           case rx_Get (tr_route ts) (ro_root r) prefix of
             None \<Rightarrow> Inr r
           | Some a \<Rightarrow>
               (let re = ro_entries r a in
                Inr (r
                  \<lparr>ro_root := rx_Delete (tr_route ts) (ro_root r) prefix,
                   ro_storagePrefix := rx_Delete (tr_route ts) (ro_storagePrefix r) (re_storagePrefix re),
                   ro_mountUUIDCache :=
                     rx_Delete (tr_mount ts) (ro_mountUUIDCache r) (me_UUID (re_mountEntry re)),
                   ro_mountAccessorCache :=
                     rx_Delete (tr_mount ts) (ro_mountAccessorCache r) (me_Accessor (re_mountEntry re))\<rparr>))))"

definition Remount ::
  "('r, 'm, 'p) trees \<Rightarrow> ('r, 'm, 'p) Router \<Rightarrow> err + Namespace \<Rightarrow> string \<Rightarrow> string \<Rightarrow> err + ('r, 'm, 'p) Router" where
  "Remount ts r ctx source target =
     (case ctx of
        Inl e \<Rightarrow> Inl e
      | Inr ns \<Rightarrow>
          (let src = ns_Path ns @ source; dst = ns_Path ns @ target in
           case rx_Get (tr_route ts) (ro_root r) src of
             None \<Rightarrow> fail ''no mount''
           | Some raw \<Rightarrow>
               Inr (r\<lparr>ro_root := rx_Insert (tr_route ts) (rx_Delete (tr_route ts) (ro_root r) src) dst raw\<rparr>)))"

definition set_tainted :: "bool \<Rightarrow> nat \<Rightarrow> ('r, 'm, 'p) Router \<Rightarrow> ('r, 'm, 'p) Router" where
  "set_tainted b a r = r\<lparr>ro_entries := (ro_entries r)(a := (ro_entries r a)\<lparr>re_tainted := b\<rparr>)\<rparr>"

definition Taint ::
  "('r, 'm, 'p) trees \<Rightarrow> ('r, 'm, 'p) Router \<Rightarrow> err + Namespace \<Rightarrow> string \<Rightarrow> err + ('r, 'm, 'p) Router" where
  "Taint ts r ctx path =
     (case ctx of
        Inl e \<Rightarrow> Inl e
      | Inr ns \<Rightarrow>
          (case rx_LongestPrefix (tr_route ts) (ro_root r) (ns_Path ns @ path) of
             None \<Rightarrow> Inr r
           | Some (_, a) \<Rightarrow> Inr (set_tainted True a r)))"

definition Untaint ::
  "('r, 'm, 'p) trees \<Rightarrow> ('r, 'm, 'p) Router \<Rightarrow> err + Namespace \<Rightarrow> string \<Rightarrow> err + ('r, 'm, 'p) Router" where
  "Untaint ts r ctx path =
     (case ctx of
        Inl e \<Rightarrow> Inl e
      | Inr ns \<Rightarrow>
          (case rx_LongestPrefix (tr_route ts) (ro_root r) (ns_Path ns @ path) of
             None \<Rightarrow> Inr r
           | Some (_, a) \<Rightarrow> Inr (set_tainted False a r)))"

section \<open>Searching\<close>

definition MatchingMountByUUID :: "('r, 'm, 'p) trees \<Rightarrow> ('r, 'm, 'p) Router \<Rightarrow> string \<Rightarrow> MountEntry option" where
  "MatchingMountByUUID ts r mountID =
     (if mountID = [] then None
      else map_option snd (rx_LongestPrefix (tr_mount ts) (ro_mountUUIDCache r) mountID))"

definition MatchingMountByAccessor :: "('r, 'm, 'p) trees \<Rightarrow> ('r, 'm, 'p) Router \<Rightarrow> string \<Rightarrow> MountEntry option" where
  "MatchingMountByAccessor ts r mountAccessor =
     (if mountAccessor = [] then None
      else map_option snd (rx_LongestPrefix (tr_mount ts) (ro_mountAccessorCache r) mountAccessor))"

record ValidateMountResponse =
  vm_MountType :: string
  vm_MountAccessor :: string
  vm_MountPath :: string
  vm_MountLocal :: bool

definition ValidateMountByAccessor ::
  "('r, 'm, 'p) trees \<Rightarrow> ('r, 'm, 'p) Router \<Rightarrow> string \<Rightarrow> ValidateMountResponse option" where
  "ValidateMountByAccessor ts r accessor =
     (if accessor = [] then None
      else map_option (\<lambda>me.
             \<lparr>vm_MountType = me_Type me, vm_MountAccessor = me_Accessor me,
              vm_MountPath = (if me_Table me = ''auth'' then ''auth/'' @ me_Path me else me_Path me),
              vm_MountLocal = me_Local me\<rparr>)
             (MatchingMountByAccessor ts r accessor))"

definition find_route ::
  "('r, 'm, 'p) trees \<Rightarrow> ('r, 'm, 'p) Router \<Rightarrow> string \<Rightarrow> (string \<times> 'p routeEntry) option" where
  "find_route ts r path =
     map_option (\<lambda>(mount, a). (mount, ro_entries r a)) (rx_LongestPrefix (tr_route ts) (ro_root r) path)"

definition matchingMountInternal ::
  "('r, 'm, 'p) trees \<Rightarrow> ('r, 'm, 'p) Router \<Rightarrow> err + Namespace \<Rightarrow> string \<Rightarrow> string \<times> MountEntry option" where
  "matchingMountInternal ts r ctx path =
     (case ctx of
        Inl _ \<Rightarrow> ([], None)
      | Inr ns \<Rightarrow>
          (case find_route ts r (ns_Path ns @ path) of
             None \<Rightarrow> ([], None)
           | Some (mount, re) \<Rightarrow> (mount, Some (re_mountEntry re))))"

definition MatchingMount ::
  "('r, 'm, 'p) trees \<Rightarrow> ('r, 'm, 'p) Router \<Rightarrow> err + Namespace \<Rightarrow> string \<Rightarrow> string" where
  "MatchingMount ts r ctx path = fst (matchingMountInternal ts r ctx path)"

text \<open>The walk stops at the first entry below the path.\<close>

definition matchingPrefixInternal ::
  "('r, 'm, 'p) trees \<Rightarrow> ('r, 'm, 'p) Router \<Rightarrow> err + Namespace \<Rightarrow> string \<Rightarrow> string" where
  "matchingPrefixInternal ts r ctx path =
     (case ctx of
        Inl _ \<Rightarrow> []
      | Inr ns \<Rightarrow>
          (let path = ns_Path ns @ path in
           case filter (\<lambda>(existingPath, _). has_prefix existingPath path)
                  (rx_WalkPrefix (tr_route ts) (ro_root r) path) of
             [] \<Rightarrow> []
           | (existing, _) # _ \<Rightarrow> existing))"

definition MountConflict ::
  "('r, 'm, 'p) trees \<Rightarrow> ('r, 'm, 'p) Router \<Rightarrow> err + Namespace \<Rightarrow> string \<Rightarrow> string" where
  "MountConflict ts r ctx path =
     (let exactMatch = fst (matchingMountInternal ts r ctx path) in
      if exactMatch \<noteq> [] then exactMatch else matchingPrefixInternal ts r ctx path)"

definition matchingStorage ::
  "('r, 'm, 'p) trees \<Rightarrow> ('r, 'm, 'p) Router \<Rightarrow> err + Namespace \<Rightarrow> string \<Rightarrow> bool \<Rightarrow> BarrierView option" where
  "matchingStorage ts r ctx path apiPath =
     (case ctx of
        Inl _ \<Rightarrow> None
      | Inr ns \<Rightarrow>
          map_option (\<lambda>(_, a). re_storageView (ro_entries r a))
            (rx_LongestPrefix (tr_route ts) (if apiPath then ro_root r else ro_storagePrefix r)
               (ns_Path ns @ path)))"

definition MatchingBackendAndMountEntry ::
  "('r, 'm, 'p) trees \<Rightarrow> ('r, 'm, 'p) Router \<Rightarrow> err + Namespace \<Rightarrow> string \<Rightarrow> Backend option \<times> MountEntry option" where
  "MatchingBackendAndMountEntry ts r ctx path =
     (case ctx of
        Inl _ \<Rightarrow> (None, None)
      | Inr ns \<Rightarrow>
          (case find_route ts r (ns_Path ns @ path) of
             None \<Rightarrow> (None, None)
           | Some (_, re) \<Rightarrow> (re_backend re, Some (re_mountEntry re))))"

definition matchingMountEntryByPath ::
  "('r, 'm, 'p) trees \<Rightarrow> ('r, 'm, 'p) Router \<Rightarrow> string \<Rightarrow> bool \<Rightarrow> (MountEntry \<times> string) option" where
  "matchingMountEntryByPath ts r path apiPath =
     map_option (\<lambda>(_, a). (re_mountEntry (ro_entries r a), re_storagePrefix (ro_entries r a)))
       (rx_LongestPrefix (tr_route ts) (if apiPath then ro_root r else ro_storagePrefix r) path)"

definition MatchingStoragePrefixByAPIPath ::
  "('r, 'm, 'p) trees \<Rightarrow> ('r, 'm, 'p) Router \<Rightarrow> err + Namespace \<Rightarrow> string \<Rightarrow> string option" where
  "MatchingStoragePrefixByAPIPath ts r ctx path =
     (case ctx of
        Inl _ \<Rightarrow> None
      | Inr ns \<Rightarrow> map_option snd (matchingMountEntryByPath ts r (ns_Path ns @ path) True))"

definition MatchingAPIPrefixByStoragePath ::
  "('r, 'm, 'p) trees \<Rightarrow> ('r, 'm, 'p) Router \<Rightarrow> string \<Rightarrow> (Namespace \<times> string \<times> string) option" where
  "MatchingAPIPrefixByStoragePath ts r path =
     map_option (\<lambda>(me, prefix).
         (me_namespace me, if has_prefix path ''auth/'' then ''auth/'' @ me_Path me else me_Path me, prefix))
       (matchingMountEntryByPath ts r path False)"

definition RootPath ::
  "('r, 'm, 'p) trees \<Rightarrow> ('r, 'm, 'p) Router \<Rightarrow> err + Namespace \<Rightarrow> string \<Rightarrow> bool" where
  "RootPath ts r ctx path =
     (case ctx of
        Inl _ \<Rightarrow> False
      | Inr ns \<Rightarrow>
          (let adjustedPath = ns_Path ns @ path in
           case find_route ts r adjustedPath of
             None \<Rightarrow> False
           | Some (mount, re) \<Rightarrow>
               match_root (tr_path ts) (re_rootPaths re) (trim_prefix adjustedPath mount)))"

definition specialPath ::
  "('r, 'm, 'p) trees \<Rightarrow> ('r, 'm, 'p) Router \<Rightarrow> err + Namespace \<Rightarrow> string \<Rightarrow> ('p routeEntry \<Rightarrow> 'p specialPathsEntry) \<Rightarrow> bool"
where
  "specialPath ts r ctx path lookup =
     (case ctx of
        Inl _ \<Rightarrow> False
      | Inr ns \<Rightarrow>
          (let adjustedPath = ns_Path ns @ path in
           case find_route ts r adjustedPath of
             None \<Rightarrow> False
           | Some (mount, re) \<Rightarrow>
               match_special (tr_path ts) (lookup re) (trim_prefix adjustedPath mount)))"

definition LoginPath ::
  "('r, 'm, 'p) trees \<Rightarrow> ('r, 'm, 'p) Router \<Rightarrow> err + Namespace \<Rightarrow> string \<Rightarrow> bool" where
  "LoginPath ts r ctx path = specialPath ts r ctx path re_loginPaths"

definition BinaryPath ::
  "('r, 'm, 'p) trees \<Rightarrow> ('r, 'm, 'p) Router \<Rightarrow> err + Namespace \<Rightarrow> string \<Rightarrow> bool" where
  "BinaryPath ts r ctx path = specialPath ts r ctx path re_binaryPaths"

definition LimitedPath ::
  "('r, 'm, 'p) trees \<Rightarrow> ('r, 'm, 'p) Router \<Rightarrow> err + Namespace \<Rightarrow> string \<Rightarrow> bool" where
  "LimitedPath ts r ctx path = specialPath ts r ctx path re_limitedPaths"

definition AllowSnapshotReadPath ::
  "('r, 'm, 'p) trees \<Rightarrow> ('r, 'm, 'p) Router \<Rightarrow> err + Namespace \<Rightarrow> string \<Rightarrow> bool" where
  "AllowSnapshotReadPath ts r ctx path = specialPath ts r ctx path re_allowSnapshotReadPaths"

text \<open>
  The head of \<open>routeCommon\<close>: the entry that a request goes to, with the path that its backend sees.
  A path without a handler is tried again with a slash at its end.
\<close>

definition route_target ::
  "('r, 'm, 'p) trees \<Rightarrow> ('r, 'm, 'p) Router \<Rightarrow> err + Namespace \<Rightarrow> Request \<Rightarrow> err + ('p routeEntry \<times> string \<times> string)"
where
  "route_target ts r ctx req =
     (case ctx of
        Inl e \<Rightarrow> Inl e
      | Inr ns \<Rightarrow>
          (let first = find_route ts r (ns_Path ns @ rq_Path req);
               retry = (Option.is_none first \<and> \<not> has_suffix (rq_Path req) ''/'');
               adjustedPath = (if retry then rq_Path req @ ''/'' else rq_Path req);
               found = (if retry then find_route ts r (ns_Path ns @ adjustedPath) else first) in
           case found of
             None \<Rightarrow> Inl ErrUnsupportedPath
           | Some (mount, re) \<Rightarrow>
               if Option.is_none (re_backend re) then Inl ErrUnsupportedPath
               else if re_tainted re \<and> rq_Operation req \<notin> {RevokeOperation, RollbackOperation}
               then Inl ErrUnsupportedPath
               else let path = trim_prefix (ns_Path ns @ adjustedPath) mount in
                 Inr (re, if path = ''/'' then [] else path, mount)))"

section \<open>Request headers\<close>

text \<open>\<open>difference\<close> stands for \<open>strutil.Difference\<close> with its flag for lower case set.\<close>

definition filteredHeaders ::
  "(string list \<Rightarrow> string list \<Rightarrow> string list) \<Rightarrow> headers \<Rightarrow> string list \<Rightarrow> string list \<Rightarrow> headers option" where
  "filteredHeaders difference origHeaders candidateHeaders deniedHeaders =
     (if candidateHeaders = [] then None
      else let lowerOrigHeaderKeys = fold (\<lambda>(key, _) m. AList.update (to_lower key) key m) origHeaders [] in
        Some (fold (\<lambda>ch ret.
                 case map_of lowerOrigHeaderKeys ch of
                   None \<Rightarrow> ret
                 | Some header \<Rightarrow>
                     AList.update header (case map_of origHeaders header of None \<Rightarrow> [] | Some vs \<Rightarrow> vs) ret)
               (difference candidateHeaders deniedHeaders) []))"

section \<open>Root paths of the system backend\<close>

definition systemRootPaths :: "string list" where
  "systemRootPaths =
     [''auth/*'', ''remount'', ''audit'', ''audit/*'', ''raw'', ''raw/*'',
      ''replication/primary/secondary-token'', ''replication/performance/primary/secondary-token'',
      ''replication/dr/primary/secondary-token'', ''replication/reindex'', ''replication/dr/reindex'',
      ''replication/performance/reindex'', ''rotate'', ''config/cors'', ''config/auditing/*'',
      ''config/ui/headers/*'', ''plugins/catalog/*'', ''plugins/runtimes/catalog/*'',
      ''revoke-prefix/*'', ''revoke-force/*'', ''leases/revoke-prefix/*'', ''leases/revoke-force/*'',
      ''leases/lookup/*'', ''storage/raft/snapshot-auto/config/*'', ''leases'', ''reporting/scan'',
      ''internal/inspect/*'', ''internal/counters/activity/export'', ''seal'', ''step-down'',
      ''activation-flags/oauth-resource-server/activate'',
      ''activation-flags/oauth-resource-server/deactivate'', ''config/oauth-resource-server/*'',
      ''approvals/config'', ''approvals/pending'']"

text \<open>The path of a LIST request as the HTTP layer builds it.\<close>

definition list_request_path :: "string \<Rightarrow> string" where
  "list_request_path path = (if has_suffix path ''/'' then path else path @ ''/'')"

end
