(* ===== verification/Router_Laws.thy ===== *)
theory Router_Laws
  imports Router
begin

text \<open>
  What the router decides: which requests need root privileges, which mount a path belongs to, and
  that mounting and unmounting touch nothing else. The last section is about the approval
  endpoints of the system backend.
\<close>

section \<open>Root paths\<close>

definition starred :: "string \<Rightarrow> bool" where
  "starred p \<longleftrightarrow> p \<noteq> [] \<and> last p = CHR ''*''"

definition path_key :: "string \<Rightarrow> string" where
  "path_key p = (if starred p then butlast p else p)"

text \<open>A listed path covers a request path: by prefix with a star, else exactly.\<close>

definition root_match :: "string list \<Rightarrow> string \<Rightarrow> bool" where
  "root_match ps remain \<longleftrightarrow>
     list_ex (\<lambda>p. if starred p then has_prefix remain (butlast p) else remain = p) ps"

text \<open>No prefix entry is shadowed by a longer exact entry.\<close>

definition unshadowed :: "string list \<Rightarrow> bool" where
  "unshadowed ps \<longleftrightarrow>
     list_all (\<lambda>p. starred p \<longrightarrow> list_all (\<lambda>q. starred q \<or> \<not> has_prefix q (butlast p)) ps) ps"

lemma add_path_get:
  "radix_ok rx \<Longrightarrow> rx_Get rx (add_path rx t p) = (rx_Get rx t)(path_key p \<mapsto> starred p)"
  by (simp add: add_path_def path_key_def starred_def radix_laws)

lemma pathsToRadix_snoc: "pathsToRadix rx (ps @ [p]) = add_path rx (pathsToRadix rx ps) p"
  by (simp add: pathsToRadix_def)

lemma pathsToRadix_get:
  assumes "radix_ok rx"
  shows "rx_Get rx (pathsToRadix rx ps) k = Some b \<Longrightarrow> \<exists>p \<in> set ps. path_key p = k \<and> starred p = b"
    "p \<in> set ps \<Longrightarrow> rx_Get rx (pathsToRadix rx ps) (path_key p) \<noteq> None"
proof (induction ps rule: rev_induct)
  case Nil
  { case 1 then show ?case using assms by (simp add: pathsToRadix_def radix_laws) }
  { case 2 then show ?case by simp }
next
  case (snoc q ps)
  { case 1 with snoc(1) show ?case
      by (auto simp: pathsToRadix_snoc add_path_get [OF assms] split: if_splits) }
  { case 2 with snoc(2) show ?case
      by (auto simp: pathsToRadix_snoc add_path_get [OF assms]) }
qed

lemma unshadowed_key:
  assumes "unshadowed ps" "p \<in> set ps" "q \<in> set ps" "starred p" "\<not> starred q"
  shows "\<not> has_prefix (path_key q) (path_key p)"
  using assms by (auto simp: unshadowed_def path_key_def list_all_iff)

lemma has_prefix_shorter:
  "has_prefix s k \<Longrightarrow> has_prefix s k' \<Longrightarrow> length k \<le> length k' \<Longrightarrow> has_prefix k' k"
  by (auto simp: has_prefix_iff append_eq_append_conv2)

lemma match_root_iff:
  assumes "radix_ok rx" "unshadowed ps"
  shows "match_root rx (pathsToRadix rx ps) remain \<longleftrightarrow> root_match ps remain"
proof -
  let ?t = "pathsToRadix rx ps"
  let ?r = "rx_LongestPrefix rx ?t remain"
  have lp: "longest_prefix (rx_Get rx ?t) remain ?r" using assms(1) by (rule radix_laws)
  have cov: "has_prefix remain (path_key p)" if "if starred p then has_prefix remain (butlast p) else remain = p" for p
    using that by (auto simp: path_key_def has_prefix_iff split: if_splits)
  show ?thesis
  proof (cases ?r)
    case None
    then have "\<not> has_prefix remain (path_key p)" if "p \<in> set ps" for p
      using lp pathsToRadix_get(2) [OF assms(1) that] by (auto simp: longest_prefix_def)
    then have "\<not> root_match ps remain" using cov unfolding root_match_def list_ex_iff by blast
    with None show ?thesis by (simp add: match_root_def)
  next
    case (Some x)
    then obtain k b where k: "?r = Some (k, b)" by (cases x) simp
    with lp have pre: "has_prefix remain k" "rx_Get rx ?t k = Some b"
      and longest: "\<And>j. has_prefix remain j \<Longrightarrow> rx_Get rx ?t j \<noteq> None \<Longrightarrow> length j \<le> length k"
      by (auto simp: longest_prefix_def)
    obtain q where q: "q \<in> set ps" "path_key q = k" "starred q = b"
      using pathsToRadix_get(1) [OF assms(1) pre(2)] by blast
    show ?thesis
    proof (cases b)
      case True
      then have "root_match ps remain" using q pre(1) by (auto simp: root_match_def list_ex_iff path_key_def)
      with True k pre(1) show ?thesis by (simp add: match_root_def)
    next
      case False
      have "root_match ps remain \<longleftrightarrow> remain = k"
      proof
        assume "root_match ps remain"
        then obtain p where p: "p \<in> set ps" "if starred p then has_prefix remain (butlast p) else remain = p"
          by (auto simp: root_match_def list_ex_iff)
        have len: "length (path_key p) \<le> length k"
          using longest [OF cov [OF p(2)] pathsToRadix_get(2) [OF assms(1) p(1)]] .
        then have "has_prefix k (path_key p)" using has_prefix_shorter [OF cov [OF p(2)] pre(1)] by simp
        then have "\<not> starred p" using unshadowed_key [OF assms(2) p(1) q(1)] q False by auto
        then have "path_key p = remain" using p(2) by (simp add: path_key_def)
        with len pre(1) show "remain = k" by (auto simp: has_prefix_iff)
      next
        assume "remain = k"
        with q False show "root_match ps remain" by (auto simp: root_match_def list_ex_iff path_key_def)
      qed
      with k False show ?thesis by (auto simp: match_root_def)
    qed
  qed
qed

text \<open>
  C34. Root paths. On a mount whose list has no prefix entry that a longer exact entry shadows, a
  request needs root privileges exactly when some entry of the list covers the rest of its path.
\<close>

theorem root_paths_exact:
  assumes "radix_ok (tr_path ts)" "find_route ts r (ns_Path ns @ path) = Some (mount, re)"
    "re_rootPaths re = pathsToRadix (tr_path ts) ps" "unshadowed ps"
  shows "RootPath ts r (Inr ns) path \<longleftrightarrow> root_match ps (trim_prefix (ns_Path ns @ path) mount)"
  using assms by (simp add: RootPath_def match_root_iff)

section \<open>Mounting\<close>

definition router_ok :: "('r, 'm, 'p) trees \<Rightarrow> ('r, 'm, 'p) Router \<Rightarrow> bool" where
  "router_ok ts r \<longleftrightarrow> (\<forall>k a. rx_Get (tr_route ts) (ro_root r) k = Some a \<longrightarrow> k \<noteq> [] \<and> a < ro_fresh r)"

definition mounts :: "('r, 'm, 'p) trees \<Rightarrow> ('r, 'm, 'p) Router \<Rightarrow> string set" where
  "mounts ts r = dom (rx_Get (tr_route ts) (ro_root r))"

lemma Mount_Inr:
  assumes "Mount ts r backend mountPath me view = Inr r'"
  defines "prefix \<equiv> ns_Path (me_namespace me) @ mountPath"
  obtains re where "new_entry (tr_path ts) backend me view = Inr re" "prefix \<noteq> []"
    "ro_root r' = rx_Insert (tr_route ts) (ro_root r) prefix (ro_fresh r)"
    "ro_entries r' = (ro_entries r)(ro_fresh r := re)" "ro_fresh r' = Suc (ro_fresh r)"
    "\<And>k a. rx_LongestPrefix (tr_route ts) (ro_root r) prefix = Some (k, a) \<Longrightarrow> k = []"
  using assms by (auto simp: Mount_def Let_def split: if_splits sum.splits option.splits)

lemma Mount_get:
  assumes "radix_ok (tr_route ts)" "Mount ts r backend mountPath me view = Inr r'"
  shows "rx_Get (tr_route ts) (ro_root r') =
    (rx_Get (tr_route ts) (ro_root r))(ns_Path (me_namespace me) @ mountPath \<mapsto> ro_fresh r)"
proof -
  have "ro_root r' = rx_Insert (tr_route ts) (ro_root r) (ns_Path (me_namespace me) @ mountPath) (ro_fresh r)"
    by (rule Mount_Inr [OF assms(2)])
  then show ?thesis by (simp add: radix_laws [OF assms(1)])
qed

lemma Mount_fresh:
  assumes "radix_ok (tr_route ts)" "router_ok ts r" "Mount ts r backend mountPath me view = Inr r'"
  shows "rx_Get (tr_route ts) (ro_root r) (ns_Path (me_namespace me) @ mountPath) = None"
proof (rule ccontr)
  let ?p = "ns_Path (me_namespace me) @ mountPath"
  let ?lp = "rx_LongestPrefix (tr_route ts) (ro_root r) ?p"
  have root: "k = []" if "?lp = Some (k, a)" for k a
  proof (rule Mount_Inr [OF assms(3)])
    fix re assume "\<And>k a. ?lp = Some (k, a) \<Longrightarrow> k = []"
    with that show "k = []" by blast
  qed
  note lp = radix_laws(4) [OF assms(1), of "ro_root r" ?p]
  assume "rx_Get (tr_route ts) (ro_root r) ?p \<noteq> None"
  with lp obtain k a where k: "?lp = Some (k, a)" by (cases ?lp) (auto simp: longest_prefix_def has_prefix_iff)
  with lp have "rx_Get (tr_route ts) (ro_root r) k = Some a" by (simp add: longest_prefix_def)
  then have "k \<noteq> []" using assms(2) by (auto simp: router_ok_def)
  with root [OF k] show False by simp
qed

lemma Mount_ok:
  assumes "radix_ok (tr_route ts)" "router_ok ts r" "Mount ts r backend mountPath me view = Inr r'"
  shows "router_ok ts r'"
proof -
  have "ns_Path (me_namespace me) @ mountPath \<noteq> []" by (rule Mount_Inr [OF assms(3)])
  moreover have "ro_fresh r' = Suc (ro_fresh r)" by (rule Mount_Inr [OF assms(3)])
  ultimately show ?thesis
    using assms(2) unfolding router_ok_def Mount_get [OF assms(1,3)] by (auto simp: less_SucI)
qed

lemma find_route_other:
  assumes "radix_ok (tr_route ts)" "router_ok ts r"
    "\<And>k. has_prefix path k \<Longrightarrow> rx_Get (tr_route ts) (ro_root r') k = rx_Get (tr_route ts) (ro_root r) k"
    "\<And>a. a < ro_fresh r \<Longrightarrow> ro_entries r' a = ro_entries r a"
  shows "find_route ts r' path = find_route ts r path"
proof -
  have eq: "rx_LongestPrefix (tr_route ts) (ro_root r') path = rx_LongestPrefix (tr_route ts) (ro_root r) path"
    by (rule longest_prefix_cong [OF radix_laws(4) [OF assms(1)] radix_laws(4) [OF assms(1)] assms(3)])
  show ?thesis
  proof (cases "rx_LongestPrefix (tr_route ts) (ro_root r) path")
    case (Some x)
    then obtain k a where k: "rx_LongestPrefix (tr_route ts) (ro_root r) path = Some (k, a)" by (cases x) simp
    with radix_laws(4) [OF assms(1), of "ro_root r" path] have "a < ro_fresh r"
      using assms(2) by (auto simp: longest_prefix_def router_ok_def)
    with k eq assms(4) show ?thesis by (simp add: find_route_def)
  qed (simp add: find_route_def eq)
qed

lemma new_entry_mount:
  "new_entry rx backend me view = Inr re \<Longrightarrow> re_mountEntry re = me \<and> re_backend re = backend"
  by (auto simp: new_entry_def Let_def split: sum.splits)

lemma Mount_routes:
  assumes "radix_ok (tr_route ts)" "router_ok ts r" "Mount ts r backend mountPath me view = Inr r'"
  defines "prefix \<equiv> ns_Path (me_namespace me) @ mountPath"
  assumes "has_prefix path prefix" "\<And>k. k \<in> mounts ts r \<Longrightarrow> has_prefix path k \<Longrightarrow> length k < length prefix"
  shows "find_route ts r' path = Some (prefix, ro_entries r' (ro_fresh r))"
proof -
  have get: "rx_Get (tr_route ts) (ro_root r') = (rx_Get (tr_route ts) (ro_root r))(prefix \<mapsto> ro_fresh r)"
    using Mount_get [OF assms(1,3)] by (simp add: prefix_def)
  have "rx_LongestPrefix (tr_route ts) (ro_root r') path = Some (prefix, ro_fresh r)"
  proof (rule longest_prefix_is [OF radix_laws(4) [OF assms(1)] assms(5)])
    show "rx_Get (tr_route ts) (ro_root r') prefix = Some (ro_fresh r)" by (simp add: get)
    fix k assume "has_prefix path k" "rx_Get (tr_route ts) (ro_root r') k \<noteq> None"
    then show "length k \<le> length prefix"
      using assms(6) [of k] by (cases "k = prefix") (auto simp: get mounts_def domIff)
  qed
  then show ?thesis by (simp add: find_route_def)
qed

lemma Mount_Unmount:
  assumes "radix_ok (tr_route ts)" "router_ok ts r" "Mount ts r backend mountPath me view = Inr r'"
  shows "\<exists>r''. Unmount ts r' (Inr (me_namespace me)) mountPath = Inr r''
    \<and> (\<forall>path. find_route ts r'' path = find_route ts r path)"
proof -
  let ?p = "ns_Path (me_namespace me) @ mountPath"
  note none = Mount_fresh [OF assms]
  note get = Mount_get [OF assms(1,3)]
  obtain r'' where un: "Unmount ts r' (Inr (me_namespace me)) mountPath = Inr r''"
    "ro_root r'' = rx_Delete (tr_route ts) (ro_root r') ?p" "ro_entries r'' = ro_entries r'"
    by (simp add: Unmount_def Let_def get)
  have "rx_Get (tr_route ts) (ro_root r'') = rx_Get (tr_route ts) (ro_root r)"
    using none by (simp add: un(2) radix_laws(3) [OF assms(1)] get fun_upd_idem)
  moreover have "ro_entries r'' a = ro_entries r a" if "a < ro_fresh r" for a
  proof (rule Mount_Inr [OF assms(3)])
    fix re assume "ro_entries r' = (ro_entries r)(ro_fresh r := re)"
    with that un(3) show "ro_entries r'' a = ro_entries r a" by simp
  qed
  ultimately have "find_route ts r'' path = find_route ts r path" for path
    by (intro find_route_other [OF assms(1,2)]) simp_all
  with un(1) show ?thesis by blast
qed

text \<open>
  C37. Mounting and unmounting. A successful mount takes exactly the paths below its prefix that
  no deeper mount has, and unmounting it restores the routing of every path.
\<close>

theorem mount_unmount:
  assumes "radix_ok (tr_route ts)" "router_ok ts r" "Mount ts r backend mountPath me view = Inr r'"
  defines "prefix \<equiv> ns_Path (me_namespace me) @ mountPath"
  shows "(\<exists>re. re_mountEntry re = me \<and> re_backend re = backend
      \<and> (\<forall>path. has_prefix path prefix \<and> (\<forall>k \<in> mounts ts r. has_prefix path k \<longrightarrow> length k < length prefix)
           \<longrightarrow> find_route ts r' path = Some (prefix, re)))
    \<and> (\<forall>path. \<not> has_prefix path prefix \<longrightarrow> find_route ts r' path = find_route ts r path)
    \<and> (\<exists>r''. Unmount ts r' (Inr (me_namespace me)) mountPath = Inr r''
         \<and> (\<forall>path. find_route ts r'' path = find_route ts r path))"
proof (intro conjI allI impI)
  obtain re where re: "new_entry (tr_path ts) backend me view = Inr re"
    "ro_entries r' = (ro_entries r)(ro_fresh r := re)" by (rule Mount_Inr [OF assms(3)])
  have "re_mountEntry re = me \<and> re_backend re = backend" by (rule new_entry_mount [OF re(1)])
  moreover have "find_route ts r' path = Some (prefix, re)"
    if "has_prefix path prefix" "\<forall>k \<in> mounts ts r. has_prefix path k \<longrightarrow> length k < length prefix" for path
    using Mount_routes [OF assms(1-3), of path] that re(2) by (simp add: prefix_def)
  ultimately show "\<exists>re. re_mountEntry re = me \<and> re_backend re = backend
      \<and> (\<forall>path. has_prefix path prefix \<and> (\<forall>k \<in> mounts ts r. has_prefix path k \<longrightarrow> length k < length prefix)
           \<longrightarrow> find_route ts r' path = Some (prefix, re))" by blast
  show "find_route ts r' path = find_route ts r path" if "\<not> has_prefix path prefix" for path
    using that by (intro find_route_other [OF assms(1,2)]) (auto simp: Mount_get [OF assms(1,3)] prefix_def re(2))
  show "\<exists>r''. Unmount ts r' (Inr (me_namespace me)) mountPath = Inr r''
      \<and> (\<forall>path. find_route ts r'' path = find_route ts r path)" by (rule Mount_Unmount [OF assms(1-3)])
qed

text \<open>No mount lies below another.\<close>

definition disjoint_mounts :: "('r, 'm, 'p) trees \<Rightarrow> ('r, 'm, 'p) Router \<Rightarrow> bool" where
  "disjoint_mounts ts r \<longleftrightarrow> (\<forall>k \<in> mounts ts r. \<forall>j \<in> mounts ts r. has_prefix j k \<longrightarrow> j = k)"

lemma MountConflict_none:
  assumes "radix_ok (tr_route ts)" "router_ok ts r" "MountConflict ts r (Inr ns) path = []" "k \<in> mounts ts r"
  shows "\<not> has_prefix (ns_Path ns @ path) k" "\<not> has_prefix k (ns_Path ns @ path)"
proof -
  let ?p = "ns_Path ns @ path"
  obtain a where a: "rx_Get (tr_route ts) (ro_root r) k = Some a" using assms(4) by (auto simp: mounts_def)
  have "rx_LongestPrefix (tr_route ts) (ro_root r) ?p = None"
  proof (rule ccontr)
    assume "rx_LongestPrefix (tr_route ts) (ro_root r) ?p \<noteq> None"
    then obtain j b where j: "rx_LongestPrefix (tr_route ts) (ro_root r) ?p = Some (j, b)" by force
    with radix_laws(4) [OF assms(1), of "ro_root r" ?p] have "j \<noteq> []"
      using assms(2) by (auto simp: longest_prefix_def router_ok_def)
    with j assms(3) show False
      by (simp add: MountConflict_def matchingMountInternal_def find_route_def Let_def)
  qed
  with radix_laws(4) [OF assms(1), of "ro_root r" ?p] a show "\<not> has_prefix ?p k"
    by (auto simp: longest_prefix_def)
  show "\<not> has_prefix k ?p"
  proof
    assume pre: "has_prefix k ?p"
    let ?w = "filter (\<lambda>(j, _). has_prefix j ?p) (rx_WalkPrefix (tr_route ts) (ro_root r) ?p)"
    have "(k, a) \<in> set ?w" using pre a radix_laws(5) [OF assms(1)] by simp
    then obtain j b ws where w: "?w = (j, b) # ws" by (cases ?w) auto
    then have "(j, b) \<in> set ?w" by simp
    then have "rx_Get (tr_route ts) (ro_root r) j = Some b" using radix_laws(5) [OF assms(1)] by simp
    then have "j \<noteq> []" using assms(2) by (auto simp: router_ok_def)
    with w assms(3) show False
      by (auto simp: MountConflict_def matchingPrefixInternal_def Let_def split: if_splits)
  qed
qed

text \<open>
  C36. Disjoint mounts. When the conflict check finds nothing and the mount succeeds, no mount lies
  below another afterwards, provided that none did before.
\<close>

theorem mounts_stay_disjoint:
  assumes "radix_ok (tr_route ts)" "router_ok ts r" "disjoint_mounts ts r"
    "MountConflict ts r (Inr (me_namespace me)) mountPath = []"
    "Mount ts r backend mountPath me view = Inr r'"
  shows "router_ok ts r' \<and> disjoint_mounts ts r'"
proof -
  have "mounts ts r' = insert (ns_Path (me_namespace me) @ mountPath) (mounts ts r)"
    using Mount_get [OF assms(1,5)] by (auto simp: mounts_def)
  with assms(3) MountConflict_none [OF assms(1,2,4)] have "disjoint_mounts ts r'"
    by (auto simp: disjoint_mounts_def)
  with Mount_ok [OF assms(1,2,5)] show ?thesis by simp
qed

section \<open>The approval endpoints\<close>

lemma system_unshadowed: "unshadowed systemRootPaths"
  by code_simp

lemma not_root_match:
  assumes "list_all (\<lambda>p. if starred p then 2 < length p \<and> take 2 p \<noteq> take 2 s
                          else take (length s) p \<noteq> s) ps" "2 \<le> length s"
  shows "\<not> root_match ps (s @ rest)"
proof -
  have "\<not> (if starred p then has_prefix (s @ rest) (butlast p) else s @ rest = p)" if p: "p \<in> set ps" for p
  proof (cases "starred p")
    case True
    with assms(1) p have len: "2 < length p" "take 2 p \<noteq> take 2 s" by (auto simp: list_all_iff)
    have "take 2 (butlast p @ t) = take 2 p" for t using len(1) by (auto simp: butlast_conv_take min_def)
    moreover have "take 2 (s @ rest) = take 2 s" using assms(2) by simp
    ultimately have "\<not> has_prefix (s @ rest) (butlast p)" using len(2) unfolding has_prefix_iff by metis
    with True show ?thesis by simp
  next
    case False
    then have "take (length s) p \<noteq> s" using assms(1) p by (auto simp: list_all_iff)
    with False show ?thesis by auto
  qed
  then show ?thesis unfolding root_match_def list_ex_iff by blast
qed

lemma approval_rule_paths:
  "\<not> root_match systemRootPaths (''approvals/config/'' @ rest)"
  "\<not> root_match systemRootPaths (''approvals/pending/'' @ rest)"
  by (rule not_root_match; code_simp)+

lemma approval_list_paths:
  "root_match systemRootPaths ''approvals/config''" "root_match systemRootPaths ''approvals/pending''"
  by code_simp+

lemma find_route_sys:
  assumes "find_route ts r (ns_Path ns @ ''sys/'' @ path) = Some (ns_Path ns @ ''sys/'', re)"
    "radix_ok (tr_path ts)" "re_rootPaths re = pathsToRadix (tr_path ts) systemRootPaths"
  shows "RootPath ts r (Inr ns) (''sys/'' @ path) \<longleftrightarrow> root_match systemRootPaths path"
proof -
  have "trim_prefix (ns_Path ns @ ''sys/'' @ path) (ns_Path ns @ ''sys/'') = path"
    using trim_prefix_append [of "ns_Path ns @ ''sys/''" path] by simp
  with assms system_unshadowed show ?thesis by (simp add: RootPath_def match_root_iff)
qed

text \<open>
  Sudo on the approval endpoints, against what the comments in the source say. The system backend lists the paths of the approval rules and
  of the pending requests as root paths, but without a star: reading, writing or deleting a
  single rule or request does not need root privileges, and neither does a LIST request, whose
  path ends in a slash. Only a request for the bare path needs them.
\<close>

theorem approval_endpoints_need_no_sudo:
  assumes "radix_ok (tr_path ts)" "re_rootPaths re = pathsToRadix (tr_path ts) systemRootPaths"
    "\<And>path. find_route ts r (ns_Path ns @ ''sys/'' @ path) = Some (ns_Path ns @ ''sys/'', re)"
    "collection \<in> {''approvals/config'', ''approvals/pending''}"
  shows "RootPath ts r (Inr ns) (''sys/'' @ collection)
    \<and> \<not> RootPath ts r (Inr ns) (list_request_path (''sys/'' @ collection))
    \<and> \<not> RootPath ts r (Inr ns) (''sys/'' @ collection @ ''/'' @ rid)"
proof -
  have eq: "list_request_path (''sys/'' @ collection) = ''sys/'' @ collection @ ''/'' @ []"
    using assms(4) by (auto simp: list_request_path_def has_suffix_def)
  have "\<not> root_match systemRootPaths (collection @ ''/'' @ rest)" for rest
    using assms(4) approval_rule_paths [of rest] by auto
  moreover have "root_match systemRootPaths collection" using assms(4) approval_list_paths by blast
  ultimately show ?thesis
    unfolding eq using find_route_sys [OF assms(3,1,2)] by blast
qed

section \<open>An example\<close>

definition demo_trees :: "((string \<times> nat) list, (string \<times> MountEntry) list, (string \<times> bool) list) trees" where
  "demo_trees = \<lparr>tr_route = alist_radix, tr_mount = alist_radix, tr_path = alist_radix\<rparr>"

definition demo_backend :: Backend where
  "demo_backend = \<lparr>be_SpecialPaths = Some (no_paths\<lparr>ps_Root := systemRootPaths\<rparr>)\<rparr>"

definition demo_ns :: Namespace where
  "demo_ns = \<lparr>ns_ID = ''root'', ns_Path = []\<rparr>"

definition demo_mount :: MountEntry where
  "demo_mount = \<lparr>me_Table = ''mounts'', me_Path = ''sys/'', me_Type = ''system'', me_UUID = ''u1'',
     me_Accessor = ''system_1'', me_Local = False, me_Tainted = False, me_namespace = demo_ns\<rparr>"

definition demo_entry :: "(string \<times> bool) list routeEntry" where
  "demo_entry =
     (let none = \<lparr>se_paths = [], se_wildcardPaths = []\<rparr> in
      \<lparr>re_tainted = False, re_backend = Some demo_backend, re_mountEntry = demo_mount,
       re_storageView = NewBarrierView ''sys/'', re_storagePrefix = ''sys/'',
       re_rootPaths = pathsToRadix alist_radix systemRootPaths, re_loginPaths = none, re_binaryPaths = none,
       re_limitedPaths = none, re_allowSnapshotReadPaths = none\<rparr>)"

definition demo_router where
  "demo_router = NewRouter demo_trees (\<lambda>_. demo_entry)"

definition demo_mounted where
  "demo_mounted = projr (Mount demo_trees demo_router (Some demo_backend) ''sys/'' demo_mount (NewBarrierView ''sys/''))"

lemma demo_trees_ok: "radix_ok (tr_route demo_trees)" "radix_ok (tr_path demo_trees)"
  by (simp_all add: demo_trees_def alist_radix_ok)

lemma demo_router_ok: "router_ok demo_trees demo_router" "mounts demo_trees demo_router = {}"
  using radix_laws(1) [OF demo_trees_ok(1)]
  by (simp_all add: router_ok_def mounts_def demo_router_def NewRouter_def)

lemma demo_empty:
  "rx_LongestPrefix (tr_route demo_trees) (ro_root demo_router) p = None"
  "rx_WalkPrefix (tr_route demo_trees) (ro_root demo_router) p = []"
proof -
  have "rx_Get (tr_route demo_trees) (ro_root demo_router) = Map.empty"
    using radix_laws(1) [OF demo_trees_ok(1)] by (simp add: demo_router_def NewRouter_def)
  with radix_laws(4) [OF demo_trees_ok(1), of "ro_root demo_router" p]
  show "rx_LongestPrefix (tr_route demo_trees) (ro_root demo_router) p = None"
    by (cases "rx_LongestPrefix (tr_route demo_trees) (ro_root demo_router) p") (auto simp: longest_prefix_def)
  show "rx_WalkPrefix (tr_route demo_trees) (ro_root demo_router) p = []"
    by (simp add: demo_trees_def demo_router_def NewRouter_def alist_radix_def)
qed

lemma demo_new_entry: "new_entry (tr_path demo_trees) (Some demo_backend) demo_mount (NewBarrierView ''sys/'') = Inr demo_entry"
  by (simp add: new_entry_def backend_paths_def demo_backend_def no_paths_def parseSpecialPaths_def
      pathsToRadix_def [of _ "[]"] demo_trees_def alist_radix_def demo_entry_def demo_mount_def NewBarrierView_def Let_def)

lemma demo_mounts:
  "Mount demo_trees demo_router (Some demo_backend) ''sys/'' demo_mount (NewBarrierView ''sys/'') = Inr demo_mounted"
  unfolding demo_mounted_def Mount_def demo_new_entry demo_empty
  by (simp add: Let_def demo_mount_def demo_ns_def demo_entry_def NewBarrierView_def)

lemma demo_routes: "find_route demo_trees demo_mounted (ns_Path demo_ns @ ''sys/'' @ path) = Some (ns_Path demo_ns @ ''sys/'', demo_entry)"
proof (rule Mount_Inr [OF demo_mounts])
  fix re
  assume "new_entry (tr_path demo_trees) (Some demo_backend) demo_mount (NewBarrierView ''sys/'') = Inr re"
    and "ro_entries demo_mounted = (ro_entries demo_router)(ro_fresh demo_router := re)"
  then have "ro_entries demo_mounted (ro_fresh demo_router) = demo_entry" by (simp add: demo_new_entry)
  with Mount_routes [OF demo_trees_ok(1) demo_router_ok(1) demo_mounts, of "''sys/'' @ path"] show ?thesis
    by (simp add: demo_router_ok demo_mount_def demo_ns_def has_prefix_def)
qed

lemma demo_roots: "re_rootPaths demo_entry = pathsToRadix (tr_path demo_trees) systemRootPaths"
  by (simp add: demo_entry_def demo_trees_def Let_def)

theorem root_paths_exact_witness:
  "RootPath demo_trees demo_mounted (Inr demo_ns) ''sys/raw/core/keyring''
   \<longleftrightarrow> root_match systemRootPaths (trim_prefix (ns_Path demo_ns @ ''sys/raw/core/keyring'') (ns_Path demo_ns @ ''sys/''))"
  using root_paths_exact [OF demo_trees_ok(2) _ demo_roots system_unshadowed, of demo_mounted demo_ns "''sys/raw/core/keyring''"]
    demo_routes [of "''raw/core/keyring''"] by simp

theorem mount_unmount_witness:
  "\<exists>r''. Unmount demo_trees demo_mounted (Inr (me_namespace demo_mount)) ''sys/'' = Inr r''
     \<and> (\<forall>path. find_route demo_trees r'' path = find_route demo_trees demo_router path)"
  using mount_unmount [OF demo_trees_ok(1) demo_router_ok(1) demo_mounts] by blast

theorem mounts_stay_disjoint_witness:
  "router_ok demo_trees demo_mounted \<and> disjoint_mounts demo_trees demo_mounted"
proof (rule mounts_stay_disjoint [OF demo_trees_ok(1) demo_router_ok(1) _ _ demo_mounts])
  show "disjoint_mounts demo_trees demo_router" by (simp add: disjoint_mounts_def demo_router_ok)
  show "MountConflict demo_trees demo_router (Inr (me_namespace demo_mount)) ''sys/'' = []"
    by (simp add: MountConflict_def matchingMountInternal_def matchingPrefixInternal_def find_route_def demo_empty)
qed

theorem approval_endpoints_need_no_sudo_witness:
  "RootPath demo_trees demo_mounted (Inr demo_ns) ''sys/approvals/config''
   \<and> \<not> RootPath demo_trees demo_mounted (Inr demo_ns) (list_request_path ''sys/approvals/config'')
   \<and> \<not> RootPath demo_trees demo_mounted (Inr demo_ns) ''sys/approvals/config/prod''"
  using approval_endpoints_need_no_sudo [OF demo_trees_ok(2) demo_roots demo_routes, of "''approvals/config''" "''prod''"]
  by simp

end
