(* ===== verification/Spec2Isabelle.thy ===== *)
theory Spec2Isabelle
  imports Approval_Demo ACL_Demo Shamir Queue Router_Laws
begin

text \<open>
  A verification of the approval workflow that this fork adds to Vault, with the parts of Vault
  it stands on: storage views, access control, the router, and the secret sharing and the
  priority queue of the server.

  The program. A client request that passed the token and policy checks reaches the end of
  \<open>handleRequest\<close> (\<open>vault/request_handling.go\<close>). There the interceptor of
  \<open>vault/approval_core.go\<close> looks for a rule that covers its path. A covered request is parked in
  storage instead of being routed. Approvers vote for it or deny it through \<open>sys/approvals/\<close>
  (\<open>vault/logical_system_approvals.go\<close>). The vote that completes the required number runs the
  parked request against its backend and keeps the answer, which the requester fetches once.
  Before that point the token's policies decide (\<open>vault/policy.go\<close>, \<open>vault/acl.go\<close>), after it the router
  finds the backend of a path and says which paths need sudo (\<open>vault/router.go\<close>). The seal key is
  split with Shamir's scheme (\<open>shamir/shamir.go\<close>). Engines schedule rotations with the queue of
  \<open>sdk/queue\<close>.

  The theories of the workflow.
  \<^item> \<open>Prelude\<close>: the state monad's proof rules (\<open>hoare\<close>, \<open>keeps\<close>, \<open>steps\<close>) and sorted association lists.
  \<^item> \<open>GoLib\<close>: what the code uses of Go's library: strings, UTF-8, case folding, header names, URL
    schemes, time.
  \<^item> \<open>Logical\<close>: requests, responses and leases of \<open>sdk/logical\<close>.
  \<^item> \<open>Storage\<close>: the in-memory backend (\<open>sdk/physical/inmem\<close>), \<open>StorageView\<close>, \<open>BarrierView\<close> and the
    scans of \<open>sdk/logical/storage.go\<close>; the locale \<open>kv_store\<close> is their contract.
  \<^item> \<open>Approval_Core\<close>, \<open>Approval_Handlers\<close>, \<open>Approval_Paths\<close>: the definitions of the workflow, function by
    function, and the dispatch through the path table (\<open>sdk/framework/backend.go\<close>).
  \<^item> \<open>Approval_Logic\<close>: rules for storage calls that may fail, and the frame locales that say what a
    program leaves alone, interpreted for the dispatch log, for the inputs of a world and for
    the part of the storage that is written.
  \<^item> \<open>Approval_Safety\<close>: the invariant of the stored documents, kept by every handler under any storage
    faults, proved once for an arbitrary policy on records (locale \<open>record_policy\<close>) and used for the
    invariant itself and for the life of a record; the transition system \<open>reachable\<close>.
  \<^item> \<open>Approval_Spec\<close>, \<open>Approval_Intercept\<close>, \<open>Approval_Decide\<close>: the exact behaviour on a working storage.
  \<^item> \<open>Approval_Progress\<close>: enough votes lead to execution and delivery, the query for clients agrees with
    the interceptor, and a deleted rule takes its records with it.
  \<^item> \<open>Approval_Demo\<close>: a concrete deployment, to which the theorems are applied.

  The theories of the parts around it.
  \<^item> \<open>Policy\<close>: capabilities and permissions, and \<open>parsePaths\<close> from the decoded document on.
  \<^item> \<open>ACL\<close>: \<open>NewACL\<close>, \<open>AllowOperation\<close>, \<open>CheckAllowedFromNonExactPaths\<close>, \<open>Capabilities\<close> and the policy check
    of a request. \<open>ACL_Merge\<close> proves that the merge implements its specification (\<open>grants\<close>),
    \<open>ACL_Decide\<close> which rule wins and that authority comes from policies; \<open>ACL_Demo\<close> has instances.
  \<^item> \<open>Radix\<close>: the interface of the radix trees, with association lists that satisfy it. \<open>Router\<close>: mounts,
    searches, special paths and the target of a request; \<open>Router_Laws\<close>: mounting and unmounting,
    disjointness, and which requests to the approval endpoints need sudo.
  \<^item> \<open>GF256\<close>: the arithmetic of bytes, as an instance of the class of fields. \<open>Shamir\<close>: \<open>Split\<close> and \<open>Combine\<close>,
    with recovery and secrecy by interpolation over that field.
  \<^item> \<open>Queue\<close>: the priority queue with the heap operations of Go's library on a store of items; the
    locale \<open>keyed_queue\<close> is its contract.

  State. A \<open>world\<close> holds the storage, a script that decides for each storage call whether it fails,
  the readings of the clock and of the UUID generator, and two outputs: the requests handed to
  backends and the Slack messages. \<open>core\<close> holds what the code reaches through its \<open>Core\<close> value: the
  system view, the identity store, the token lookup, the routing function, the advertised
  address, and the part of \<open>url.Parse\<close> after the scheme. They are parameters of every definition.
  The router keeps its route entries in a store of addresses, since two trees share them; the
  queue does the same with its items. Words are used where the code works on bits: capabilities
  and bytes.
  \<open>(value, error)\<close> is a sum type, and every early return of the source is a branch of the model.

  Conventions. Theorems on \<open>approval_inv\<close> worlds hold under any storage faults; theorems on
  \<open>healthy\<close> worlds are about a storage that works. Each handler runs to its end before the
  next one: the races that the source's comments mention are not part of the model. Loops run
  over finite listings, so they are structural recursions and need no fuel; \<open>ScanView\<close>, whose
  traversal may not end on an arbitrary listing function, is a \<open>partial_function\<close> into options.

  Parameters for code outside the repository, with what is assumed of it: radix trees (\<open>radix_ok\<close>),
  the deep copy of an item (\<open>copy_ok\<close>), random bytes and the random permutation (\<open>rand_ok\<close>,
  \<open>perm_ok\<close>). The HCL decoder, identity templating, the parsing of durations and the glob and list
  helpers of access control are parameters of which nothing is assumed.

  Not modelled. Log lines; goroutines and locks (the Slack post is recorded as one step); the
  text of numbers and times that only reaches logs; the conversion of body fields by the framework's
  schema (a parameter); response wrapping, leases and audit, which \<open>handleRequest\<close> does around the
  interception point; the sharing of slices between merged permissions; observation records; the
  part of \<open>routeCommon\<close> that rewrites the request and calls the backend.

  Simplifications. A backend is a function from the request and its number in the dispatch log to
  an answer: what it writes itself, outside the approval view, is not part of a world, so nothing
  is claimed about the storage of backends. The token lookup is a function and does not fail with
  the storage. Case folding between two non-ASCII letters is left out, and lower case is that of
  ASCII. Seconds of a duration are exact integers, where the source goes through a float.
  Encoding a record as JSON does not fail. The error of a bad special path carries its path and
  reason, without quoting. Unmounting leaves out the \<open>Cleanup\<close> of the backend.

  The rest of Vault (seals, clusters, token and identity stores, expiration,
  engines, plugins, clients) is not part of the development: it is network, goroutines, external
  code or unrelated to the workflow.
\<close>

section \<open>The system as a whole\<close>

text \<open>
  C1. Storage invariant. In every world reachable from an empty store, by client requests and
  approval calls in any order and with any storage faults, all approval documents are well formed
  (\<open>approval_inv\<close>): each lies under the key of its identifier, a rule names an approver, a
  required number of at least one and a valid webhook, no parked header carries a credential, no
  identified approver votes twice, an approved record has a vote, and the deadlines follow from
  the creation times.
\<close>

theorem invariant_reachable:
  assumes "bv_readOnlyErr (c_systemBarrierView c) = None" "\<forall>n u. uuids n = Some u \<longrightarrow> uuidPattern u"
    "reachable c (fresh_world faults clock uuids) w"
  shows "approval_inv c w"
  using reachable_inv [OF assms(3)] fresh_world_inv [OF assms(1)] assms(2) by blast

lemma callback_approve_only:
  assumes "map_of (Callbacks c req fd r) op = Some m" "\<not> steps same_routed m"
  shows "\<exists>rid. r = RApprove rid \<and> op = UpdateOperation \<and> m = handleApprovalApprove c req rid"
  using assms unrouted.handler_steps
  by (auto simp: Callbacks_def split: approval_route.splits if_splits)

lemma deliver_approve_only:
  assumes "run_state (HandleRequest c req fd path) w = (r, w')" "w_routed w' \<noteq> w_routed w"
  shows "\<exists>rid x. first_match approvalPaths path = Some (RApprove rid) \<and> rq_Operation req = UpdateOperation
    \<and> run_state (handleApprovalApprove c req rid) w = (x, w')"
proof -
  obtain rt m where m: "first_match approvalPaths path = Some rt"
    "map_of (Callbacks c req fd rt) (rq_Operation req) = Some m" "\<exists>x. run_state m w = (x, w')"
    using assms by (auto simp: HandleRequest_def split: option.splits prod.splits)
  then have "\<not> steps same_routed m"
    using assms(2) by (auto simp: same_routed_def dest: stepsD)
  with callback_approve_only [OF m(2)] m show ?thesis by auto
qed

lemma client_dispatch:
  assumes "run_state (handleRequest_route c False req auth) w = (r, w')" "w_routed w' \<noteq> w_routed w"
  shows "w_routed w' = w_routed w @ [req]"
proof -
  obtain a w1 where run: "run_state (checkNeedsApproval c req auth) w = (a, w1)" by fastforce
  then have "w_routed w1 = w_routed w"
    using stepsD [OF unrouted.checkNeedsApproval_steps] by (auto simp: same_routed_def)
  with assms run show ?thesis
    by (auto simp: handleRequest_route_def doRouting_def split: prod.splits if_splits)
qed

text \<open>
  C2. Every dispatch is justified. Whatever storage faults occur, a backend runs in a step of the
  system only for one of two reasons. Either a client request is passed on unchanged, and on a
  storage without faults it is one that needs no approval. Or there is an update of
  \<open>approvals/approve/<id>\<close> by a permitted approver whose vote reaches the required number for a
  pending, unexpired record, and then the parked request is what runs. (When a storage call fails
  the interceptor may overlook a rule and pass on a covered request.)
\<close>

theorem dispatch_justified:
  assumes "approval_inv c w" "run_state (deliver c ev) w = (r, w')" "w_routed w' \<noteq> w_routed w"
  shows "(\<exists>req auth. ev = Client req auth \<and> (w_faults w = [] \<longrightarrow> \<not> needs_approval c w req auth)
      \<and> w_routed w' = w_routed w @ [req])
    \<or> (\<exists>req fd rid p rule u. ev = Sys req fd (''approvals/approve/'' @ rid)
      \<and> rq_Operation req = UpdateOperation
      \<and> pending_at c w rid = Some p \<and> rule_at c w (pr_RuleID p) = Some rule
      \<and> pr_Status p = ''pending'' \<and> w_clock w (w_ticks w) \<le> pr_ExpiresAt p
      \<and> may_approve c req p rule \<and> ar_ApprovalsRequired rule \<le> int (length (pr_Approvals p)) + 1
      \<and> w_routed w' = w_routed w @ [reconstruct_request u p])"
proof (cases ev)
  case (Client req auth)
  then have run: "run_state (handleRequest_route c False req auth) w = (r, w')" using assms(2) by simp
  have "\<not> needs_approval c w req auth" if "w_faults w = []"
    using that assms(1,3) mediation_run [OF _ run] by (auto simp: healthy_def)
  with Client client_dispatch [OF run assms(3)] show ?thesis by blast
next
  case (Sys req fd path)
  with deliver_approve_only assms(2,3) obtain rid x where rid:
    "first_match approvalPaths path = Some (RApprove rid)" "rq_Operation req = UpdateOperation"
    "run_state (handleApprovalApprove c req rid) w = (x, w')" by fastforce
  note e = execution_run [OF assms(1) rid(3) assms(3)]
  have "path = ''approvals/approve/'' @ rid" using rid(1) by (auto dest: first_match_sound)
  with e Sys rid(2) show ?thesis by blast
qed

text \<open>
  C3. Life of a record. Whatever storage faults occur, no call below \<open>sys/approvals\<close> creates a
  record or alters the request parked in it; once a record is approved or denied, its status and
  votes are final.
\<close>

theorem record_life:
  assumes "approval_inv c w" "req_ok req" "run_state (HandleRequest c req fd path) w = (r, w')"
    "pending_at c w' rid = Some q"
  shows "\<exists>p. pending_at c w rid = Some p \<and> same_request p q
    \<and> (pr_Status p = ''pending'' \<or> pr_Status q = pr_Status p \<and> pr_Approvals q = pr_Approvals p)"
proof -
  have "approvals c w' (pending_key rid) = Some (DPending q)"
    using assms(4) by (auto simp: pending_at_def split: option.splits doc.splits)
  from evolves_HandleRequest [OF assms(1-3) this] show ?thesis
    unfolding evolves_def pending_at_def by fastforce
qed

text \<open>
  C20. Confinement. The workflow itself writes only keys below the prefix of the approval view. In
  a step in which no backend runs (parking, deduplication, votes below the quorum, denials,
  fetches, changes of rules and all listings), every other key of the system storage keeps its
  value, whatever storage faults occur. What a backend writes when it runs is not part of the
  model.
\<close>

theorem storage_confined:
  assumes "world_ok c w" "run_state (deliver c ev) w = (r, w')" "w_routed w' = w_routed w"
    "\<not> has_prefix k (sv_prefix (bv_storage (approvalStorage c)))"
  shows "map_of (InmemBackend.root (w_store w')) k = map_of (InmemBackend.root (w_store w)) k"
proof -
  have "steps (confined c) (deliver c ev)"
    using inside.HandleRequest_steps inside.handleRequest_steps by (cases ev) auto
  with assms show ?thesis
    by (auto simp: confined_def world_ok_def view_ok_def inmem_ok_def dest: stepsD)
qed

section \<open>The theorems applied\<close>

theorem invariant_reachable_witness:
  "approval_inv (demo_core demo_up) (snd (run_state (deliver (demo_core demo_up)
     (Client (demo_request ''alice'') None)) (fresh_world [True] (\<lambda>_. 0) (\<lambda>_. Some demo_uuid))))"
proof (rule invariant_reachable [where uuids = "\<lambda>_. Some demo_uuid"])
  show "bv_readOnlyErr (c_systemBarrierView (demo_core demo_up)) = None"
    by (simp add: demo_core_def NewBarrierView_def)
  show "\<forall>n u. Some demo_uuid = Some u \<longrightarrow> uuidPattern u"
    using demo_uuid_ok by simp
  show "reachable (demo_core demo_up) (fresh_world [True] (\<lambda>_. 0) (\<lambda>_. Some demo_uuid))
     (snd (run_state (deliver (demo_core demo_up) (Client (demo_request ''alice'') None))
        (fresh_world [True] (\<lambda>_. 0) (\<lambda>_. Some demo_uuid))))"
    by (rule reachable.step [OF reachable.start _ prod.collapse [symmetric]])
       (use demo_req_ok in simp)
qed

theorem dispatch_justified_witness:
  "\<exists>p rule. pending_at (demo_core demo_up) (demo_w2 2000 demo_voted) demo_uuid = Some p
     \<and> may_approve (demo_core demo_up) (demo_voter ''bob'') p rule"
proof -
  let ?ev = "Sys (demo_voter ''bob'') demo_fields demo_approve_path"
  have "w_routed (snd (run_state (deliver (demo_core demo_up) ?ev) (demo_w2 2000 demo_voted)))
      \<noteq> w_routed (demo_w2 2000 demo_voted)"
    using demo_approve_runs by simp
  from dispatch_justified [OF demo_inv(2) prod.collapse [symmetric] this] show ?thesis
    by (auto simp: demo_approve_path_def)
qed

theorem record_life_witness:
  "same_request demo_pending (with_vote (demo_voter ''alice'') 2000 demo_pending)"
proof -
  have "approval_inv (demo_core demo_up) (demo_w2 2000 demo_pending)"
    using demo_healthy2(1) by (simp add: healthy_def)
  from record_life [OF this demo_voter_ok(1) prod.collapse [symmetric] demo_vote_stored]
  show ?thesis by (auto simp: demo_at)
qed

theorem storage_confined_witness:
  "map_of (InmemBackend.root (w_store (snd (run_state (deliver (demo_core demo_up)
     (Sys (demo_voter ''alice'') demo_fields demo_approve_path)) (demo_w2 2000 demo_pending))))) ''core/mounts'' =
   map_of (InmemBackend.root (w_store (demo_w2 2000 demo_pending))) ''core/mounts''"
proof -
  let ?ev = "Sys (demo_voter ''alice'') demo_fields demo_approve_path"
  have ok: "world_ok (demo_core demo_up) (demo_w2 2000 demo_pending)"
    using demo_healthy2(1) by (rule healthy_ok)
  have "w_routed (snd (run_state (deliver (demo_core demo_up) ?ev) (demo_w2 2000 demo_pending))) =
      w_routed (demo_w2 2000 demo_pending)"
    using demo_vote_unrouted by simp
  from storage_confined [OF ok prod.collapse [symmetric] this, of "''core/mounts''"] show ?thesis
    by (simp add: demo_prefix has_prefix_def del: deliver.simps)
qed

end
